(* ===== verification/Prelude.thy ===== *)
theory Prelude
  imports Main "HOL-Library.Word"
begin

text \<open>
  Shared vocabulary of the development: bytes and strings, the operations of the C and C++
  standard library the program calls on them (\<open>std::string::find\<close>, \<open>rfind\<close>, \<open>substr\<close>,
  \<open>isdigit\<close>, \<open>toupper\<close>, \<open>strtoul\<close>, \<open>std::to_string\<close>, \<open>snprintf\<close> with \<open>%02x\<close> and
  \<open>%04X\<close>, \<open>sscanf\<close> with \<open>%2x\<close>), and generic lemmas about them.

  A \<open>std::string\<close> is a \<^typ>\<open>string\<close> (every character is one byte, as in C++); raw data is a
  list of \<open>8 word\<close>. The character classes are those of the C locale, the only one the program
  uses; bytes above 127 are in none of them. \<open>unsigned long\<close> and \<open>size_t\<close> have 64 bits (the
  LP64 targets x86_64 and aarch64).
\<close>

unbundle bit_operations_syntax

named_theorems cstr_simps \<open>definitions of the C string primitives, for evaluation on literals\<close>

type_synonym byte = "8 word"

section \<open>Bytes and characters\<close>

definition byte_of_char :: "char \<Rightarrow> byte" where
  "byte_of_char c = of_nat (of_char c)"

definition char_of_byte :: "byte \<Rightarrow> char" where
  "char_of_byte b = char_of (unat b)"

text \<open>\<open>reinterpret_cast<const uint8_t*>\<close> of a string's data, and back.\<close>

definition bytes_of :: "string \<Rightarrow> byte list" where
  "bytes_of s = map byte_of_char s"

definition chars_of :: "byte list \<Rightarrow> string" where
  "chars_of bs = map char_of_byte bs"

lemma unat_byte_of_char [simp]: "unat (byte_of_char c) = of_char c"
proof -
  have "of_char c < (256 :: nat)" by (cases c) (simp add: of_char_def)
  then show ?thesis by (simp add: byte_of_char_def unat_of_nat)
qed

lemma char_of_byte_of_char [simp]: "char_of_byte (byte_of_char c) = c"
  by (simp add: char_of_byte_def)

lemma byte_of_char_of_byte [simp]: "byte_of_char (char_of_byte b) = b"
proof (rule word_unat_eq_iff [THEN iffD2])
  have "unat b < 256" using unsigned_less [of b] by simp
  then show "unat (byte_of_char (char_of_byte b)) = unat b"
    by (simp add: char_of_byte_def)
qed

lemma chars_of_bytes_of [simp]: "chars_of (bytes_of s) = s"
  by (induction s) (auto simp: chars_of_def bytes_of_def)

lemma bytes_of_chars_of [simp]: "bytes_of (chars_of bs) = bs"
  by (induction bs) (auto simp: chars_of_def bytes_of_def)

lemma length_bytes_of [simp]: "length (bytes_of s) = length s"
  by (simp add: bytes_of_def)


section \<open>Character classes of the C locale\<close>

definition is_digit :: "char \<Rightarrow> bool" where
  [cstr_simps]: "is_digit c \<longleftrightarrow> (let n = of_char c :: nat in 48 \<le> n \<and> n \<le> 57)"

definition is_xdigit :: "char \<Rightarrow> bool" where
  [cstr_simps]: "is_xdigit c \<longleftrightarrow> (let n = of_char c :: nat in
     48 \<le> n \<and> n \<le> 57 \<or> 65 \<le> n \<and> n \<le> 70 \<or> 97 \<le> n \<and> n \<le> 102)"

definition is_alnum :: "char \<Rightarrow> bool" where
  "is_alnum c \<longleftrightarrow> (let n = of_char c :: nat in
     48 \<le> n \<and> n \<le> 57 \<or> 65 \<le> n \<and> n \<le> 90 \<or> 97 \<le> n \<and> n \<le> 122)"

definition is_space :: "char \<Rightarrow> bool" where
  [cstr_simps]: "is_space c \<longleftrightarrow> (let n = of_char c :: nat in n = 32 \<or> 9 \<le> n \<and> n \<le> 13)"

definition to_upper :: "char \<Rightarrow> char" where
  "to_upper c = (let n = of_char c :: nat in if 97 \<le> n \<and> n \<le> 122 then char_of (n - 32) else c)"

text \<open>The value of a hexadecimal digit (used only where \<^const>\<open>is_xdigit\<close> holds).\<close>

definition xdigit_val :: "char \<Rightarrow> nat" where
  "xdigit_val c = (let n = of_char c :: nat in
     if n \<le> 57 then n - 48 else if n \<le> 70 then n - 55 else n - 87)"

section \<open>Searching and cutting strings\<close>

text \<open>
  \<open>std::string::npos\<close> is \<^const>\<open>None\<close>. Positions are \<^typ>\<open>nat\<close>; where the source subtracts
  from a position in \<open>size_t\<close>, \<open>size_sub\<close> wraps as it does.
\<close>

definition size_sub :: "nat \<Rightarrow> nat \<Rightarrow> nat" where
  "size_sub a b = (if b \<le> a then a - b else 2 ^ 64 - (b - a))"

fun find_char :: "char \<Rightarrow> string \<Rightarrow> nat option" where
  "find_char c [] = None"
| "find_char c (x # xs) = (if x = c then Some 0 else map_option Suc (find_char c xs))"

text \<open>\<open>s.find(c, pos)\<close>\<close>

definition find_char_from :: "char \<Rightarrow> string \<Rightarrow> nat \<Rightarrow> nat option" where
  "find_char_from c s pos = map_option ((+) pos) (find_char c (drop pos s))"

text \<open>\<open>s.rfind(c, pos)\<close>: the last occurrence at an index of at most \<open>pos\<close>.\<close>

definition rfind_char_upto :: "char \<Rightarrow> string \<Rightarrow> nat \<Rightarrow> nat option" where
  "rfind_char_upto c s pos =
     (let t = take (Suc pos) s
      in map_option (\<lambda>k. length t - Suc k) (find_char c (rev t)))"

text \<open>\<open>s.rfind(c)\<close>\<close>

definition rfind_char :: "char \<Rightarrow> string \<Rightarrow> nat option" where
  "rfind_char c s = map_option (\<lambda>k. length s - Suc k) (find_char c (rev s))"

text \<open>\<open>s.find(p) != npos\<close>\<close>

fun str_contains :: "string \<Rightarrow> string \<Rightarrow> bool" where
  "str_contains p [] = (p = [])"
| "str_contains p (x # xs) = (take (length p) (x # xs) = p \<or> str_contains p xs)"

text \<open>\<open>s.substr(pos, n)\<close>, for \<open>pos \<le> s.size()\<close>, which every call of the program satisfies.\<close>

definition substr :: "string \<Rightarrow> nat \<Rightarrow> nat \<Rightarrow> string" where
  "substr s pos n = take n (drop pos s)"

text \<open>\<open>s.c_str()\<close> as a C function reads it: up to the first NUL.\<close>

definition c_str :: "string \<Rightarrow> string" where
  [cstr_simps]: "c_str s = takeWhile (\<lambda>c. c \<noteq> CHR 0x00) s"

text \<open>\<open>while (!s.empty() && p(s.back())) s.pop_back();\<close>\<close>

definition trim_right :: "(char \<Rightarrow> bool) \<Rightarrow> string \<Rightarrow> string" where
  "trim_right p s = rev (dropWhile p (rev s))"

section \<open>Reading and printing numbers\<close>

definition dec_value :: "string \<Rightarrow> nat" where
  "dec_value s = foldl (\<lambda>n c. 10 * n + (of_char c - 48)) 0 s"

definition hex_value :: "string \<Rightarrow> nat" where
  "hex_value s = foldl (\<lambda>n c. 16 * n + xdigit_val c) 0 s"

text \<open>
  \<open>strtoul(s, nullptr, 10)\<close> and \<open>strtoull\<close> (the same on LP64): white space, a sign, the longest
  run of digits; the result saturates at \<open>ULONG_MAX\<close>, a minus sign negates modulo \<open>2^64\<close>.
\<close>

definition scan_sign :: "string \<Rightarrow> bool \<times> string" where
  "scan_sign s = (case dropWhile is_space s of
      [] \<Rightarrow> (False, [])
    | c # cs \<Rightarrow> if c = CHR ''-'' then (True, cs)
                else if c = CHR ''+'' then (False, cs) else (False, c # cs))"

definition strtoul_10 :: "string \<Rightarrow> 64 word" where
  "strtoul_10 s =
     (let (neg, t) = scan_sign (c_str s);
          v = dec_value (takeWhile is_digit t)
      in if 2 ^ 64 \<le> v then - 1
         else if neg then - of_nat v else of_nat v)"

text \<open>
  \<open>strtoul(s, nullptr, 16)\<close> on a string of hexadecimal digits (the only way it is called), so
  with no white space, sign or \<open>0x\<close> prefix to skip.
\<close>

definition strtoul_16 :: "string \<Rightarrow> 64 word" where
  "strtoul_16 s =
     (let v = hex_value (takeWhile is_xdigit s) in if 2 ^ 64 \<le> v then - 1 else of_nat v)"

text \<open>\<open>std::to_string\<close> and \<open>operator<<\<close> of an unsigned number.\<close>

definition digit_char :: "nat \<Rightarrow> char" where
  "digit_char d = char_of (48 + d)"

fun dec_str :: "nat \<Rightarrow> string" where
  "dec_str n = (if n < 10 then [digit_char n] else dec_str (n div 10) @ [digit_char (n mod 10)])"

declare dec_str.simps [simp del]

definition dec_str_int :: "int \<Rightarrow> string" where
  "dec_str_int z = (if z < 0 then CHR ''-'' # dec_str (nat (- z)) else dec_str (nat z))"

definition hex_char_lower :: "nat \<Rightarrow> char" where
  "hex_char_lower d = char_of (if d < 10 then 48 + d else 87 + d)"

definition hex_char_upper :: "nat \<Rightarrow> char" where
  "hex_char_upper d = char_of (if d < 10 then 48 + d else 55 + d)"

text \<open>\<open>snprintf(buf, 3, "%02x", b)\<close> and \<open>snprintf(buf, 5, "%04X", w)\<close>\<close>

definition fmt_02x :: "byte \<Rightarrow> string" where
  "fmt_02x b = [hex_char_lower (unat b div 16), hex_char_lower (unat b mod 16)]"

definition fmt_04X :: "16 word \<Rightarrow> string" where
  "fmt_04X w = [hex_char_upper (unat w div 4096), hex_char_upper (unat w div 256 mod 16),
                hex_char_upper (unat w div 16 mod 16), hex_char_upper (unat w mod 16)]"

text \<open>
  \<open>unsigned byte = 0; sscanf(s, "%2x", &byte)\<close>: white space is skipped first (it does not count
  against the width), then at most two characters are taken: an optional sign and hexadecimal
  digits. Where no digit is found (also for a lone \<open>0x\<close>, whose prefix uses up the width) the
  variable keeps the value 0 or gets 0. A minus sign negates the unsigned value.
\<close>

definition sscanf_2x :: "string \<Rightarrow> 32 word" where
  "sscanf_2x s =
     (let t = take 2 (dropWhile is_space (c_str s)) in
      case t of
        [] \<Rightarrow> 0
      | c # cs \<Rightarrow>
          if c = CHR ''-'' then - of_nat (hex_value (takeWhile is_xdigit cs))
          else if c = CHR ''+'' then of_nat (hex_value (takeWhile is_xdigit cs))
          else of_nat (hex_value (takeWhile is_xdigit t)))"


section \<open>Lemmas about searching\<close>

lemma find_char_None [simp]: "find_char c s = None \<longleftrightarrow> c \<notin> set s"
  by (induction s) auto

lemma find_char_first [simp]: "c \<notin> set a \<Longrightarrow> find_char c (a @ c # b) = Some (length a)"
  by (induction a) auto

lemma find_char_Some_split:
  "find_char c s = Some k \<Longrightarrow> \<exists>a b. s = a @ c # b \<and> length a = k \<and> c \<notin> set a"
proof (induction s arbitrary: k)
  case Nil
  then show ?case by simp
next
  case (Cons x xs)
  show ?case
  proof (cases "x = c")
    case True
    with Cons.prems show ?thesis by (intro exI [of _ "[]"] exI [of _ xs]) simp
  next
    case False
    with Cons.prems obtain j where j: "find_char c xs = Some j" "k = Suc j" by auto
    from Cons.IH [OF j(1)] obtain a b where "xs = a @ c # b" "length a = j" "c \<notin> set a" by blast
    with False j(2) show ?thesis by (intro exI [of _ "x # a"] exI [of _ b]) simp
  qed
qed

lemma find_char_less: "find_char c s = Some k \<Longrightarrow> k < length s"
  by (auto dest: find_char_Some_split)

lemma find_char_from_None: "c \<notin> set (drop pos s) \<Longrightarrow> find_char_from c s pos = None"
  by (simp add: find_char_from_def)

lemma find_char_from_at:
  "length a = pos \<Longrightarrow> c \<notin> set b \<Longrightarrow> find_char_from c (a @ b @ c # d) pos = Some (pos + length b)"
  by (simp add: find_char_from_def)

lemma rfind_char_last [simp]: "c \<notin> set b \<Longrightarrow> rfind_char c (a @ c # b) = Some (length a)"
  using find_char_first [of c "rev b" "rev a"] by (simp add: rfind_char_def)

lemma rfind_char_None [simp]: "rfind_char c s = None \<longleftrightarrow> c \<notin> set s"
  by (simp add: rfind_char_def)

lemma rfind_char_upto_last:
  assumes "c \<notin> set b" "pos = length a + length b"
  shows "rfind_char_upto c (a @ c # b @ d) pos = Some (length a)"
proof -
  have "take (Suc pos) (a @ c # b @ d) = a @ c # b"
    using assms(2) by simp
  then show ?thesis
    using find_char_first [of c "rev b" "rev a"] assms(1) by (simp add: rfind_char_upto_def)
qed

lemma str_contains_iff: "str_contains p s \<longleftrightarrow> (\<exists>a b. s = a @ p @ b)"
proof (induction s)
  case Nil
  then show ?case by auto
next
  case (Cons x xs)
  have "take (length p) (x # xs) = p \<longleftrightarrow> (\<exists>b. x # xs = p @ b)"
    by (metis append_eq_conv_conj append_take_drop_id)
  moreover have "(\<exists>a b. x # xs = a @ p @ b) \<longleftrightarrow>
      (\<exists>b. x # xs = p @ b) \<or> (\<exists>a b. xs = a @ p @ b)"
    by (metis (no_types, opaque_lifting) append_Cons append_Nil list.sel(3) neq_Nil_conv)
  ultimately show ?case using Cons.IH by simp
qed

lemma trim_right_Nil [simp]: "trim_right p [] = []"
  by (simp add: trim_right_def)

lemma trim_right_snoc [simp]: "trim_right p (s @ [c]) = (if p c then trim_right p s else s @ [c])"
  by (simp add: trim_right_def)

lemma trim_right_last: "trim_right p s \<noteq> [] \<Longrightarrow> \<not> p (last (trim_right p s))"
  by (induction s rule: rev_induct) auto

lemma c_str_id: "CHR 0x00 \<notin> set s \<Longrightarrow> c_str s = s"
  unfolding c_str_def by (rule takeWhile_eq_all_conv [THEN iffD2]) auto

section \<open>Lemmas about numbers as text\<close>

lemma of_char_digit_char [simp]: "d < 10 \<Longrightarrow> (of_char (digit_char d) :: nat) = 48 + d"
  by (simp add: digit_char_def)

lemma is_digit_digit_char [simp]: "d < 10 \<Longrightarrow> is_digit (digit_char d)"
  by (simp add: is_digit_def)

lemma dec_str_digits: "c \<in> set (dec_str n) \<Longrightarrow> is_digit c"
proof (induction n rule: dec_str.induct)
  case (1 n)
  then show ?case
    by (cases "n < 10") (auto simp: dec_str.simps [of n])
qed

lemma dec_str_not_Nil [simp]: "dec_str n \<noteq> []"
  by (simp add: dec_str.simps [of n])

lemma dec_value_snoc: "dec_value (s @ [c]) = 10 * dec_value s + (of_char c - 48)"
  by (simp add: dec_value_def)

lemma dec_value_dec_str [simp]: "dec_value (dec_str n) = n"
proof (induction n rule: dec_str.induct)
  case (1 n)
  show ?case
  proof (cases "n < 10")
    case True
    then show ?thesis by (simp add: dec_str.simps [of n] dec_value_def)
  next
    case False
    with 1 show ?thesis by (simp add: dec_str.simps [of n] dec_value_snoc)
  qed
qed

lemma dec_str_inj: "dec_str m = dec_str n \<Longrightarrow> m = n"
  by (metis dec_value_dec_str)

lemma digit_not_special:
  "is_digit c \<Longrightarrow> \<not> is_space c \<and> c \<noteq> CHR ''-'' \<and> c \<noteq> CHR ''+'' \<and> c \<noteq> CHR '','' \<and> c \<noteq> CHR 0x00"
  by (auto simp: is_digit_def is_space_def Let_def)

lemma strtoul_10_digits:
  assumes "\<forall>c\<in>set s. is_digit c"
  shows "strtoul_10 s = (if 2 ^ 64 \<le> dec_value s then - 1 else of_nat (dec_value s))"
proof -
  have c: "c_str s = s" using assms digit_not_special by (intro c_str_id) blast
  have t: "takeWhile is_digit s = s" using assms by (simp add: takeWhile_eq_all_conv)
  have "dropWhile is_space s = s"
    using assms digit_not_special by (cases s) auto
  then have "scan_sign s = (False, s)"
    using assms digit_not_special by (cases s) (auto simp: scan_sign_def)
  then show ?thesis by (simp add: strtoul_10_def c t)
qed

lemma strtoul_10_dec_str: "n < 2 ^ 64 \<Longrightarrow> strtoul_10 (dec_str n) = of_nat n"
  using dec_str_digits by (subst strtoul_10_digits) auto

lemma strtoul_10_prefix:
  assumes "list_all is_digit d" "d \<noteq> []" "s = [] \<or> \<not> is_digit (hd s)"
  shows "strtoul_10 (d @ s) = strtoul_10 d"
proof -
  have nul: "CHR 0x00 \<notin> set d"
    using assms(1) by (auto simp: list_all_iff is_digit_def)
  have "takeWhile (\<lambda>c. c \<noteq> CHR 0x00) (d @ s) = d @ takeWhile (\<lambda>c. c \<noteq> CHR 0x00) s"
    by (rule takeWhile_append2) (use nul in metis)
  then have c: "c_str (d @ s) = d @ c_str s" "c_str d = d"
    by (simp_all add: c_str_def [of "d @ s"] c_str_def [of s] c_str_id nul)
  have "dropWhile is_space (d @ r) = d @ r" for r
    using assms(1,2) digit_not_special by (cases d) auto
  then have "scan_sign (d @ r) = (False, d @ r)" for r
    using assms(1,2) digit_not_special by (cases d) (auto simp: scan_sign_def)
  moreover have "takeWhile is_digit (d @ c_str s) = d" "takeWhile is_digit d = d"
    using assms(1,3) by (cases s; auto simp: c_str_def list_all_iff takeWhile_append2 takeWhile_eq_all_conv)+
  ultimately show ?thesis
    unfolding strtoul_10_def c using \<open>scan_sign (d @ []) = _\<close> by (simp only: Let_def split_conv append_Nil2)
qed

lemma hex_char_lower_facts:
  assumes "d < 16"
  shows "is_xdigit (hex_char_lower d)" "xdigit_val (hex_char_lower d) = d"
  using assms by (auto simp: hex_char_lower_def is_xdigit_def xdigit_val_def Let_def)

lemma hex_char_upper_facts:
  assumes "d < 16"
  shows "is_xdigit (hex_char_upper d)" "xdigit_val (hex_char_upper d) = d"
  using assms by (auto simp: hex_char_upper_def is_xdigit_def xdigit_val_def Let_def)

lemma xdigit_not_special:
  "is_xdigit c \<Longrightarrow> \<not> is_space c \<and> c \<noteq> CHR ''-'' \<and> c \<noteq> CHR ''+'' \<and> c \<noteq> CHR '','' \<and> c \<noteq> CHR 0x00"
  by (auto simp: is_xdigit_def is_space_def Let_def)

lemma length_fmt [simp]: "length (fmt_02x b) = 2" "length (fmt_04X w) = 4"
  by (simp_all add: fmt_02x_def fmt_04X_def)

lemma unat_byte_less: "unat (b :: byte) < 256"
  using unsigned_less [of b] by simp

lemma unat_u16_less: "unat (w :: 16 word) < 65536"
  using unsigned_less [of w] by simp

lemma fmt_02x_xdigits: "\<forall>c\<in>set (fmt_02x b). is_xdigit c"
  using unat_byte_less [of b] by (auto simp: fmt_02x_def hex_char_lower_facts)

lemma fmt_02x_lower: "c \<in> set (fmt_02x b) \<Longrightarrow> c \<notin> set ''ABCDEF''"
proof -
  have "hex_char_lower d \<notin> set ''ABCDEF''" if "d < 16" for d
  proof -
    have "of_char (hex_char_lower d) = (if d < 10 then 48 + d else 87 + d)"
      using that by (simp add: hex_char_lower_def)
    then have "of_char (hex_char_lower d) \<notin> {65, 66, 67, 68, 69, 70 :: nat}"
      using that by (auto split: if_splits)
    then show ?thesis by auto
  qed
  then show "c \<in> set (fmt_02x b) \<Longrightarrow> c \<notin> set ''ABCDEF''"
    using unat_byte_less [of b] by (fastforce simp: fmt_02x_def)
qed

lemma fmt_04X_xdigits: "\<forall>c\<in>set (fmt_04X w). is_xdigit c"
  using unat_u16_less [of w] by (auto simp: fmt_04X_def hex_char_upper_facts)

lemma hex_value_fmt_02x: "hex_value (fmt_02x b) = unat b"
  using unat_byte_less [of b]
  by (simp add: fmt_02x_def hex_value_def hex_char_lower_facts)

lemma hex_value_fmt_04X: "hex_value (fmt_04X w) = unat w"
proof -
  let ?n = "unat w"
  have "?n div 4096 = ?n div 16 div 16 div 16" "?n div 256 = ?n div 16 div 16"
    by (simp_all add: div_mult2_eq [symmetric])
  moreover have "16 * (m div 16) + m mod 16 = m" for m :: nat
    by simp
  ultimately have "16 * (16 * (16 * (?n div 4096) + ?n div 256 mod 16) + ?n div 16 mod 16)
      + ?n mod 16 = ?n"
    by presburger
  then show ?thesis
    using unat_u16_less [of w] by (simp add: fmt_04X_def hex_value_def hex_char_upper_facts)
qed

lemma strtoul_16_fmt_04X: "strtoul_16 (fmt_04X w) = of_nat (unat w)"
proof -
  have "takeWhile is_xdigit (fmt_04X w) = fmt_04X w"
    using fmt_04X_xdigits by (simp add: takeWhile_eq_all_conv)
  then have "hex_value (takeWhile is_xdigit (fmt_04X w)) = unat w"
    by (simp only: hex_value_fmt_04X)
  then show ?thesis
    using unat_u16_less [of w] by (simp add: strtoul_16_def)
qed

lemma fmt_04X_inj: "fmt_04X v = fmt_04X w \<Longrightarrow> v = w"
  by (metis hex_value_fmt_04X word_unat_eq_iff)

lemma sscanf_2x_two_digits:
  assumes "is_xdigit c" "is_xdigit d"
  shows "sscanf_2x (c # d # s) = of_nat (hex_value [c, d])"
  using assms xdigit_not_special [OF assms(1)] xdigit_not_special [OF assms(2)]
  by (simp add: sscanf_2x_def c_str_def Let_def)

lemma sscanf_2x_fmt_02x: "sscanf_2x (fmt_02x b @ s) = of_nat (unat b)"
proof -
  obtain c d where cd: "fmt_02x b = [c, d]" by (simp add: fmt_02x_def)
  then have "is_xdigit c" "is_xdigit d" using fmt_02x_xdigits [of b] by auto
  then show ?thesis
    using sscanf_2x_two_digits [of c d s] hex_value_fmt_02x [of b] cd by simp
qed

end
