(* ===== verification/Digest.thy ===== *)
theory Digest
  imports Prelude
begin

text \<open>
  The contract of a digest that is fed piece by piece, as the upload session feeds the MD5 context
  frame by frame and \<open>AT+VERIFY\<close> feeds it one 4096 byte chunk at a time. The provider promises
  that two updates in a row agree with one update on the joined data, up to an equivalence that
  the output cannot tell apart (the stale bytes of a buffer, for instance). The clients rely on
  the consequences: how the data was cut does not matter.

  Both digests of \<open>include/checksum.h\<close> implement it (theories \<open>Crc16\<close> and \<open>Md5\<close>).
\<close>

locale incremental_digest =
  fixes wf :: "'c \<Rightarrow> bool"
    and eqv :: "'c \<Rightarrow> 'c \<Rightarrow> bool"
    and upd :: "'c \<Rightarrow> 'b list \<Rightarrow> 'c"
    and out :: "'c \<Rightarrow> 'd"
  assumes eqv_refl: "wf c \<Longrightarrow> eqv c c"
    and eqv_trans: "eqv c d \<Longrightarrow> eqv d e \<Longrightarrow> eqv c e"
    and eqv_sym: "eqv c d \<Longrightarrow> eqv d c"
    and wf_upd: "wf c \<Longrightarrow> wf (upd c xs)"
    and upd_Nil: "wf c \<Longrightarrow> eqv (upd c []) c"
    and upd_append: "wf c \<Longrightarrow> eqv (upd (upd c xs) ys) (upd c (xs @ ys))"
    and upd_eqv: "wf c \<Longrightarrow> wf d \<Longrightarrow> eqv c d \<Longrightarrow> eqv (upd c xs) (upd d xs)"
    and out_eqv: "wf c \<Longrightarrow> wf d \<Longrightarrow> eqv c d \<Longrightarrow> out c = out d"
begin

lemma wf_chunks: "wf c \<Longrightarrow> wf (foldl upd c xss)"
  by (induction xss arbitrary: c) (auto intro: wf_upd)

lemma chunks_eqv: "wf c \<Longrightarrow> eqv (foldl upd c xss) (upd c (concat xss))"
proof (induction xss rule: rev_induct)
  case Nil
  then show ?case by (simp add: upd_Nil eqv_sym)
next
  case (snoc xs xss)
  have "eqv (upd (foldl upd c xss) xs) (upd (upd c (concat xss)) xs)"
    using snoc by (intro upd_eqv) (auto intro: wf_chunks wf_upd)
  then show ?case
    using eqv_trans upd_append [OF snoc.prems, of "concat xss" xs] by simp
qed

lemma out_chunks: "wf c \<Longrightarrow> out (foldl upd c xss) = out (upd c (concat xss))"
  by (intro out_eqv chunks_eqv wf_chunks wf_upd)

lemma out_rechunk:
  "wf c \<Longrightarrow> concat xss = concat yss \<Longrightarrow> out (foldl upd c xss) = out (foldl upd c yss)"
  by (simp add: out_chunks)

lemma upd_upd_out: "wf c \<Longrightarrow> out (upd (upd c xs) ys) = out (upd c (xs @ ys))"
  by (intro out_eqv upd_append wf_upd)

lemma step_eqv:
  "wf c \<Longrightarrow> wf d \<Longrightarrow> eqv c (upd d xs) \<Longrightarrow> eqv (upd c ys) (upd d (xs @ ys))"
  using eqv_trans upd_append upd_eqv wf_upd by meson

end

end
