(* ===== verification/Crc16.thy ===== *)
theory Crc16
  imports Digest
begin

text \<open>
  The class \<open>CRC16\<close> of \<open>include/checksum.h\<close> (CRC16-CCITT, polynomial 0x1021, initial value
  0xFFFF), which protects every \<open>AT+UPLOAD\<close> frame.

  The model follows the code: a 16 bit register, a byte XORed into its upper half, eight
  conditional shifts. The reference is polynomial long division of the message, written on lists
  of bits (\<open>long_div\<close>); \<open>crc16_update_long_div\<close> shows that the byte-wise loop computes its
  remainder. From the linearity and the injectivity of one shift follow the two facts the upload
  protocol rests on: a frame followed by its own checksum has checksum 0, and an error confined
  to a window of 16 consecutive bits is always seen.
\<close>

section \<open>The code\<close>

record CRC16 =
  crc_reg :: "16 word"

definition CRC16_new :: CRC16 where
  "CRC16_new = \<lparr>crc_reg = 0xFFFF\<rparr>"

text \<open>The body of the inner loop (\<open>if (crc_ & 0x8000) \<dots>\<close>).\<close>

definition crc16_shift :: "16 word \<Rightarrow> 16 word" where
  "crc16_shift w = (if w AND 0x8000 \<noteq> 0 then push_bit 1 w XOR 0x1021 else push_bit 1 w)"

text \<open>The body of the outer loop: one byte, eight shifts.\<close>

definition crc16_byte :: "16 word \<Rightarrow> byte \<Rightarrow> 16 word" where
  "crc16_byte w b = (crc16_shift ^^ 8) (w XOR push_bit 8 (ucast b))"

definition CRC16_update :: "CRC16 \<Rightarrow> byte list \<Rightarrow> CRC16" where
  "CRC16_update c data = c\<lparr>crc_reg := foldl crc16_byte (crc_reg c) data\<rparr>"

definition CRC16_digest :: "CRC16 \<Rightarrow> 16 word" where
  "CRC16_digest c = crc_reg c"

definition CRC16_hex :: "CRC16 \<Rightarrow> string" where
  "CRC16_hex c = fmt_04X (crc_reg c)"

definition CRC16_reset :: "CRC16 \<Rightarrow> CRC16" where
  "CRC16_reset c = c\<lparr>crc_reg := 0xFFFF\<rparr>"

definition crc16_compute :: "byte list \<Rightarrow> 16 word" where
  "crc16_compute data = CRC16_digest (CRC16_update CRC16_new data)"

section \<open>The reference: long division of bit polynomials\<close>

text \<open>
  A polynomial over GF(2) is a list of coefficients, highest degree first. \<open>xor_front p xs\<close> adds
  \<open>p\<close> to the leading coefficients of \<open>xs\<close>; \<open>ccitt\<close> holds the coefficients of \<open>x^12 + x^5 + 1\<close>,
  that is, of the generator without its leading \<open>x^16\<close>.
\<close>

fun xor_front :: "bool list \<Rightarrow> bool list \<Rightarrow> bool list" where
  "xor_front (p # ps) (x # xs) = (p \<noteq> x) # xor_front ps xs"
| "xor_front [] xs = xs"
| "xor_front ps [] = []"

lemma length_xor_front [simp]: "length (xor_front ps xs) = length xs"
  by (induction ps xs rule: xor_front.induct) auto

definition ccitt :: "bool list" where
  "ccitt = [False, False, False, True, False, False, False, False,
            False, False, True, False, False, False, False, True]"

fun long_div :: "bool list \<Rightarrow> bool list" where
  "long_div [] = []"
| "long_div (x # xs) =
     (if length xs < 16 then x # xs
      else long_div (if x then xor_front ccitt xs else xs))"

definition byte_bits :: "byte \<Rightarrow> bool list" where
  "byte_bits b = map (bit b) [7, 6, 5, 4, 3, 2, 1, 0]"

definition msg_bits :: "byte list \<Rightarrow> bool list" where
  "msg_bits bs = concat (map byte_bits bs)"

definition word_bits :: "16 word \<Rightarrow> bool list" where
  "word_bits w = map (bit w) [15, 14, 13, 12, 11, 10, 9, 8, 7, 6, 5, 4, 3, 2, 1, 0]"

text \<open>
  The checksum by definition: the remainder of the message times \<open>x^16\<close>, with the 16 leading
  coefficients inverted (the initial value 0xFFFF).
\<close>

definition crc16_remainder :: "byte list \<Rightarrow> bool list" where
  "crc16_remainder bs =
     long_div (xor_front (replicate 16 True) (msg_bits bs @ replicate 16 False))"

section \<open>One bit at a time\<close>

definition crc_bit :: "16 word \<Rightarrow> bool \<Rightarrow> 16 word" where
  "crc_bit w m = crc16_shift (w XOR (if m then 0x8000 else 0))"

lemma bit_8000: "bit (0x8000 :: 16 word) n \<longleftrightarrow> n = 15"
proof -
  have "(0x8000 :: 16 word) = push_bit 15 1" by simp
  then show ?thesis by (simp only: bit_push_bit_iff bit_1_iff) auto
qed

lemma and_8000: "w AND 0x8000 \<noteq> 0 \<longleftrightarrow> bit (w :: 16 word) 15"
proof -
  have "bit (w AND 0x8000) n \<longleftrightarrow> n = 15 \<and> bit w 15" for n
    by (simp only: bit_and_iff bit_8000) blast
  then show ?thesis by (metis bit_0_eq bot_apply bot_bool_def bit_eqI)
qed

lemma crc16_shift_bit:
  "crc16_shift w = (if bit w 15 then push_bit 1 w XOR 0x1021 else push_bit 1 w)"
  by (simp only: crc16_shift_def and_8000)

lemma crc16_shift_xor: "crc16_shift (v XOR w) = crc16_shift v XOR crc16_shift w"
  by (simp add: crc16_shift_bit bit_xor_iff push_bit_xor ac_simps)

lemma crc16_shift_0 [simp]: "crc16_shift 0 = 0"
  by (simp add: crc16_shift_def)


lemma crc16_shift_clear: "\<not> bit w 15 \<Longrightarrow> crc16_shift w = push_bit 1 w"
  by (simp add: crc16_shift_bit)

lemma bit_double: "bit (w * 2 :: 16 word) n \<longleftrightarrow> 0 < n \<and> n < 16 \<and> bit w (n - 1)"
  using bit_push_bit_iff [of 1 w n] by auto

lemma crc16_shift_eq_0: "crc16_shift w = 0 \<Longrightarrow> w = 0"
proof -
  assume z: "crc16_shift w = 0"
  have top: "\<not> bit w 15"
  proof
    assume "bit w 15"
    then have "bit (crc16_shift w) 0"
      by (simp add: crc16_shift_bit bit_xor_iff bit_double)
    with z show False by simp
  qed
  with z have p: "push_bit 1 w = 0" by (simp add: crc16_shift_clear)
  show "w = 0"
  proof (rule bit_eqI)
    fix n assume n: "possible_bit TYPE(16 word) n"
    show "bit w n = bit 0 n"
    proof (cases "n = 15")
      case True
      with top show ?thesis by simp
    next
      case False
      with n have "n < 15" by simp
      then have "bit (push_bit 1 w) (Suc n) = bit w n"
        by (simp add: bit_double)
      with p show ?thesis by simp
    qed
  qed
qed

lemma xor_eq_0: "v XOR w = 0 \<longleftrightarrow> v = (w :: 16 word)"
  by (metis xor.assoc xor.left_neutral xor.right_neutral xor_self_eq)

lemma crc16_shift_inj: "crc16_shift v = crc16_shift w \<longleftrightarrow> v = w"
  by (metis crc16_shift_xor crc16_shift_eq_0 xor_eq_0)

lemma crc16_shifts_inj: "(crc16_shift ^^ n) v = (crc16_shift ^^ n) w \<longleftrightarrow> v = w"
  by (induction n) (auto simp: crc16_shift_inj)

lemma crc16_shifts_0 [simp]: "(crc16_shift ^^ n) 0 = 0"
  by (induction n) auto

text \<open>
  \<open>high ms\<close> is the register whose leading bits are \<open>ms\<close>. Feeding up to 16 bits one at a time is
  the same as XORing them into the register at once and then shifting: the step from the
  definition by division to the byte-wise loop.
\<close>

fun high :: "bool list \<Rightarrow> 16 word" where
  "high [] = 0"
| "high (m # ms) = (if m then 0x8000 else 0) XOR drop_bit 1 (high ms)"

lemma bit_high: "bit (high ms) n \<longleftrightarrow> n < 16 \<and> 15 - n < length ms \<and> ms ! (15 - n)"
proof (induction ms arbitrary: n)
  case Nil
  then show ?case by simp
next
  case (Cons m ms)
  have "bit (if m then 0x8000 else (0 :: 16 word)) n \<longleftrightarrow> m \<and> n = 15"
    using bit_8000 by simp
  moreover have "bit (drop_bit 1 (high ms)) n \<longleftrightarrow> bit (high ms) (Suc n)"
    by (simp add: bit_drop_bit_eq)
  moreover have "15 - n = Suc (15 - Suc n)" if "n < 15"
    using that by simp
  ultimately show ?case
    by (cases "n < 15"; cases "n = 15") (auto simp: bit_xor_iff Cons.IH)
qed

lemma push_drop_high: "length ms < 16 \<Longrightarrow> push_bit 1 (drop_bit 1 (high ms)) = high ms"
  by (rule bit_eqI) (auto simp: bit_double bit_drop_bit_eq bit_high)

lemma foldl_crc_bit_high:
  "length ms \<le> 16 \<Longrightarrow> foldl crc_bit w ms = (crc16_shift ^^ length ms) (w XOR high ms)"
proof (induction ms arbitrary: w)
  case Nil
  then show ?case by simp
next
  case (Cons m ms)
  let ?t = "if m then 0x8000 else (0 :: 16 word)"
  have "\<not> bit (drop_bit 1 (high ms)) 15"
    by (simp add: bit_drop_bit_eq bit_high)
  then have "crc16_shift (drop_bit 1 (high ms)) = high ms"
    using Cons.prems push_drop_high [of ms] crc16_shift_clear by simp
  then have "crc16_shift (w XOR high (m # ms)) = crc_bit w m XOR high ms"
    by (simp only: high.simps crc_bit_def crc16_shift_xor xor.assoc)
  then show ?case
    using Cons by (simp add: funpow_swap1)
qed

lemma byte_bits_upt: "byte_bits b = map (\<lambda>i. bit b (7 - i)) [0..<8]"
  by (simp add: byte_bits_def upt_rec)

lemma word_bits_upt: "word_bits w = map (\<lambda>i. bit w (15 - i)) [0..<16]"
  by (simp add: word_bits_def upt_rec)

lemma high_byte_bits: "high (byte_bits b) = push_bit 8 (ucast b)"
proof (rule bit_eqI)
  fix n assume "possible_bit TYPE(16 word) n"
  then show "bit (high (byte_bits b)) n = bit (push_bit 8 (ucast b) :: 16 word) n"
    by (cases "8 \<le> n") (auto simp: byte_bits_upt bit_high bit_push_bit_iff bit_unsigned_iff)
qed

lemma length_byte_bits [simp]: "length (byte_bits b) = 8"
  by (simp add: byte_bits_def)

lemma foldl_crc_bit_byte: "foldl crc_bit w (byte_bits b) = crc16_byte w b"
  by (simp add: foldl_crc_bit_high high_byte_bits crc16_byte_def)

lemma foldl_crc_bit_msg: "foldl crc_bit w (msg_bits bs) = foldl crc16_byte w bs"
  by (induction bs arbitrary: w) (auto simp: msg_bits_def foldl_crc_bit_byte)

lemma high_word_bits: "high (word_bits w) = w"
  by (rule bit_eqI) (auto simp: word_bits_upt bit_high)


section \<open>The code computes the remainder of the division\<close>

lemma xor_front_Nil_right [simp]: "xor_front ps [] = []"
  by (cases ps) auto

lemma xor_front_assoc:
  "length ps = length qs \<Longrightarrow> xor_front ps (xor_front qs xs) = xor_front (xor_front ps qs) xs"
proof (induction ps qs arbitrary: xs rule: list_induct2)
  case Nil
  then show ?case by simp
next
  case (Cons p ps q qs)
  then show ?case by (cases xs) auto
qed

lemma xor_front_snoc_False:
  "length ps < length xs \<Longrightarrow> xor_front (ps @ [False]) xs = xor_front ps xs"
proof (induction ps arbitrary: xs)
  case Nil
  then show ?case by (cases xs) auto
next
  case (Cons p ps)
  then show ?case by (cases xs) auto
qed

lemma xor_front_zeros: "xor_front ps (replicate (length ps) False) = ps"
  by (induction ps) auto

lemma long_div_short: "length xs \<le> 16 \<Longrightarrow> long_div xs = xs"
  by (cases xs) auto

lemma length_word_bits [simp]: "length (word_bits w) = 16"
  by (simp add: word_bits_def)

lemma word_bits_Cons: "word_bits w = bit w 15 # tl (word_bits w)"
  by (simp add: word_bits_def)

lemma word_bits_xor: "word_bits (v XOR w) = xor_front (word_bits v) (word_bits w)"
  by (simp add: word_bits_def bit_xor_iff)

lemma word_bits_double: "word_bits (w * 2) = tl (word_bits w) @ [False]"
  by (simp add: word_bits_def bit_double)

lemma ccitt_bits: "ccitt = word_bits 0x1021"
  by (simp add: ccitt_def word_bits_def)

lemma word_bits_shift:
  "word_bits (crc16_shift x) =
     (let t = tl (word_bits x) @ [False] in if bit x 15 then xor_front ccitt t else t)"
  by (simp add: crc16_shift_bit Let_def ccitt_bits xor.commute [of _ "0x1021"])
     (simp add: word_bits_xor word_bits_double)

lemma word_bits_crc_bit:
  "word_bits (crc_bit w m) =
     (let t = tl (word_bits w) @ [False] in if bit w 15 \<noteq> m then xor_front ccitt t else t)"
proof -
  let ?x = "w XOR (if m then 0x8000 else (0 :: 16 word))"
  have "bit ?x 15 \<longleftrightarrow> bit w 15 \<noteq> m"
    by (auto simp: bit_xor_iff)
  moreover have "tl (word_bits ?x) = tl (word_bits w)"
    by (simp add: word_bits_def bit_xor_iff bit_8000)
  ultimately show ?thesis
    by (simp only: crc_bit_def word_bits_shift)
qed

lemma long_div_register:
  "long_div (xor_front (word_bits w) (ms @ replicate 16 False)) = word_bits (foldl crc_bit w ms)"
proof (induction ms arbitrary: w)
  case Nil
  then show ?case
    using xor_front_zeros [of "word_bits w"] by (simp add: long_div_short)
next
  case (Cons m ms)
  let ?z = "ms @ replicate 16 False" and ?t = "tl (word_bits w)"
  have shifted: "xor_front ?t ?z = xor_front (?t @ [False]) ?z"
    by (simp add: xor_front_snoc_False)
  have "long_div (xor_front (word_bits w) (m # ?z)) =
      long_div (if bit w 15 \<noteq> m then xor_front ccitt (xor_front ?t ?z) else xor_front ?t ?z)"
    by (subst word_bits_Cons) simp
  also have "\<dots> = long_div (xor_front (word_bits (crc_bit w m)) ?z)"
    by (simp add: shifted word_bits_crc_bit xor_front_assoc ccitt_bits Let_def)
  finally show ?case using Cons.IH [of "crc_bit w m"] by simp
qed

lemma word_bits_inj: "word_bits v = word_bits w \<Longrightarrow> v = w"
  by (metis high_word_bits)

lemma crc16_compute_foldl: "crc16_compute data = foldl crc16_byte 0xFFFF data"
  by (simp add: crc16_compute_def CRC16_digest_def CRC16_update_def CRC16_new_def)

lemma crc16_compute_bits: "crc16_compute data = foldl crc_bit 0xFFFF (msg_bits data)"
  by (simp add: crc16_compute_foldl foldl_crc_bit_msg)

lemma msg_bits_append [simp]: "msg_bits (a @ b) = msg_bits a @ msg_bits b"
  by (simp add: msg_bits_def)

lemma length_msg_bits [simp]: "length (msg_bits bs) = 8 * length bs"
  by (induction bs) (auto simp: msg_bits_def)

lemma xor_cancel_right: "v XOR m = w XOR m \<longleftrightarrow> v = (w :: 16 word)"
  by (metis xor.assoc xor.right_neutral xor_self_eq)

lemma foldl_crc_bit_inj_state: "foldl crc_bit v ms = foldl crc_bit w ms \<longleftrightarrow> v = w"
  by (induction ms arbitrary: v w) (auto simp: crc_bit_def crc16_shift_inj xor_cancel_right)

lemma high_inj:
  assumes "length ms = length ns" "length ms \<le> 16" "high ms = high ns"
  shows "ms = ns"
proof (rule nth_equalityI)
  fix i assume i: "i < length ms"
  have "15 - (15 - i) = i" "15 - i < 16" using i assms(2) by simp_all
  moreover have "bit (high ms) (15 - i) = bit (high ns) (15 - i)" using assms(3) by simp
  ultimately show "ms ! i = ns ! i" using i assms(1,2) by (simp add: bit_high)
qed (rule assms(1))

lemma foldl_crc_bit_inj_window:
  assumes "length ms = length ns" "length ms \<le> 16"
    and "foldl crc_bit w ms = foldl crc_bit w ns"
  shows "ms = ns"
proof -
  have "w XOR high ms = w XOR high ns"
    using assms by (simp add: foldl_crc_bit_high crc16_shifts_inj)
  then have "high ms = high ns"
    by (metis xor.assoc xor.left_neutral xor_self_eq)
  with assms show ?thesis by (intro high_inj) auto
qed

lemma crc16_window:
  assumes "msg_bits a = p @ m @ s" "msg_bits b = p @ n @ s"
    and "length m = length n" "length m \<le> 16" "crc16_compute a = crc16_compute b"
  shows "m = n"
proof -
  have "foldl crc_bit (foldl crc_bit 0xFFFF p) m = foldl crc_bit (foldl crc_bit 0xFFFF p) n"
    using assms(1,2,5) by (simp add: crc16_compute_bits foldl_crc_bit_inj_state)
  with assms(3,4) show ?thesis by (rule foldl_crc_bit_inj_window)
qed

section \<open>The contract of an incremental digest\<close>

interpretation crc16d: incremental_digest "\<lambda>c. True" "(=)" CRC16_update CRC16_digest
  by unfold_locales (auto simp: CRC16_update_def)


section \<open>Properties\<close>

lemma word_bits_FFFF: "word_bits 0xFFFF = replicate 16 True"
  by (simp add: word_bits_def numeral_eq_Suc)

text \<open>
  C16: the byte-wise loop of \<open>CRC16::update\<close> computes the CRC16-CCITT remainder: the bits of
  \<open>crc16_compute\<close> are the remainder of the long division of the message (with the initial value
  0xFFFF and 16 zero bits appended) by the generator polynomial, for every message.
\<close>

theorem crc16_compute_is_remainder: "word_bits (crc16_compute data) = crc16_remainder data"
  using long_div_register [of "0xFFFF" "msg_bits data"]
  by (simp add: crc16_remainder_def word_bits_FFFF crc16_compute_bits)

text \<open>
  A message followed by its own checksum (high byte first) has checksum 0.
\<close>

theorem crc16_residue:
  "crc16_compute (data @ [ucast (drop_bit 8 (crc16_compute data)), ucast (crc16_compute data)]) = 0"
proof -
  let ?w = "crc16_compute data"
  have "byte_bits (ucast (drop_bit 8 ?w)) @ byte_bits (ucast ?w) = word_bits ?w"
    by (simp add: byte_bits_def word_bits_def bit_unsigned_iff bit_drop_bit_eq)
  then have "msg_bits (data @ [ucast (drop_bit 8 ?w), ucast ?w]) = msg_bits data @ word_bits ?w"
    by (simp add: msg_bits_def)
  moreover have "foldl crc_bit ?w (word_bits ?w) = 0"
    by (simp add: foldl_crc_bit_high high_word_bits)
  ultimately show ?thesis
    by (simp only: crc16_compute_bits foldl_append)
qed

text \<open>
  An error burst is always detected: two messages whose bits differ only inside a window of
  at most 16 consecutive bits (at any bit position) have different checksums.
\<close>

theorem crc16_burst_detected:
  assumes "msg_bits a = p @ m @ s" "msg_bits b = p @ n @ s"
    and "length m = length n" "length m \<le> 16" "m \<noteq> n"
  shows "crc16_compute a \<noteq> crc16_compute b"
  using assms crc16_window by blast

theorem crc16_burst_detected_witness:
  "crc16_compute [0x12, 0xF4, 0x56] \<noteq> crc16_compute [0x1A, 0x34, 0x56]"
  by (rule crc16_burst_detected [where p = "[False, False, False, True]"
        and m = "[False, False, True, False, True, True]"
        and n = "[True, False, True, False, False, False]"
        and s = "[True, True, False, True, False, False, False, True, False, True, False, True, True, False]"])
     (simp_all add: msg_bits_def byte_bits_def)

text \<open>For concrete values: the eight steps of a byte.\<close>

lemma crc16_byte_unrolled:
  "crc16_byte w b =
     crc16_shift (crc16_shift (crc16_shift (crc16_shift (crc16_shift (crc16_shift
       (crc16_shift (crc16_shift (w XOR push_bit 8 (ucast b)))))))))"
  by (simp add: crc16_byte_def eval_nat_numeral)

lemmas crc16_eval = crc16_compute_foldl crc16_byte_unrolled crc16_shift_def

end
