(* ===== verification/Md5Block.thy ===== *)
theory Md5Block
  imports Prelude
begin

text \<open>
  The block function of the class \<open>MD5\<close> (\<open>include/checksum.h\<close>): the four auxiliary functions, the
  rotation, the macros \<open>FF\<close>, \<open>GG\<close>, \<open>HH\<close>, \<open>II\<close> and \<open>transform\<close>, whose 64 unrolled steps are
  written out line by line as the source has them.

  The reference \<open>rfc_block\<close> is the loop of RFC 1321: one step, its additive constant, rotation and
  message index given by tables and formulas over the step number, and the words of the block are
  numbers with four digits in base 256, so that the code's bit operations do not occur in it.
  \<open>md5_transform_rfc\<close> shows that the unrolled code computes it.
\<close>

section \<open>The code\<close>

type_synonym u32 = "32 word"

type_synonym md5_regs = "u32 \<times> u32 \<times> u32 \<times> u32"

definition md5_F :: "u32 \<Rightarrow> u32 \<Rightarrow> u32 \<Rightarrow> u32" where
  "md5_F x y z = (x AND y) OR (NOT x AND z)"

definition md5_G :: "u32 \<Rightarrow> u32 \<Rightarrow> u32 \<Rightarrow> u32" where
  "md5_G x y z = (x AND z) OR (y AND NOT z)"

definition md5_H :: "u32 \<Rightarrow> u32 \<Rightarrow> u32 \<Rightarrow> u32" where
  "md5_H x y z = x XOR y XOR z"

definition md5_I :: "u32 \<Rightarrow> u32 \<Rightarrow> u32 \<Rightarrow> u32" where
  "md5_I x y z = y XOR (x OR NOT z)"

definition md5_rotl :: "u32 \<Rightarrow> nat \<Rightarrow> u32" where
  "md5_rotl x n = push_bit n x OR drop_bit (32 - n) x"

text \<open>The macros: the value they assign to their first argument.\<close>

definition md5_FF :: "u32 \<Rightarrow> u32 \<Rightarrow> u32 \<Rightarrow> u32 \<Rightarrow> u32 \<Rightarrow> nat \<Rightarrow> u32 \<Rightarrow> u32" where
  "md5_FF a b c d x s ac = (let a = a + (md5_F b c d + x + ac) in md5_rotl a s + b)"

definition md5_GG :: "u32 \<Rightarrow> u32 \<Rightarrow> u32 \<Rightarrow> u32 \<Rightarrow> u32 \<Rightarrow> nat \<Rightarrow> u32 \<Rightarrow> u32" where
  "md5_GG a b c d x s ac = (let a = a + (md5_G b c d + x + ac) in md5_rotl a s + b)"

definition md5_HH :: "u32 \<Rightarrow> u32 \<Rightarrow> u32 \<Rightarrow> u32 \<Rightarrow> u32 \<Rightarrow> nat \<Rightarrow> u32 \<Rightarrow> u32" where
  "md5_HH a b c d x s ac = (let a = a + (md5_H b c d + x + ac) in md5_rotl a s + b)"

definition md5_II :: "u32 \<Rightarrow> u32 \<Rightarrow> u32 \<Rightarrow> u32 \<Rightarrow> u32 \<Rightarrow> nat \<Rightarrow> u32 \<Rightarrow> u32" where
  "md5_II a b c d x s ac = (let a = a + (md5_I b c d + x + ac) in md5_rotl a s + b)"

text \<open>\<open>M[i]\<close>: the little-endian words of the block.\<close>

definition md5_word :: "byte list \<Rightarrow> nat \<Rightarrow> u32" where
  "md5_word block i =
     ucast (block ! (i * 4)) OR push_bit 8 (ucast (block ! (i * 4 + 1))) OR
     push_bit 16 (ucast (block ! (i * 4 + 2))) OR push_bit 24 (ucast (block ! (i * 4 + 3)))"

definition md5_words :: "byte list \<Rightarrow> u32 list" where
  "md5_words block = map (md5_word block) [0..<16]"

definition md5_round1 :: "u32 list \<Rightarrow> md5_regs \<Rightarrow> md5_regs" where
  "md5_round1 M = (\<lambda>(a, b, c, d).
     let a = md5_FF a b c d (M ! 0) 7 0xD76AA478;
         d = md5_FF d a b c (M ! 1) 12 0xE8C7B756;
         c = md5_FF c d a b (M ! 2) 17 0x242070DB;
         b = md5_FF b c d a (M ! 3) 22 0xC1BDCEEE;
         a = md5_FF a b c d (M ! 4) 7 0xF57C0FAF;
         d = md5_FF d a b c (M ! 5) 12 0x4787C62A;
         c = md5_FF c d a b (M ! 6) 17 0xA8304613;
         b = md5_FF b c d a (M ! 7) 22 0xFD469501;
         a = md5_FF a b c d (M ! 8) 7 0x698098D8;
         d = md5_FF d a b c (M ! 9) 12 0x8B44F7AF;
         c = md5_FF c d a b (M ! 10) 17 0xFFFF5BB1;
         b = md5_FF b c d a (M ! 11) 22 0x895CD7BE;
         a = md5_FF a b c d (M ! 12) 7 0x6B901122;
         d = md5_FF d a b c (M ! 13) 12 0xFD987193;
         c = md5_FF c d a b (M ! 14) 17 0xA679438E;
         b = md5_FF b c d a (M ! 15) 22 0x49B40821
     in (a, b, c, d))"

definition md5_round2 :: "u32 list \<Rightarrow> md5_regs \<Rightarrow> md5_regs" where
  "md5_round2 M = (\<lambda>(a, b, c, d).
     let a = md5_GG a b c d (M ! 1) 5 0xF61E2562;
         d = md5_GG d a b c (M ! 6) 9 0xC040B340;
         c = md5_GG c d a b (M ! 11) 14 0x265E5A51;
         b = md5_GG b c d a (M ! 0) 20 0xE9B6C7AA;
         a = md5_GG a b c d (M ! 5) 5 0xD62F105D;
         d = md5_GG d a b c (M ! 10) 9 0x02441453;
         c = md5_GG c d a b (M ! 15) 14 0xD8A1E681;
         b = md5_GG b c d a (M ! 4) 20 0xE7D3FBC8;
         a = md5_GG a b c d (M ! 9) 5 0x21E1CDE6;
         d = md5_GG d a b c (M ! 14) 9 0xC33707D6;
         c = md5_GG c d a b (M ! 3) 14 0xF4D50D87;
         b = md5_GG b c d a (M ! 8) 20 0x455A14ED;
         a = md5_GG a b c d (M ! 13) 5 0xA9E3E905;
         d = md5_GG d a b c (M ! 2) 9 0xFCEFA3F8;
         c = md5_GG c d a b (M ! 7) 14 0x676F02D9;
         b = md5_GG b c d a (M ! 12) 20 0x8D2A4C8A
     in (a, b, c, d))"

definition md5_round3 :: "u32 list \<Rightarrow> md5_regs \<Rightarrow> md5_regs" where
  "md5_round3 M = (\<lambda>(a, b, c, d).
     let a = md5_HH a b c d (M ! 5) 4 0xFFFA3942;
         d = md5_HH d a b c (M ! 8) 11 0x8771F681;
         c = md5_HH c d a b (M ! 11) 16 0x6D9D6122;
         b = md5_HH b c d a (M ! 14) 23 0xFDE5380C;
         a = md5_HH a b c d (M ! 1) 4 0xA4BEEA44;
         d = md5_HH d a b c (M ! 4) 11 0x4BDECFA9;
         c = md5_HH c d a b (M ! 7) 16 0xF6BB4B60;
         b = md5_HH b c d a (M ! 10) 23 0xBEBFBC70;
         a = md5_HH a b c d (M ! 13) 4 0x289B7EC6;
         d = md5_HH d a b c (M ! 0) 11 0xEAA127FA;
         c = md5_HH c d a b (M ! 3) 16 0xD4EF3085;
         b = md5_HH b c d a (M ! 6) 23 0x04881D05;
         a = md5_HH a b c d (M ! 9) 4 0xD9D4D039;
         d = md5_HH d a b c (M ! 12) 11 0xE6DB99E5;
         c = md5_HH c d a b (M ! 15) 16 0x1FA27CF8;
         b = md5_HH b c d a (M ! 2) 23 0xC4AC5665
     in (a, b, c, d))"

definition md5_round4 :: "u32 list \<Rightarrow> md5_regs \<Rightarrow> md5_regs" where
  "md5_round4 M = (\<lambda>(a, b, c, d).
     let a = md5_II a b c d (M ! 0) 6 0xF4292244;
         d = md5_II d a b c (M ! 7) 10 0x432AFF97;
         c = md5_II c d a b (M ! 14) 15 0xAB9423A7;
         b = md5_II b c d a (M ! 5) 21 0xFC93A039;
         a = md5_II a b c d (M ! 12) 6 0x655B59C3;
         d = md5_II d a b c (M ! 3) 10 0x8F0CCC92;
         c = md5_II c d a b (M ! 10) 15 0xFFEFF47D;
         b = md5_II b c d a (M ! 1) 21 0x85845DD1;
         a = md5_II a b c d (M ! 8) 6 0x6FA87E4F;
         d = md5_II d a b c (M ! 15) 10 0xFE2CE6E0;
         c = md5_II c d a b (M ! 6) 15 0xA3014314;
         b = md5_II b c d a (M ! 13) 21 0x4E0811A1;
         a = md5_II a b c d (M ! 4) 6 0xF7537E82;
         d = md5_II d a b c (M ! 11) 10 0xBD3AF235;
         c = md5_II c d a b (M ! 2) 15 0x2AD7D2BB;
         b = md5_II b c d a (M ! 9) 21 0xEB86D391
     in (a, b, c, d))"

definition md5_transform :: "md5_regs \<Rightarrow> byte list \<Rightarrow> md5_regs" where
  "md5_transform state block =
     (let (a0, b0, c0, d0) = state;
          M = md5_words block;
          (a, b, c, d) = md5_round4 M (md5_round3 M (md5_round2 M (md5_round1 M (a0, b0, c0, d0))))
      in (a0 + a, b0 + b, c0 + c, d0 + d))"

section \<open>The reference: the loop of RFC 1321\<close>

definition rfc_T :: "u32 list" where
  "rfc_T = [
     0xd76aa478, 0xe8c7b756, 0x242070db, 0xc1bdceee,
     0xf57c0faf, 0x4787c62a, 0xa8304613, 0xfd469501,
     0x698098d8, 0x8b44f7af, 0xffff5bb1, 0x895cd7be,
     0x6b901122, 0xfd987193, 0xa679438e, 0x49b40821,
     0xf61e2562, 0xc040b340, 0x265e5a51, 0xe9b6c7aa,
     0xd62f105d, 0x02441453, 0xd8a1e681, 0xe7d3fbc8,
     0x21e1cde6, 0xc33707d6, 0xf4d50d87, 0x455a14ed,
     0xa9e3e905, 0xfcefa3f8, 0x676f02d9, 0x8d2a4c8a,
     0xfffa3942, 0x8771f681, 0x6d9d6122, 0xfde5380c,
     0xa4beea44, 0x4bdecfa9, 0xf6bb4b60, 0xbebfbc70,
     0x289b7ec6, 0xeaa127fa, 0xd4ef3085, 0x04881d05,
     0xd9d4d039, 0xe6db99e5, 0x1fa27cf8, 0xc4ac5665,
     0xf4292244, 0x432aff97, 0xab9423a7, 0xfc93a039,
     0x655b59c3, 0x8f0ccc92, 0xffeff47d, 0x85845dd1,
     0x6fa87e4f, 0xfe2ce6e0, 0xa3014314, 0x4e0811a1,
     0xf7537e82, 0xbd3af235, 0x2ad7d2bb, 0xeb86d391]"

definition rfc_rotations :: "nat list" where
  "rfc_rotations =
     [7, 12, 17, 22, 5, 9, 14, 20, 4, 11, 16, 23, 6, 10, 15, 21]"

text \<open>Step \<open>i\<close> (from 0): round \<open>i div 16\<close>, its function, message index and rotation.\<close>

definition rfc_fun :: "nat \<Rightarrow> u32 \<Rightarrow> u32 \<Rightarrow> u32 \<Rightarrow> u32" where
  "rfc_fun r x y z =
     (if r = 0 then (x AND y) OR (NOT x AND z)
      else if r = 1 then (x AND z) OR (y AND NOT z)
      else if r = 2 then x XOR y XOR z
      else y XOR (x OR NOT z))"

definition rfc_index :: "nat \<Rightarrow> nat" where
  "rfc_index i =
     (if i < 16 then i else if i < 32 then (5 * i + 1) mod 16
      else if i < 48 then (3 * i + 5) mod 16 else (7 * i) mod 16)"

definition rfc_step :: "u32 list \<Rightarrow> nat \<Rightarrow> md5_regs \<Rightarrow> md5_regs" where
  "rfc_step X i = (\<lambda>(a, b, c, d).
     (d, b + word_rotl (rfc_rotations ! (4 * (i div 16) + i mod 4))
               (a + rfc_fun (i div 16) b c d + X ! rfc_index i + rfc_T ! i), b, c))"

text \<open>Section 2 of the RFC: of the four bytes of a word, the low-order one is given first.\<close>

definition rfc_words :: "byte list \<Rightarrow> u32 list" where
  "rfc_words block = map (\<lambda>i. of_nat (\<Sum>k<4. unat (block ! (4 * i + k)) * 256 ^ k)) [0..<16]"

definition rfc_block :: "md5_regs \<Rightarrow> byte list \<Rightarrow> md5_regs" where
  "rfc_block state block =
     (let (a, b, c, d) = state;
          (a', b', c', d') = fold (rfc_step (rfc_words block)) [0..<64] state
      in (a + a', b + b', c + c', d + d'))"

lemma or_bytes:
  fixes a b c d :: byte
  shows "ucast a OR push_bit 8 (ucast b) OR push_bit 16 (ucast c) OR push_bit 24 (ucast d)
    = (of_nat (unat a + unat b * 256 + unat c * 65536 + unat d * 16777216) :: u32)"
proof -
  have top: "\<not> bit (x :: byte) n" if "8 \<le> n" for x n using that bit_imp_le_length [of x n] by auto
  have "ucast a OR push_bit 8 (ucast b) OR push_bit 16 (ucast c) OR push_bit 24 (ucast d)
      = (ucast a + (push_bit 8 (ucast b) + (push_bit 16 (ucast c) + push_bit 24 (ucast d))) :: u32)"
    by (subst disjunctive_add, auto simp: bit_simps top)+
  also have "\<dots> = of_nat (unat a + unat b * 256 + unat c * 65536 + unat d * 16777216)"
    by (simp add: push_bit_eq_mult)
  finally show ?thesis .
qed

lemma md5_words_rfc: "md5_words block = rfc_words block"
proof -
  have sum: "(\<Sum>k<4. f k) = f 0 + f 1 + f 2 + f 3" for f :: "nat \<Rightarrow> nat"
    by (simp add: eval_nat_numeral)
  have index: "4 * i + k = i * 4 + k" for i k :: nat
    by simp
  have power: "256 ^ 0 = (1 :: nat)" "256 ^ 1 = (256 :: nat)" "256 ^ 2 = (65536 :: nat)" "256 ^ 3 = (16777216 :: nat)"
    by simp_all
  have "md5_word block i = of_nat (\<Sum>k<4. unat (block ! (4 * i + k)) * 256 ^ k)" for i
    unfolding md5_word_def or_bytes sum index power mult_1_right add_0_right ..
  then show ?thesis by (simp add: md5_words_def rfc_words_def)
qed

lemma rfc_block_code:
  "rfc_block state block =
     (let (a, b, c, d) = state;
          (a', b', c', d') = fold (rfc_step (md5_words block)) [0..<64] state
      in (a + a', b + b', c + c', d + d'))"
  by (simp add: rfc_block_def md5_words_rfc)

section \<open>The unrolled code is the loop\<close>

lemma md5_rotl_word_rotl:
  assumes "n < 32" shows "md5_rotl x n = word_rotl n x"
proof (rule bit_eqI)
  fix k assume "possible_bit TYPE(32 word) k"
  then have k: "k < 32" by simp
  obtain m where m: "n + m = 32" using assms by (metis add_diff_inverse_nat less_imp_not_less)
  then have "32 - n = m" by simp
  then have rot: "bit (word_rotl n x) k = bit x ((k + m) mod 32)"
     and code: "bit (md5_rotl x n) k = (n \<le> k \<and> bit x (k - n) \<or> bit x (m + k))"
    using assms k
    by (auto simp: bit_word_rotl_iff md5_rotl_def bit_or_iff bit_push_bit_iff bit_drop_bit_eq)
  show "bit (md5_rotl x n) k = bit (word_rotl n x) k"
  proof (cases "n \<le> k")
    case True
    then have "(k + m) mod 32 = k - n" using k m by (auto simp: mod_if)
    moreover have "\<not> bit x (m + k)" using True m by (auto dest: bit_imp_le_length)
    ultimately show ?thesis using True rot code by simp
  next
    case False
    then have "(k + m) mod 32 = m + k" using k m by (auto simp: mod_if)
    then show ?thesis using False rot code by simp
  qed
qed

lemma rfc_rotations_less: "k < 16 \<Longrightarrow> rfc_rotations ! k < 32"
proof -
  have "\<forall>x\<in>set rfc_rotations. x < 32" by (simp add: rfc_rotations_def)
  moreover have "length rfc_rotations = 16" by (simp add: rfc_rotations_def)
  ultimately show "k < 16 \<Longrightarrow> rfc_rotations ! k < 32" by simp
qed

lemma rfc_step_round1:
  assumes "i div 16 = 0"
  shows "rfc_step X i (a, b, c, d) =
     (let v = md5_FF a b c d (X ! rfc_index i) (rfc_rotations ! (0 + i mod 4)) (rfc_T ! i)
      in (d, v, b, c))"
proof -
  have "rfc_rotations ! (0 + i mod 4) < 32"
    by (rule rfc_rotations_less) (use mod_less_divisor [of 4 i] in simp)
  with assms show ?thesis
    by (simp add: rfc_step_def rfc_fun_def md5_FF_def md5_F_def md5_rotl_word_rotl Let_def ac_simps)
qed

lemma rfc_step_round2:
  assumes "i div 16 = 1"
  shows "rfc_step X i (a, b, c, d) =
     (let v = md5_GG a b c d (X ! rfc_index i) (rfc_rotations ! (4 + i mod 4)) (rfc_T ! i)
      in (d, v, b, c))"
proof -
  have "rfc_rotations ! (4 + i mod 4) < 32"
    by (rule rfc_rotations_less) (use mod_less_divisor [of 4 i] in simp)
  with assms show ?thesis
    by (simp add: rfc_step_def rfc_fun_def md5_GG_def md5_G_def md5_rotl_word_rotl Let_def ac_simps)
qed

lemma rfc_step_round3:
  assumes "i div 16 = 2"
  shows "rfc_step X i (a, b, c, d) =
     (let v = md5_HH a b c d (X ! rfc_index i) (rfc_rotations ! (8 + i mod 4)) (rfc_T ! i)
      in (d, v, b, c))"
proof -
  have "rfc_rotations ! (8 + i mod 4) < 32"
    by (rule rfc_rotations_less) (use mod_less_divisor [of 4 i] in simp)
  with assms show ?thesis
    by (simp add: rfc_step_def rfc_fun_def md5_HH_def md5_H_def md5_rotl_word_rotl Let_def ac_simps)
qed

lemma rfc_step_round4:
  assumes "i div 16 = 3"
  shows "rfc_step X i (a, b, c, d) =
     (let v = md5_II a b c d (X ! rfc_index i) (rfc_rotations ! (12 + i mod 4)) (rfc_T ! i)
      in (d, v, b, c))"
proof -
  have "rfc_rotations ! (12 + i mod 4) < 32"
    by (rule rfc_rotations_less) (use mod_less_divisor [of 4 i] in simp)
  with assms show ?thesis
    by (simp add: rfc_step_def rfc_fun_def md5_II_def md5_I_def md5_rotl_word_rotl Let_def ac_simps)
qed

lemma rfc_T_nth:
  "rfc_T ! 0 = 0xD76AA478"
  "rfc_T ! 1 = 0xE8C7B756"
  "rfc_T ! 2 = 0x242070DB"
  "rfc_T ! 3 = 0xC1BDCEEE"
  "rfc_T ! 4 = 0xF57C0FAF"
  "rfc_T ! 5 = 0x4787C62A"
  "rfc_T ! 6 = 0xA8304613"
  "rfc_T ! 7 = 0xFD469501"
  "rfc_T ! 8 = 0x698098D8"
  "rfc_T ! 9 = 0x8B44F7AF"
  "rfc_T ! 10 = 0xFFFF5BB1"
  "rfc_T ! 11 = 0x895CD7BE"
  "rfc_T ! 12 = 0x6B901122"
  "rfc_T ! 13 = 0xFD987193"
  "rfc_T ! 14 = 0xA679438E"
  "rfc_T ! 15 = 0x49B40821"
  "rfc_T ! 16 = 0xF61E2562"
  "rfc_T ! 17 = 0xC040B340"
  "rfc_T ! 18 = 0x265E5A51"
  "rfc_T ! 19 = 0xE9B6C7AA"
  "rfc_T ! 20 = 0xD62F105D"
  "rfc_T ! 21 = 0x02441453"
  "rfc_T ! 22 = 0xD8A1E681"
  "rfc_T ! 23 = 0xE7D3FBC8"
  "rfc_T ! 24 = 0x21E1CDE6"
  "rfc_T ! 25 = 0xC33707D6"
  "rfc_T ! 26 = 0xF4D50D87"
  "rfc_T ! 27 = 0x455A14ED"
  "rfc_T ! 28 = 0xA9E3E905"
  "rfc_T ! 29 = 0xFCEFA3F8"
  "rfc_T ! 30 = 0x676F02D9"
  "rfc_T ! 31 = 0x8D2A4C8A"
  "rfc_T ! 32 = 0xFFFA3942"
  "rfc_T ! 33 = 0x8771F681"
  "rfc_T ! 34 = 0x6D9D6122"
  "rfc_T ! 35 = 0xFDE5380C"
  "rfc_T ! 36 = 0xA4BEEA44"
  "rfc_T ! 37 = 0x4BDECFA9"
  "rfc_T ! 38 = 0xF6BB4B60"
  "rfc_T ! 39 = 0xBEBFBC70"
  "rfc_T ! 40 = 0x289B7EC6"
  "rfc_T ! 41 = 0xEAA127FA"
  "rfc_T ! 42 = 0xD4EF3085"
  "rfc_T ! 43 = 0x04881D05"
  "rfc_T ! 44 = 0xD9D4D039"
  "rfc_T ! 45 = 0xE6DB99E5"
  "rfc_T ! 46 = 0x1FA27CF8"
  "rfc_T ! 47 = 0xC4AC5665"
  "rfc_T ! 48 = 0xF4292244"
  "rfc_T ! 49 = 0x432AFF97"
  "rfc_T ! 50 = 0xAB9423A7"
  "rfc_T ! 51 = 0xFC93A039"
  "rfc_T ! 52 = 0x655B59C3"
  "rfc_T ! 53 = 0x8F0CCC92"
  "rfc_T ! 54 = 0xFFEFF47D"
  "rfc_T ! 55 = 0x85845DD1"
  "rfc_T ! 56 = 0x6FA87E4F"
  "rfc_T ! 57 = 0xFE2CE6E0"
  "rfc_T ! 58 = 0xA3014314"
  "rfc_T ! 59 = 0x4E0811A1"
  "rfc_T ! 60 = 0xF7537E82"
  "rfc_T ! 61 = 0xBD3AF235"
  "rfc_T ! 62 = 0x2AD7D2BB"
  "rfc_T ! 63 = 0xEB86D391"
  by (simp_all add: rfc_T_def)

lemma rfc_index_values:
  "rfc_index 0 = 0"
  "rfc_index 1 = 1"
  "rfc_index 2 = 2"
  "rfc_index 3 = 3"
  "rfc_index 4 = 4"
  "rfc_index 5 = 5"
  "rfc_index 6 = 6"
  "rfc_index 7 = 7"
  "rfc_index 8 = 8"
  "rfc_index 9 = 9"
  "rfc_index 10 = 10"
  "rfc_index 11 = 11"
  "rfc_index 12 = 12"
  "rfc_index 13 = 13"
  "rfc_index 14 = 14"
  "rfc_index 15 = 15"
  "rfc_index 16 = 1"
  "rfc_index 17 = 6"
  "rfc_index 18 = 11"
  "rfc_index 19 = 0"
  "rfc_index 20 = 5"
  "rfc_index 21 = 10"
  "rfc_index 22 = 15"
  "rfc_index 23 = 4"
  "rfc_index 24 = 9"
  "rfc_index 25 = 14"
  "rfc_index 26 = 3"
  "rfc_index 27 = 8"
  "rfc_index 28 = 13"
  "rfc_index 29 = 2"
  "rfc_index 30 = 7"
  "rfc_index 31 = 12"
  "rfc_index 32 = 5"
  "rfc_index 33 = 8"
  "rfc_index 34 = 11"
  "rfc_index 35 = 14"
  "rfc_index 36 = 1"
  "rfc_index 37 = 4"
  "rfc_index 38 = 7"
  "rfc_index 39 = 10"
  "rfc_index 40 = 13"
  "rfc_index 41 = 0"
  "rfc_index 42 = 3"
  "rfc_index 43 = 6"
  "rfc_index 44 = 9"
  "rfc_index 45 = 12"
  "rfc_index 46 = 15"
  "rfc_index 47 = 2"
  "rfc_index 48 = 0"
  "rfc_index 49 = 7"
  "rfc_index 50 = 14"
  "rfc_index 51 = 5"
  "rfc_index 52 = 12"
  "rfc_index 53 = 3"
  "rfc_index 54 = 10"
  "rfc_index 55 = 1"
  "rfc_index 56 = 8"
  "rfc_index 57 = 15"
  "rfc_index 58 = 6"
  "rfc_index 59 = 13"
  "rfc_index 60 = 4"
  "rfc_index 61 = 11"
  "rfc_index 62 = 2"
  "rfc_index 63 = 9"
  by (simp_all add: rfc_index_def)

lemma rfc_rotations_nth:
  "rfc_rotations ! 0 = 7"
  "rfc_rotations ! 1 = 12"
  "rfc_rotations ! 2 = 17"
  "rfc_rotations ! 3 = 22"
  "rfc_rotations ! 4 = 5"
  "rfc_rotations ! 5 = 9"
  "rfc_rotations ! 6 = 14"
  "rfc_rotations ! 7 = 20"
  "rfc_rotations ! 8 = 4"
  "rfc_rotations ! 9 = 11"
  "rfc_rotations ! 10 = 16"
  "rfc_rotations ! 11 = 23"
  "rfc_rotations ! 12 = 6"
  "rfc_rotations ! 13 = 10"
  "rfc_rotations ! 14 = 15"
  "rfc_rotations ! 15 = 21"
  by (simp_all add: rfc_rotations_def)

lemma Let_pull: "fold f xs (Let e g) = (let v = e in fold f xs (g v))"
  by (simp add: Let_def)

lemma upt_round1:
  "[0..<16] = [0, 1, 2, 3, 4, 5, 6, 7, 8, 9, 10, 11, 12, 13, 14, 15 :: nat]"
  by (simp add: upt_rec)

lemma rfc_steps1:
  "rfc_step X 0 (a, b, c, d) =
     (let v = md5_FF a b c d (X ! 0) 7 0xD76AA478 in (d, v, b, c))"
  "rfc_step X 1 (a, b, c, d) =
     (let v = md5_FF a b c d (X ! 1) 12 0xE8C7B756 in (d, v, b, c))"
  "rfc_step X 2 (a, b, c, d) =
     (let v = md5_FF a b c d (X ! 2) 17 0x242070DB in (d, v, b, c))"
  "rfc_step X 3 (a, b, c, d) =
     (let v = md5_FF a b c d (X ! 3) 22 0xC1BDCEEE in (d, v, b, c))"
  "rfc_step X 4 (a, b, c, d) =
     (let v = md5_FF a b c d (X ! 4) 7 0xF57C0FAF in (d, v, b, c))"
  "rfc_step X 5 (a, b, c, d) =
     (let v = md5_FF a b c d (X ! 5) 12 0x4787C62A in (d, v, b, c))"
  "rfc_step X 6 (a, b, c, d) =
     (let v = md5_FF a b c d (X ! 6) 17 0xA8304613 in (d, v, b, c))"
  "rfc_step X 7 (a, b, c, d) =
     (let v = md5_FF a b c d (X ! 7) 22 0xFD469501 in (d, v, b, c))"
  "rfc_step X 8 (a, b, c, d) =
     (let v = md5_FF a b c d (X ! 8) 7 0x698098D8 in (d, v, b, c))"
  "rfc_step X 9 (a, b, c, d) =
     (let v = md5_FF a b c d (X ! 9) 12 0x8B44F7AF in (d, v, b, c))"
  "rfc_step X 10 (a, b, c, d) =
     (let v = md5_FF a b c d (X ! 10) 17 0xFFFF5BB1 in (d, v, b, c))"
  "rfc_step X 11 (a, b, c, d) =
     (let v = md5_FF a b c d (X ! 11) 22 0x895CD7BE in (d, v, b, c))"
  "rfc_step X 12 (a, b, c, d) =
     (let v = md5_FF a b c d (X ! 12) 7 0x6B901122 in (d, v, b, c))"
  "rfc_step X 13 (a, b, c, d) =
     (let v = md5_FF a b c d (X ! 13) 12 0xFD987193 in (d, v, b, c))"
  "rfc_step X 14 (a, b, c, d) =
     (let v = md5_FF a b c d (X ! 14) 17 0xA679438E in (d, v, b, c))"
  "rfc_step X 15 (a, b, c, d) =
     (let v = md5_FF a b c d (X ! 15) 22 0x49B40821 in (d, v, b, c))"
  by (simp_all add: rfc_step_round1 rfc_T_nth rfc_index_values rfc_rotations_nth numeral_2_eq_2 [symmetric] del: One_nat_def)

lemma md5_round1_rfc:
  "fold (rfc_step M) [0..<16] (a, b, c, d) = md5_round1 M (a, b, c, d)"
  by (simp only: upt_round1 md5_round1_def split_conv fold_simps rfc_steps1 Let_pull)

lemma upt_round2:
  "[16..<32] = [16, 17, 18, 19, 20, 21, 22, 23, 24, 25, 26, 27, 28, 29, 30, 31 :: nat]"
  by (simp add: upt_rec)

lemma rfc_steps2:
  "rfc_step X 16 (a, b, c, d) =
     (let v = md5_GG a b c d (X ! 1) 5 0xF61E2562 in (d, v, b, c))"
  "rfc_step X 17 (a, b, c, d) =
     (let v = md5_GG a b c d (X ! 6) 9 0xC040B340 in (d, v, b, c))"
  "rfc_step X 18 (a, b, c, d) =
     (let v = md5_GG a b c d (X ! 11) 14 0x265E5A51 in (d, v, b, c))"
  "rfc_step X 19 (a, b, c, d) =
     (let v = md5_GG a b c d (X ! 0) 20 0xE9B6C7AA in (d, v, b, c))"
  "rfc_step X 20 (a, b, c, d) =
     (let v = md5_GG a b c d (X ! 5) 5 0xD62F105D in (d, v, b, c))"
  "rfc_step X 21 (a, b, c, d) =
     (let v = md5_GG a b c d (X ! 10) 9 0x02441453 in (d, v, b, c))"
  "rfc_step X 22 (a, b, c, d) =
     (let v = md5_GG a b c d (X ! 15) 14 0xD8A1E681 in (d, v, b, c))"
  "rfc_step X 23 (a, b, c, d) =
     (let v = md5_GG a b c d (X ! 4) 20 0xE7D3FBC8 in (d, v, b, c))"
  "rfc_step X 24 (a, b, c, d) =
     (let v = md5_GG a b c d (X ! 9) 5 0x21E1CDE6 in (d, v, b, c))"
  "rfc_step X 25 (a, b, c, d) =
     (let v = md5_GG a b c d (X ! 14) 9 0xC33707D6 in (d, v, b, c))"
  "rfc_step X 26 (a, b, c, d) =
     (let v = md5_GG a b c d (X ! 3) 14 0xF4D50D87 in (d, v, b, c))"
  "rfc_step X 27 (a, b, c, d) =
     (let v = md5_GG a b c d (X ! 8) 20 0x455A14ED in (d, v, b, c))"
  "rfc_step X 28 (a, b, c, d) =
     (let v = md5_GG a b c d (X ! 13) 5 0xA9E3E905 in (d, v, b, c))"
  "rfc_step X 29 (a, b, c, d) =
     (let v = md5_GG a b c d (X ! 2) 9 0xFCEFA3F8 in (d, v, b, c))"
  "rfc_step X 30 (a, b, c, d) =
     (let v = md5_GG a b c d (X ! 7) 14 0x676F02D9 in (d, v, b, c))"
  "rfc_step X 31 (a, b, c, d) =
     (let v = md5_GG a b c d (X ! 12) 20 0x8D2A4C8A in (d, v, b, c))"
  by (simp_all add: rfc_step_round2 rfc_T_nth rfc_index_values rfc_rotations_nth)

lemma md5_round2_rfc:
  "fold (rfc_step M) [16..<32] (a, b, c, d) = md5_round2 M (a, b, c, d)"
  by (simp only: upt_round2 md5_round2_def split_conv fold_simps rfc_steps2 Let_pull)

lemma upt_round3:
  "[32..<48] = [32, 33, 34, 35, 36, 37, 38, 39, 40, 41, 42, 43, 44, 45, 46, 47 :: nat]"
  by (simp add: upt_rec)

lemma rfc_steps3:
  "rfc_step X 32 (a, b, c, d) =
     (let v = md5_HH a b c d (X ! 5) 4 0xFFFA3942 in (d, v, b, c))"
  "rfc_step X 33 (a, b, c, d) =
     (let v = md5_HH a b c d (X ! 8) 11 0x8771F681 in (d, v, b, c))"
  "rfc_step X 34 (a, b, c, d) =
     (let v = md5_HH a b c d (X ! 11) 16 0x6D9D6122 in (d, v, b, c))"
  "rfc_step X 35 (a, b, c, d) =
     (let v = md5_HH a b c d (X ! 14) 23 0xFDE5380C in (d, v, b, c))"
  "rfc_step X 36 (a, b, c, d) =
     (let v = md5_HH a b c d (X ! 1) 4 0xA4BEEA44 in (d, v, b, c))"
  "rfc_step X 37 (a, b, c, d) =
     (let v = md5_HH a b c d (X ! 4) 11 0x4BDECFA9 in (d, v, b, c))"
  "rfc_step X 38 (a, b, c, d) =
     (let v = md5_HH a b c d (X ! 7) 16 0xF6BB4B60 in (d, v, b, c))"
  "rfc_step X 39 (a, b, c, d) =
     (let v = md5_HH a b c d (X ! 10) 23 0xBEBFBC70 in (d, v, b, c))"
  "rfc_step X 40 (a, b, c, d) =
     (let v = md5_HH a b c d (X ! 13) 4 0x289B7EC6 in (d, v, b, c))"
  "rfc_step X 41 (a, b, c, d) =
     (let v = md5_HH a b c d (X ! 0) 11 0xEAA127FA in (d, v, b, c))"
  "rfc_step X 42 (a, b, c, d) =
     (let v = md5_HH a b c d (X ! 3) 16 0xD4EF3085 in (d, v, b, c))"
  "rfc_step X 43 (a, b, c, d) =
     (let v = md5_HH a b c d (X ! 6) 23 0x04881D05 in (d, v, b, c))"
  "rfc_step X 44 (a, b, c, d) =
     (let v = md5_HH a b c d (X ! 9) 4 0xD9D4D039 in (d, v, b, c))"
  "rfc_step X 45 (a, b, c, d) =
     (let v = md5_HH a b c d (X ! 12) 11 0xE6DB99E5 in (d, v, b, c))"
  "rfc_step X 46 (a, b, c, d) =
     (let v = md5_HH a b c d (X ! 15) 16 0x1FA27CF8 in (d, v, b, c))"
  "rfc_step X 47 (a, b, c, d) =
     (let v = md5_HH a b c d (X ! 2) 23 0xC4AC5665 in (d, v, b, c))"
  by (simp_all add: rfc_step_round3 rfc_T_nth rfc_index_values rfc_rotations_nth)

lemma md5_round3_rfc:
  "fold (rfc_step M) [32..<48] (a, b, c, d) = md5_round3 M (a, b, c, d)"
  by (simp only: upt_round3 md5_round3_def split_conv fold_simps rfc_steps3 Let_pull)

lemma upt_round4:
  "[48..<64] = [48, 49, 50, 51, 52, 53, 54, 55, 56, 57, 58, 59, 60, 61, 62, 63 :: nat]"
  by (simp add: upt_rec)

lemma rfc_steps4:
  "rfc_step X 48 (a, b, c, d) =
     (let v = md5_II a b c d (X ! 0) 6 0xF4292244 in (d, v, b, c))"
  "rfc_step X 49 (a, b, c, d) =
     (let v = md5_II a b c d (X ! 7) 10 0x432AFF97 in (d, v, b, c))"
  "rfc_step X 50 (a, b, c, d) =
     (let v = md5_II a b c d (X ! 14) 15 0xAB9423A7 in (d, v, b, c))"
  "rfc_step X 51 (a, b, c, d) =
     (let v = md5_II a b c d (X ! 5) 21 0xFC93A039 in (d, v, b, c))"
  "rfc_step X 52 (a, b, c, d) =
     (let v = md5_II a b c d (X ! 12) 6 0x655B59C3 in (d, v, b, c))"
  "rfc_step X 53 (a, b, c, d) =
     (let v = md5_II a b c d (X ! 3) 10 0x8F0CCC92 in (d, v, b, c))"
  "rfc_step X 54 (a, b, c, d) =
     (let v = md5_II a b c d (X ! 10) 15 0xFFEFF47D in (d, v, b, c))"
  "rfc_step X 55 (a, b, c, d) =
     (let v = md5_II a b c d (X ! 1) 21 0x85845DD1 in (d, v, b, c))"
  "rfc_step X 56 (a, b, c, d) =
     (let v = md5_II a b c d (X ! 8) 6 0x6FA87E4F in (d, v, b, c))"
  "rfc_step X 57 (a, b, c, d) =
     (let v = md5_II a b c d (X ! 15) 10 0xFE2CE6E0 in (d, v, b, c))"
  "rfc_step X 58 (a, b, c, d) =
     (let v = md5_II a b c d (X ! 6) 15 0xA3014314 in (d, v, b, c))"
  "rfc_step X 59 (a, b, c, d) =
     (let v = md5_II a b c d (X ! 13) 21 0x4E0811A1 in (d, v, b, c))"
  "rfc_step X 60 (a, b, c, d) =
     (let v = md5_II a b c d (X ! 4) 6 0xF7537E82 in (d, v, b, c))"
  "rfc_step X 61 (a, b, c, d) =
     (let v = md5_II a b c d (X ! 11) 10 0xBD3AF235 in (d, v, b, c))"
  "rfc_step X 62 (a, b, c, d) =
     (let v = md5_II a b c d (X ! 2) 15 0x2AD7D2BB in (d, v, b, c))"
  "rfc_step X 63 (a, b, c, d) =
     (let v = md5_II a b c d (X ! 9) 21 0xEB86D391 in (d, v, b, c))"
  by (simp_all add: rfc_step_round4 rfc_T_nth rfc_index_values rfc_rotations_nth)

lemma md5_round4_rfc:
  "fold (rfc_step M) [48..<64] (a, b, c, d) = md5_round4 M (a, b, c, d)"
  by (simp only: upt_round4 md5_round4_def split_conv fold_simps rfc_steps4 Let_pull)

lemma upt_64: "[0..<64] = [0..<16] @ [16..<32] @ [32..<48] @ [48..<64::nat]"
  using upt_add_eq_append [of 0 48 16] upt_add_eq_append [of 0 32 16] upt_add_eq_append [of 0 16 16]
  by simp

lemma md5_transform_rfc: "md5_transform state block = rfc_block state block"
proof -
  obtain a b c d where s: "state = (a, b, c, d)" by (rule prod_cases4)
  let ?M = "md5_words block"
  have r: "fold (rfc_step ?M) [0..<16] q = md5_round1 ?M q"
    "fold (rfc_step ?M) [16..<32] q = md5_round2 ?M q"
    "fold (rfc_step ?M) [32..<48] q = md5_round3 ?M q"
    "fold (rfc_step ?M) [48..<64] q = md5_round4 ?M q" for q
    using md5_round1_rfc md5_round2_rfc md5_round3_rfc md5_round4_rfc
    by (cases q rule: prod_cases4, simp)+
  show ?thesis
    unfolding md5_transform_def rfc_block_code s upt_64 fold_append comp_apply r
    by (simp add: Let_def)
qed

section \<open>Evaluation on literals\<close>

lemmas rfc_steps_eval =
  rfc_steps1 [unfolded Let_def One_nat_def] rfc_steps2 [unfolded Let_def One_nat_def]
  rfc_steps3 [unfolded Let_def One_nat_def] rfc_steps4 [unfolded Let_def One_nat_def]

lemmas md5_ops =
  md5_FF_def [unfolded Let_def] md5_GG_def [unfolded Let_def]
  md5_HH_def [unfolded Let_def] md5_II_def [unfolded Let_def]
  md5_F_def md5_G_def md5_H_def md5_I_def md5_rotl_def

lemmas md5_upts = upt_round1 upt_round2 upt_round3 upt_round4

end
