(* ===== verification/Md5.thy ===== *)
theory Md5
  imports Digest Md5Block
begin

text \<open>
  The class \<open>MD5\<close> of \<open>include/checksum.h\<close>: the buffered \<open>update\<close>, \<open>finalize\<close> and \<open>hex\<close> around the
  block function of theory \<open>Md5Block\<close>. The context is the record \<open>MD5\<close> with the three fields of
  the class; \<open>count_\<close> is the 64 bit byte counter and wraps.

  The reference is RFC 1321 on a whole message (\<open>rfc_md5\<close>): pad, cut into blocks, fold. The link
  is the abstraction \<open>md5_view\<close> of a context (registers, counter and the pending bytes; the stale
  bytes of the buffer do not show), under which \<open>update\<close> is an absorb function on byte lists.
  \<open>hex\<close> formats on a little-endian machine, as the \<open>reinterpret_cast\<close> of \<open>bits\<close> does.
\<close>

section \<open>The code\<close>

record MD5 =
  md5_state :: md5_regs
  md5_count :: "64 word"
  md5_buffer :: "byte list"

definition MD5_reset :: "MD5 \<Rightarrow> MD5" where
  "MD5_reset c =
     \<lparr>md5_state = (0x67452301, 0xEFCDAB89, 0x98BADCFE, 0x10325476),
      md5_count = 0, md5_buffer = replicate 64 0\<rparr>"

definition MD5_new :: MD5 where
  "MD5_new =
     \<lparr>md5_state = (0x67452301, 0xEFCDAB89, 0x98BADCFE, 0x10325476),
      md5_count = 0, md5_buffer = replicate 64 0\<rparr>"

text \<open>\<open>memcpy(buf + i, src, n)\<close> with \<open>n\<close> the length of \<open>src\<close>.\<close>

definition memcpy_at :: "byte list \<Rightarrow> nat \<Rightarrow> byte list \<Rightarrow> byte list" where
  "memcpy_at buf i src = take i buf @ src @ drop (i + length src) buf"

text \<open>\<open>while (len >= 64) { transform(data); data += 64; len -= 64; }\<close>\<close>

fun md5_blocks :: "md5_regs \<Rightarrow> byte list \<Rightarrow> md5_regs \<times> byte list" where
  "md5_blocks st data =
     (if 64 \<le> length data then md5_blocks (md5_transform st (take 64 data)) (drop 64 data)
      else (st, data))"

declare md5_blocks.simps [simp del]

text \<open>The part of \<open>update\<close> that follows once the buffer holds no pending byte.\<close>

definition md5_tail :: "MD5 \<Rightarrow> byte list \<Rightarrow> MD5" where
  "md5_tail c data =
     (let (st, rest) = md5_blocks (md5_state c) data;
          c = c\<lparr>md5_state := st\<rparr>
      in if 0 < length rest then c\<lparr>md5_buffer := memcpy_at (md5_buffer c) 0 rest\<rparr> else c)"

definition MD5_update :: "MD5 \<Rightarrow> byte list \<Rightarrow> MD5" where
  "MD5_update c data =
     (let index = unat (md5_count c AND 0x3F);
          len = length data;
          c = c\<lparr>md5_count := md5_count c + of_nat len\<rparr>
      in if index \<noteq> 0 then
           (let part_len = 64 - index
            in if part_len \<le> len then
                 (let buf = memcpy_at (md5_buffer c) index (take part_len data);
                      c = c\<lparr>md5_buffer := buf, md5_state := md5_transform (md5_state c) buf\<rparr>
                  in md5_tail c (drop part_len data))
               else c\<lparr>md5_buffer := memcpy_at (md5_buffer c) index data\<rparr>)
         else md5_tail c data)"

definition le_bytes64 :: "64 word \<Rightarrow> byte list" where
  "le_bytes64 w = map (\<lambda>i. ucast (drop_bit (8 * i) w)) [0..<8]"

definition le_bytes32 :: "u32 \<Rightarrow> byte list" where
  "le_bytes32 w = [ucast w, ucast (drop_bit 8 w), ucast (drop_bit 16 w), ucast (drop_bit 24 w)]"

definition regs_bytes :: "md5_regs \<Rightarrow> byte list" where
  "regs_bytes = (\<lambda>(a, b, c, d). le_bytes32 a @ le_bytes32 b @ le_bytes32 c @ le_bytes32 d)"

text \<open>\<open>finalize\<close>: the digest and the context it leaves.\<close>

definition MD5_finalize :: "MD5 \<Rightarrow> byte list \<times> MD5" where
  "MD5_finalize c =
     (let padding = 0x80 # replicate 63 0;
          index = unat (md5_count c AND 0x3F);
          pad_len = (if index < 56 then 56 - index else 120 - index);
          bits = md5_count c * 8;
          c = MD5_update c (take pad_len padding);
          c = MD5_update c (le_bytes64 bits)
      in (regs_bytes (md5_state c), c))"

definition MD5_hex :: "MD5 \<Rightarrow> string" where
  "MD5_hex c = concat (map fmt_02x (fst (MD5_finalize c)))"

definition md5_compute :: "byte list \<Rightarrow> string" where
  "md5_compute data = MD5_hex (MD5_update MD5_new data)"

section \<open>The reference: RFC 1321 on a whole message\<close>

text \<open>
  Numbers as bytes, low-order byte first, and the digest as text. The reference does not use the code's
  conversions (\<open>md5_words\<close>, \<open>le_bytes64\<close>, \<open>le_bytes32\<close>, \<open>fmt_02x\<close>); that these agree with it is proved.
\<close>

definition rfc_bytes :: "nat \<Rightarrow> nat \<Rightarrow> byte list" where
  "rfc_bytes k n = map (\<lambda>i. of_nat (n div 256 ^ i)) [0..<k]"

definition rfc_hex :: "byte \<Rightarrow> string" where
  "rfc_hex b = [''0123456789abcdef'' ! (unat b div 16), ''0123456789abcdef'' ! (unat b mod 16)]"

text \<open>Of the length in bits the low-order 64 bits are used.\<close>

definition rfc_pad :: "byte list \<Rightarrow> byte list" where
  "rfc_pad m = m @ 0x80 # replicate ((119 - length m mod 64) mod 64) 0
                 @ rfc_bytes 8 (8 * length m mod 2 ^ 64)"

fun rfc_blocks :: "md5_regs \<Rightarrow> byte list \<Rightarrow> md5_regs" where
  "rfc_blocks st m =
     (if length m < 64 then st else rfc_blocks (rfc_block st (take 64 m)) (drop 64 m))"

declare rfc_blocks.simps [simp del]

definition rfc_md5 :: "byte list \<Rightarrow> byte list" where
  "rfc_md5 m =
     (let (a, b, c, d) = rfc_blocks (0x67452301, 0xEFCDAB89, 0x98BADCFE, 0x10325476) (rfc_pad m)
      in concat (map (\<lambda>w. rfc_bytes 4 (unat w)) [a, b, c, d]))"

section \<open>The code's conversions are those of the reference\<close>

lemma drop_bytes: "(ucast (drop_bit (8 * i) w) :: byte) = of_nat (unat w div 256 ^ i)" for w :: "'a :: len word"
proof -
  have "unat (drop_bit (8 * i) w) = unat w div 256 ^ i"
    by (subst unat_drop_bit_eq) (simp add: drop_bit_eq_div power_mult)
  then show ?thesis by (metis of_nat_unat)
qed

lemma le_bytes64_rfc: "le_bytes64 w = rfc_bytes 8 (unat w)"
  unfolding le_bytes64_def rfc_bytes_def drop_bytes ..

lemma le_bytes32_rfc: "le_bytes32 w = rfc_bytes 4 (unat w)"
proof -
  have "le_bytes32 w = map (\<lambda>i. ucast (drop_bit (8 * i) w)) [0..<4]"
    by (simp add: le_bytes32_def upt_rec)
  then show ?thesis by (simp only: rfc_bytes_def drop_bytes)
qed

lemma fmt_02x_rfc: "fmt_02x = rfc_hex"
proof
  fix b :: byte
  have "list_all (\<lambda>d. hex_char_lower d = ''0123456789abcdef'' ! d) [0..<16]"
    by (simp add: upt_rec hex_char_lower_def char_of_def bit_iff_odd)
  then have digit: "hex_char_lower d = ''0123456789abcdef'' ! d" if "d < 16" for d
    using that by (simp add: list_all_iff)
  have "unat b div 16 < 16" using unat_byte_less [of b] by simp
  then show "fmt_02x b = rfc_hex b" by (simp add: fmt_02x_def rfc_hex_def digit)
qed

lemma rfc_pad_code:
  "rfc_pad m = m @ 0x80 # replicate ((119 - length m mod 64) mod 64) 0 @ le_bytes64 (of_nat (8 * length m))"
  by (simp only: rfc_pad_def le_bytes64_rfc unat_of_nat) simp

lemma rfc_md5_code:
  "rfc_md5 m = regs_bytes (rfc_blocks (0x67452301, 0xEFCDAB89, 0x98BADCFE, 0x10325476) (rfc_pad m))"
  by (simp add: rfc_md5_def regs_bytes_def le_bytes32_rfc split: prod.split)

section \<open>Well-formed contexts and what they stand for\<close>

definition md5_wf :: "MD5 \<Rightarrow> bool" where
  "md5_wf c \<longleftrightarrow> length (md5_buffer c) = 64"

definition md5_index :: "MD5 \<Rightarrow> nat" where
  "md5_index c = unat (md5_count c AND 0x3F)"

definition md5_pending :: "MD5 \<Rightarrow> byte list" where
  "md5_pending c = take (md5_index c) (md5_buffer c)"

definition md5_view :: "MD5 \<Rightarrow> md5_regs \<times> 64 word \<times> byte list" where
  "md5_view c = (md5_state c, md5_count c, md5_pending c)"

definition md5_eqv :: "MD5 \<Rightarrow> MD5 \<Rightarrow> bool" where
  "md5_eqv c d \<longleftrightarrow> md5_view c = md5_view d"

text \<open>\<open>update\<close> on the view: join the pending bytes and the data, consume whole blocks.\<close>

definition absorb :: "md5_regs \<times> 64 word \<times> byte list \<Rightarrow> byte list \<Rightarrow> md5_regs \<times> 64 word \<times> byte list" where
  "absorb v data = (let (st, n, pend) = v; (st', rest) = md5_blocks st (pend @ data)
                    in (st', n + of_nat (length data), rest))"

section \<open>Lemmas about the block loop\<close>

lemma md5_blocks_short [simp]: "length data < 64 \<Longrightarrow> md5_blocks st data = (st, data)"
  by (simp add: md5_blocks.simps [of st data])

lemma md5_blocks_step:
  "64 \<le> length data \<Longrightarrow>
     md5_blocks st data = md5_blocks (md5_transform st (take 64 data)) (drop 64 data)"
  by (simp add: md5_blocks.simps [of st data])

lemma length_md5_blocks_rest: "length (snd (md5_blocks st data)) = length data mod 64"
proof (induction st data rule: md5_blocks.induct)
  case (1 st data)
  then show ?case
    by (cases "64 \<le> length data") (simp_all add: md5_blocks_step le_mod_geq)
qed

lemma md5_blocks_append:
  "md5_blocks st (xs @ ys) = (let (st', r) = md5_blocks st xs in md5_blocks st' (r @ ys))"
proof (induction st xs rule: md5_blocks.induct)
  case (1 st xs)
  then show ?case
    by (cases "64 \<le> length xs") (simp_all add: md5_blocks_step)
qed

lemma md5_blocks_rfc: "fst (md5_blocks st m) = rfc_blocks st m"
proof (induction st m rule: md5_blocks.induct)
  case (1 st m)
  then show ?case
    by (cases "64 \<le> length m")
       (simp_all add: md5_blocks_step md5_transform_rfc rfc_blocks.simps [of st m])
qed

section \<open>Lemmas about the counter\<close>

lemma md5_index_mod: "md5_index c = unat (md5_count c) mod 64"
proof -
  have "(0x3F :: 64 word) = mask 6" by (simp add: mask_eq_exp_minus_1)
  then show ?thesis
    by (simp only: md5_index_def flip: take_bit_eq_mask) (simp add: take_bit_eq_mod unat_mod)
qed

lemma md5_index_less: "md5_index c < 64"
  by (simp add: md5_index_mod)

lemma count_mod_64: "unat (n + of_nat k :: 64 word) mod 64 = (unat n mod 64 + k) mod 64"
proof -
  have "unat (n + of_nat k :: 64 word) = (unat n + k) mod 2 ^ 64"
    by (simp add: unat_word_ariths unat_of_nat mod_simps)
  then have "unat (n + of_nat k :: 64 word) mod 64 = (unat n + k) mod 64"
    by (simp add: mod_mod_cancel)
  then show ?thesis by (simp add: mod_simps)
qed

lemma length_md5_pending: "md5_wf c \<Longrightarrow> length (md5_pending c) = md5_index c"
  using md5_index_less [of c] by (simp add: md5_pending_def md5_wf_def)

section \<open>update refines absorb\<close>

lemma length_memcpy_at [simp]:
  "i + length src \<le> length buf \<Longrightarrow> length (memcpy_at buf i src) = length buf"
  by (simp add: memcpy_at_def)

lemma take_memcpy_at:
  "i + length src = n \<Longrightarrow> n \<le> length buf \<Longrightarrow> take n (memcpy_at buf i src) = take i buf @ src"
  by (auto simp: memcpy_at_def)

lemma md5_tail_state: "md5_state (md5_tail c data) = fst (md5_blocks (md5_state c) data)"
  by (simp add: md5_tail_def Let_def split: prod.split)

lemma md5_tail_count [simp]: "md5_count (md5_tail c data) = md5_count c"
  by (simp add: md5_tail_def Let_def split: prod.split)

lemma md5_tail_wf: "md5_wf c \<Longrightarrow> md5_wf (md5_tail c data)"
  using length_md5_blocks_rest [of "md5_state c" data]
  by (auto simp: md5_tail_def md5_wf_def Let_def split: prod.split)

lemma md5_tail_pending:
  assumes "md5_wf c" "unat (md5_count c) mod 64 = length data mod 64"
  shows "md5_pending (md5_tail c data) = snd (md5_blocks (md5_state c) data)"
proof -
  obtain st rest where b: "md5_blocks (md5_state c) data = (st, rest)" by fastforce
  have r: "length rest = length data mod 64"
    using length_md5_blocks_rest [of "md5_state c" data] b by simp
  then have i: "md5_index (md5_tail c data) = length rest"
    using assms(2) by (simp add: md5_index_mod)
  have "length rest \<le> length (md5_buffer c)"
    using r assms(1) by (simp add: md5_wf_def)
  then show ?thesis
    using i b by (simp add: md5_pending_def md5_tail_def take_memcpy_at Let_def)
qed

lemma MD5_update_count: "md5_count (MD5_update c data) = md5_count c + of_nat (length data)"
  by (simp add: MD5_update_def Let_def)

lemma MD5_update_wf: "md5_wf c \<Longrightarrow> md5_wf (MD5_update c data)"
proof -
  assume wf: "md5_wf c"
  have tail: "length (md5_buffer (md5_tail d xs)) = 64" if "length (md5_buffer d) = 64" for d xs
    using md5_tail_wf [of d xs] that by (simp add: md5_wf_def)
  have "length (memcpy_at (md5_buffer c) (md5_index c) xs) = 64"
    if "length xs \<le> 64 - md5_index c" for xs
    using that wf md5_index_less [of c] by (simp add: md5_wf_def)
  then show ?thesis
    using wf by (simp add: MD5_update_def Let_def md5_index_def [symmetric] md5_wf_def tail)
qed

lemma MD5_update_view:
  assumes wf: "md5_wf c"
  shows "md5_view (MD5_update c data) = absorb (md5_view c) data"
proof -
  let ?i = "md5_index c" and ?d = "c\<lparr>md5_count := md5_count c + of_nat (length data)\<rparr>"
  let ?p = "md5_pending c"
  note len = length_md5_pending [OF wf] and less = md5_index_less [of c]
  have cnt: "unat (md5_count ?d) mod 64 = (?i + length data) mod 64"
    by (simp add: md5_index_mod count_mod_64)
  consider "?i = 0" | "?i \<noteq> 0" "64 - ?i \<le> length data" | "?i \<noteq> 0" "length data < 64 - ?i"
    by linarith
  then show ?thesis
  proof cases
    case 1
    then have "MD5_update c data = md5_tail ?d data" "?p = []"
      by (simp_all add: MD5_update_def md5_index_def [symmetric] md5_pending_def)
    then show ?thesis
      using 1 cnt wf md5_tail_pending [of ?d data]
      by (simp add: md5_view_def absorb_def md5_tail_state md5_wf_def split: prod.split)
  next
    case 2
    let ?k = "64 - ?i"
    let ?buf = "memcpy_at (md5_buffer c) ?i (take ?k data)"
    let ?e = "?d\<lparr>md5_buffer := ?buf, md5_state := md5_transform (md5_state c) ?buf\<rparr>"
    have u: "MD5_update c data = md5_tail ?e (drop ?k data)"
      using 2 by (simp add: MD5_update_def md5_index_def [symmetric] Let_def)
    have buf: "?buf = ?p @ take ?k data"
      using 2 wf less by (simp add: memcpy_at_def md5_pending_def md5_wf_def)
    have "md5_blocks (md5_state c) (?p @ data) = md5_blocks (md5_transform (md5_state c) ?buf) (drop ?k data)"
      using 2 less len by (simp add: md5_blocks_step buf)
    moreover have "unat (md5_count ?e) mod 64 = length (drop ?k data) mod 64"
    proof -
      have eq: "?i + length data = length (drop ?k data) + 64" using 2 less by simp
      have "md5_count ?e = md5_count ?d" by simp
      then show ?thesis by (simp only: cnt eq mod_add_self2)
    qed
    moreover have "md5_wf ?e" using buf 2 less len by (simp add: md5_wf_def)
    ultimately show ?thesis
      using md5_tail_pending [of ?e "drop ?k data"]
      by (simp add: u md5_view_def absorb_def md5_tail_state split: prod.split)
  next
    case 3
    let ?e = "?d\<lparr>md5_buffer := memcpy_at (md5_buffer c) ?i data\<rparr>"
    have u: "MD5_update c data = ?e"
      using 3 by (simp add: MD5_update_def md5_index_def [symmetric] Let_def)
    have "md5_index ?e = ?i + length data"
      using 3 cnt by (simp add: md5_index_mod)
    then have "md5_pending ?e = ?p @ data"
      using 3 wf less by (simp add: md5_pending_def take_memcpy_at md5_wf_def)
    then show ?thesis
      using 3 len by (simp add: u md5_view_def absorb_def)
  qed
qed

section \<open>The contract of an incremental digest\<close>

lemma absorb_absorb: "absorb (absorb v xs) ys = absorb v (xs @ ys)"
proof (cases v)
  case (fields st n pend)
  then show ?thesis
    using md5_blocks_append [of st "pend @ xs" ys]
    by (auto simp: absorb_def Let_def add.assoc split: prod.splits)
qed

lemma absorb_view_Nil: "md5_wf c \<Longrightarrow> absorb (md5_view c) [] = md5_view c"
  using length_md5_pending [of c] md5_index_less [of c] by (simp add: md5_view_def absorb_def)

lemma MD5_finalize_view:
  assumes "md5_wf c" "md5_view c = (st, n, pend)"
  shows "fst (MD5_finalize c) =
    (let index = unat (n AND 0x3F);
         pad_len = (if index < 56 then 56 - index else 120 - index)
     in regs_bytes (fst (absorb (st, n, pend)
          (take pad_len (0x80 # replicate 63 0) @ le_bytes64 (n * 8)))))"
proof -
  have n: "md5_count c = n" using assms(2) by (simp add: md5_view_def)
  have "md5_state d = fst (md5_view d)" for d by (simp add: md5_view_def)
  then show ?thesis
    using assms by (simp add: MD5_finalize_def Let_def n MD5_update_view MD5_update_wf absorb_absorb)
qed

lemma MD5_hex_view:
  assumes "md5_wf c" "md5_wf d" "md5_view c = md5_view d"
  shows "MD5_hex c = MD5_hex d"
proof -
  obtain st n p where "md5_view d = (st, n, p)" by (rule prod_cases3)
  with assms show ?thesis by (simp add: MD5_hex_def MD5_finalize_view)
qed

interpretation md5d: incremental_digest md5_wf md5_eqv MD5_update MD5_hex
proof
  show "md5_eqv c c" for c by (simp add: md5_eqv_def)
  show "md5_eqv c d \<Longrightarrow> md5_eqv d e \<Longrightarrow> md5_eqv c e" for c d e by (simp add: md5_eqv_def)
  show "md5_eqv c d \<Longrightarrow> md5_eqv d c" for c d by (simp add: md5_eqv_def)
  show "md5_wf c \<Longrightarrow> md5_wf (MD5_update c xs)" for c xs by (rule MD5_update_wf)
  show "md5_wf c \<Longrightarrow> md5_eqv (MD5_update c []) c" for c
    by (simp add: md5_eqv_def MD5_update_view absorb_view_Nil)
  show "md5_wf c \<Longrightarrow> md5_eqv (MD5_update (MD5_update c xs) ys) (MD5_update c (xs @ ys))" for c xs ys
    by (simp add: md5_eqv_def MD5_update_view MD5_update_wf absorb_absorb)
  show "md5_wf c \<Longrightarrow> md5_wf d \<Longrightarrow> md5_eqv c d \<Longrightarrow> md5_eqv (MD5_update c xs) (MD5_update d xs)" for c d xs
    by (simp add: md5_eqv_def MD5_update_view)
  show "md5_wf c \<Longrightarrow> md5_wf d \<Longrightarrow> md5_eqv c d \<Longrightarrow> MD5_hex c = MD5_hex d" for c d
    by (rule MD5_hex_view) (simp_all add: md5_eqv_def)
qed

section \<open>The digest is that of RFC 1321\<close>

lemma md5_wf_new [simp]: "md5_wf MD5_new"
  by (simp add: md5_wf_def MD5_new_def)

lemma MD5_reset_new: "MD5_reset c = MD5_new"
  by (simp add: MD5_reset_def MD5_new_def)

lemma md5_view_new:
  "md5_view MD5_new = ((0x67452301, 0xEFCDAB89, 0x98BADCFE, 0x10325476), 0, [])"
  by (simp add: md5_view_def MD5_new_def md5_pending_def md5_index_def)

lemma take_padding:
  "take (if i < 56 then 56 - i else 120 - i) (0x80 # replicate 63 0)
     = 0x80 # replicate ((119 - i) mod 64) (0 :: byte)" if "i < 64"
proof (cases "i < 56")
  case True
  then have "(119 - i) mod 64 = 55 - i" by (simp add: mod_if)
  with True show ?thesis by (simp add: take_Cons')
next
  case False
  then have "(119 - i) mod 64 = 119 - i" using that by (simp add: mod_if)
  with False that show ?thesis by (simp add: take_Cons')
qed

lemma MD5_finalize_rfc: "fst (MD5_finalize (MD5_update MD5_new m)) = rfc_md5 m"
proof -
  let ?init = "(0x67452301, 0xEFCDAB89, 0x98BADCFE, 0x10325476) :: md5_regs"
  let ?n = "of_nat (length m) :: 64 word"
  let ?c = "MD5_update MD5_new m"
  have view: "md5_view ?c = absorb (?init, 0, []) m"
    by (simp add: MD5_update_view md5_view_new)
  then obtain st pend where v: "md5_view ?c = (st, ?n, pend)"
    by (auto simp: absorb_def split: prod.splits)
  have idx: "unat (?n AND 0x3F) = length m mod 64"
    using md5_index_mod [of ?c] count_mod_64 [of 0 "length m"] v
    by (simp add: md5_index_def md5_view_def)
  let ?pad = "0x80 # replicate ((119 - length m mod 64) mod 64) 0 @ le_bytes64 (?n * 8)"
  have "fst (MD5_finalize ?c) = regs_bytes (fst (absorb (st, ?n, pend) ?pad))"
    by (simp only: MD5_finalize_view [OF MD5_update_wf [OF md5_wf_new] v] Let_def idx
        take_padding mod_less_divisor [of 64, simplified] append_Cons)
  also have "\<dots> = regs_bytes (fst (absorb (?init, 0, []) (m @ ?pad)))"
    by (simp only: v [symmetric] view absorb_absorb)
  also have "\<dots> = regs_bytes (rfc_blocks ?init (m @ ?pad))"
    by (simp add: absorb_def md5_blocks_rfc [symmetric] split: prod.split)
  also have "m @ ?pad = rfc_pad m"
    by (simp add: rfc_pad_code mult.commute)
  finally show ?thesis by (simp only: rfc_md5_code)
qed


lemma length_fst_finalize: "length (fst (MD5_finalize c)) = 16"
  by (simp add: MD5_finalize_def Let_def regs_bytes_def le_bytes32_def split: prod.split)

lemma MD5_hex_length: "length (MD5_hex c) = 32"
  using length_fst_finalize [of c]
  by (simp add: MD5_hex_def length_concat comp_def sum_list_triv)

section \<open>Properties\<close>

text \<open>
  C15: for every message, \<open>md5_compute\<close> is the MD5 digest of RFC 1321 as 32 lower case hexadecimal
  digits, although the code pads and hashes through a 64 byte buffer with unrolled rounds and moves
  words in and out of bytes with shifts. The reference is written with the numbers of the RFC (words and
  lengths as numbers in base 256, low-order byte first) and uses none of the code's conversions.
\<close>

theorem md5_compute_rfc: "md5_compute m = concat (map rfc_hex (rfc_md5 m))"
  by (simp add: md5_compute_def MD5_hex_def MD5_finalize_rfc fmt_02x_rfc)

text \<open>
  The digest does not depend on how the data is cut: feeding any list of chunks one by one
  into a fresh context gives the digest of their concatenation.
\<close>

theorem md5_chunking: "MD5_hex (foldl MD5_update MD5_new chunks) = md5_compute (concat chunks)"
  by (simp add: md5d.out_chunks md5_compute_def)

end
