(* ===== verification/Files.thy ===== *)
theory Files
  imports Prelude
begin

text \<open>
  The part of the C library's file interface the program uses (\<open>fopen\<close>, \<open>fwrite\<close>, \<open>fread\<close>,
  \<open>fclose\<close>, \<open>rename\<close>, \<open>unlink\<close>), over a store of directory entries and inodes: a path names an
  inode, an open stream keeps its inode whatever happens to the name, \<open>rename\<close> moves a name.
  Paths are compared as the C strings passed to the calls.

  What the operating system decides is an explicit argument \<open>io\<close> of the operations: whether a
  file can be created or opened, how many bytes \<open>fwrite\<close> accepts, how many pending bytes reach the
  file when the stream is flushed by \<open>fclose\<close>, whether a \<open>rename\<close> or an \<open>unlink\<close> succeeds. The bytes a stream has
  accepted are pending in it and reach the inode at \<open>fclose\<close> (the C library may write a prefix of
  them earlier; nothing in the program depends on that).

  The locale \<open>staged_store\<close> is what the upload code relies on: bytes staged through a stream
  under a temporary name are the content of the final name after \<open>fclose\<close> and \<open>rename\<close>.
\<close>

section \<open>The store\<close>

record fs =
  fs_names :: "string \<Rightarrow> nat option"
  fs_inodes :: "nat \<Rightarrow> byte list"
  fs_next :: nat

record stream =
  st_inode :: nat
  st_buf :: "byte list"

record io =
  io_create :: "string \<Rightarrow> bool"
  io_open :: "string \<Rightarrow> bool"
  io_write :: "nat \<Rightarrow> nat"
  io_flush :: "nat \<Rightarrow> nat"
  io_rename :: "string \<Rightarrow> string \<Rightarrow> bool"
  io_unlink :: "string \<Rightarrow> bool"

definition fs_lookup :: "fs \<Rightarrow> string \<Rightarrow> byte list option" where
  "fs_lookup fs p = map_option (fs_inodes fs) (fs_names fs (c_str p))"

text \<open>\<open>fopen(p, "wb")\<close>: an existing file is truncated, a missing one created.\<close>

definition fopen_wb :: "io \<Rightarrow> fs \<Rightarrow> string \<Rightarrow> stream option \<times> fs" where
  "fopen_wb io fs p =
     (if io_create io (c_str p) then
        (case fs_names fs (c_str p) of
           Some i \<Rightarrow> (Some \<lparr>st_inode = i, st_buf = []\<rparr>, fs\<lparr>fs_inodes := (fs_inodes fs)(i := [])\<rparr>)
         | None \<Rightarrow>
             (let i = fs_next fs
              in (Some \<lparr>st_inode = i, st_buf = []\<rparr>,
                  fs\<lparr>fs_names := (fs_names fs)(c_str p \<mapsto> i), fs_inodes := (fs_inodes fs)(i := []),
                     fs_next := Suc i\<rparr>)))
      else (None, fs))"

text \<open>\<open>fopen(p, "rb")\<close>: the bytes the following \<open>fread\<close> calls see.\<close>

definition fopen_rb :: "io \<Rightarrow> fs \<Rightarrow> string \<Rightarrow> byte list option" where
  "fopen_rb io fs p = (if io_open io (c_str p) then fs_lookup fs p else None)"

definition fwrite :: "io \<Rightarrow> stream \<Rightarrow> byte list \<Rightarrow> nat \<times> stream" where
  "fwrite io st bs =
     (let n = min (length bs) (io_write io (length bs))
      in (n, st\<lparr>st_buf := st_buf st @ take n bs\<rparr>))"

definition fclose :: "io \<Rightarrow> fs \<Rightarrow> stream \<Rightarrow> fs" where
  "fclose io fs st =
     (let w = take (io_flush io (length (st_buf st))) (st_buf st); i = st_inode st
      in fs\<lparr>fs_inodes := (fs_inodes fs)(i := w @ drop (length w) (fs_inodes fs i))\<rparr>)"

definition unlink :: "io \<Rightarrow> fs \<Rightarrow> string \<Rightarrow> fs" where
  "unlink io fs p =
     (if io_unlink io (c_str p) then fs\<lparr>fs_names := (fs_names fs)(c_str p := None)\<rparr> else fs)"

definition rename :: "io \<Rightarrow> fs \<Rightarrow> string \<Rightarrow> string \<Rightarrow> bool \<times> fs" where
  "rename io fs old new =
     (case fs_names fs (c_str old) of
        None \<Rightarrow> (False, fs)
      | Some i \<Rightarrow>
          if io_rename io (c_str old) (c_str new)
          then (True, fs\<lparr>fs_names := (fs_names fs)(c_str old := None, c_str new \<mapsto> i)\<rparr>)
          else (False, fs))"

text \<open>An environment in which no write and no flush falls short.\<close>

definition io_writes_ok :: "io \<Rightarrow> bool" where
  "io_writes_ok io \<longleftrightarrow> (\<forall>n. n \<le> io_write io n \<and> n \<le> io_flush io n)"

section \<open>The contract of staged writing\<close>

locale staged_store =
  fixes good :: "'e \<Rightarrow> bool"
    and op :: "'e \<Rightarrow> 'f \<Rightarrow> 'p \<Rightarrow> 'h option \<times> 'f"
    and wr :: "'e \<Rightarrow> 'h \<Rightarrow> 'b list \<Rightarrow> nat \<times> 'h"
    and cl :: "'e \<Rightarrow> 'f \<Rightarrow> 'h \<Rightarrow> 'f"
    and mv :: "'e \<Rightarrow> 'f \<Rightarrow> 'p \<Rightarrow> 'p \<Rightarrow> bool \<times> 'f"
    and look :: "'f \<Rightarrow> 'p \<Rightarrow> 'b list option"
    and staged :: "'f \<Rightarrow> 'p \<Rightarrow> 'h \<Rightarrow> 'b list \<Rightarrow> bool"
  assumes op_staged: "op e f p = (Some h, f') \<Longrightarrow> staged f' p h []"
    and wr_staged: "wr e h xs = (length xs, h') \<Longrightarrow> staged f p h bs \<Longrightarrow> staged f p h' (bs @ xs)"
    and wr_good: "good e \<Longrightarrow> fst (wr e h xs) = length xs"
    and cl_staged: "good e \<Longrightarrow> staged f p h bs \<Longrightarrow> look (cl e f h) p = Some bs"
    and mv_look: "mv e f p q = (True, f') \<Longrightarrow> look f' q = look f p"
begin

lemma commit:
  assumes "good e" "staged f p h bs" "mv e (cl e f h) p q = (True, f')"
  shows "look f' q = Some bs"
  using mv_look [OF assms(3)] cl_staged [OF assms(1,2)] by (rule trans)

lemma wr_good_staged:
  "good e \<Longrightarrow> staged f p h bs \<Longrightarrow> staged f p (snd (wr e h xs)) (bs @ xs)"
  by (rule wr_staged [of e h xs]) (simp_all add: prod_eq_iff wr_good)

lemma writes_staged:
  "good e \<Longrightarrow> staged f p h bs \<Longrightarrow>
     staged f p (foldl (\<lambda>h xs. snd (wr e h xs)) h xss) (bs @ concat xss)"
proof (induction xss arbitrary: h bs)
  case Nil
  then show ?case by simp
next
  case (Cons xs xss)
  then have "staged f p (snd (wr e h xs)) (bs @ xs)" by (intro wr_good_staged)
  with Cons show ?case by fastforce
qed

end

definition fs_staged :: "fs \<Rightarrow> string \<Rightarrow> stream \<Rightarrow> byte list \<Rightarrow> bool" where
  "fs_staged fs p st bs \<longleftrightarrow>
     fs_names fs (c_str p) = Some (st_inode st) \<and> fs_inodes fs (st_inode st) = [] \<and> st_buf st = bs"

interpretation fs_store: staged_store io_writes_ok fopen_wb fwrite fclose rename fs_lookup fs_staged
proof
  show "fopen_wb e f p = (Some h, f') \<Longrightarrow> fs_staged f' p h []" for e f p h f'
    by (auto simp: fopen_wb_def fs_staged_def Let_def split: if_splits option.splits)
  show "fwrite e h xs = (length xs, h') \<Longrightarrow> fs_staged f p h bs \<Longrightarrow> fs_staged f p h' (bs @ xs)"
    for e h xs h' f p bs
    by (auto simp: fwrite_def fs_staged_def Let_def)
  show "io_writes_ok e \<Longrightarrow> fst (fwrite e h xs) = length xs" for e h xs
    by (simp add: io_writes_ok_def fwrite_def min_absorb1)
  show "io_writes_ok e \<Longrightarrow> fs_staged f p h bs \<Longrightarrow> fs_lookup (fclose e f h) p = Some bs" for e f p h bs
    by (auto simp: io_writes_ok_def fs_staged_def fs_lookup_def fclose_def Let_def)
  show "rename e f p q = (True, f') \<Longrightarrow> fs_lookup f' q = fs_lookup f p" for e f p q f'
    by (auto simp: rename_def fs_lookup_def split: option.splits if_splits)
qed

section \<open>Lemmas about single operations\<close>

lemma fclose_staged:
  "\<forall>n. n \<le> io_flush io n \<Longrightarrow> fs_staged fs p st bs \<Longrightarrow> fs_lookup (fclose io fs st) p = Some bs"
  by (auto simp: fs_staged_def fs_lookup_def fclose_def Let_def)

lemma fs_lookup_unlink:
  "fs_lookup (unlink io fs p) q = (if c_str q = c_str p \<and> io_unlink io (c_str p) then None else fs_lookup fs q)"
  by (simp add: unlink_def fs_lookup_def)

lemma fclose_names [simp]: "fs_names (fclose io fs st) = fs_names fs"
  by (simp add: fclose_def Let_def)

lemma rename_source_gone:
  "rename io fs p q = (True, fs') \<Longrightarrow> c_str p \<noteq> c_str q \<Longrightarrow> fs_lookup fs' p = None"
  by (auto simp: rename_def fs_lookup_def split: option.splits if_splits)

lemma rename_other:
  "rename io fs p q = (ok, fs') \<Longrightarrow> c_str r \<noteq> c_str p \<Longrightarrow> c_str r \<noteq> c_str q \<Longrightarrow>
     fs_lookup fs' r = fs_lookup fs r"
  by (auto simp: rename_def fs_lookup_def split: option.splits if_splits)

lemma fopen_wb_ok: "io_create io (c_str p) \<Longrightarrow> \<exists>f fs'. fopen_wb io fs p = (Some f, fs')"
  by (cases "fs_names fs (c_str p)") (simp_all add: fopen_wb_def Let_def)

section \<open>Well-formed stores\<close>

text \<open>
  Different names have different inodes, and every inode in use was handed out. Every operation
  keeps this, so an operation on one file cannot change the content of another.
\<close>

definition fs_wf :: "fs \<Rightarrow> bool" where
  "fs_wf fs \<longleftrightarrow>
     (\<forall>p i. fs_names fs p = Some i \<longrightarrow> i < fs_next fs) \<and>
     (\<forall>p q i. fs_names fs p = Some i \<longrightarrow> fs_names fs q = Some i \<longrightarrow> p = q)"

lemma fs_wf_inj: "fs_wf fs \<Longrightarrow> fs_names fs p = Some i \<Longrightarrow> fs_names fs q = Some i \<Longrightarrow> p = q"
  by (simp add: fs_wf_def)

lemma fs_wf_less: "fs_wf fs \<Longrightarrow> fs_names fs p = Some i \<Longrightarrow> i < fs_next fs"
  by (simp add: fs_wf_def)

lemma fs_wf_fopen: "fs_wf fs \<Longrightarrow> fopen_wb io fs p = (f, fs') \<Longrightarrow> fs_wf fs'"
  by (fastforce simp: fopen_wb_def fs_wf_def Let_def split: if_splits option.splits)

lemma fs_wf_fclose: "fs_wf fs \<Longrightarrow> fs_wf (fclose io fs f)"
  by (simp add: fclose_def fs_wf_def Let_def)

lemma fs_wf_unlink: "fs_wf fs \<Longrightarrow> fs_wf (unlink io fs p)"
  by (simp add: unlink_def fs_wf_def)

lemma fs_wf_rename: "fs_wf fs \<Longrightarrow> rename io fs p q = (ok, fs') \<Longrightarrow> fs_wf fs'"
  by (auto simp: rename_def fs_wf_def split: option.splits if_splits)

lemma fclose_other:
  assumes "fs_wf fs" "fs_names fs (c_str p) = Some (st_inode f)" "c_str q \<noteq> c_str p"
  shows "fs_lookup (fclose io fs f) q = fs_lookup fs q"
proof (cases "fs_names fs (c_str q)")
  case None
  then show ?thesis by (simp add: fs_lookup_def)
next
  case (Some j)
  with assms have "j \<noteq> st_inode f" using fs_wf_inj by metis
  with Some show ?thesis by (simp add: fs_lookup_def fclose_def Let_def)
qed

lemma fopen_wb_other:
  assumes "fs_wf fs" "fopen_wb io fs p = (f, fs')" "c_str q \<noteq> c_str p"
  shows "fs_lookup fs' q = fs_lookup fs q"
proof (cases "fs_names fs (c_str q)")
  case None
  with assms show ?thesis
    by (auto simp: fopen_wb_def fs_lookup_def Let_def split: if_splits option.splits)
next
  case (Some j)
  with assms fs_wf_less [OF assms(1)] fs_wf_inj [OF assms(1)] show ?thesis
    by (fastforce simp: fopen_wb_def fs_lookup_def Let_def split: if_splits option.splits)
qed

definition fs_empty :: fs where
  "fs_empty = \<lparr>fs_names = (\<lambda>_. None), fs_inodes = (\<lambda>_. []), fs_next = 0\<rparr>"

lemma fs_wf_empty [simp]: "fs_wf fs_empty"
  by (simp add: fs_wf_def fs_empty_def)

text \<open>An environment in which everything succeeds, for concrete runs.\<close>

definition io_all_ok :: io where
  "io_all_ok =
     \<lparr>io_create = (\<lambda>_. True), io_open = (\<lambda>_. True), io_write = (\<lambda>n. n), io_flush = (\<lambda>n. n),
      io_rename = (\<lambda>_ _. True), io_unlink = (\<lambda>_. True)\<rparr>"

lemma io_all_ok_writes [simp]: "io_writes_ok io_all_ok"
  by (simp add: io_writes_ok_def io_all_ok_def)

lemma io_all_ok_simps [simp]:
  "io_create io_all_ok = (\<lambda>_. True)" "io_open io_all_ok = (\<lambda>_. True)"
  "io_write io_all_ok = (\<lambda>n. n)" "io_flush io_all_ok = (\<lambda>n. n)" "io_rename io_all_ok = (\<lambda>_ _. True)"
  "io_unlink io_all_ok = (\<lambda>_. True)"
  by (simp_all add: io_all_ok_def)

end
