(* ===== verification/Config.thy ===== *)
theory Config
  imports Prelude
begin

text \<open>
  The configuration of \<open>include/config.h\<close> and the command line parser of \<open>src/config.cpp\<close>.
\<close>

section \<open>The record\<close>

record Config =
  cfg_port :: "16 word"
  cfg_serial_device :: string
  cfg_baud_rate :: int
  cfg_upload_dir :: string
  cfg_scripts_dir :: string
  cfg_log_file :: string
  cfg_pid_file :: string
  cfg_foreground :: bool
  cfg_help :: bool

definition Config_default :: Config where
  "Config_default =
     \<lparr>cfg_port = 8080, cfg_serial_device = [], cfg_baud_rate = 115200,
      cfg_upload_dir = ''/tmp/rk_flashd_uploads'', cfg_scripts_dir = ''/sbin'',
      cfg_log_file = [], cfg_pid_file = ''/var/run/rk_firmware_flashd.pid'',
      cfg_foreground = False, cfg_help = False\<rparr>"

definition use_serial :: "Config \<Rightarrow> bool" where
  "use_serial cfg \<longleftrightarrow> cfg_serial_device cfg \<noteq> []"

end
