(* ===== verification/Upload.thy ===== *)
theory Upload
  imports Crc16 Md5 Files Config
begin

text \<open>
  The firmware upload protocol of \<open>src/at_handler/handler_upload.cpp\<close>: \<open>AT+PREUPLOAD\<close>,
  \<open>AT+UPLOAD\<close>, \<open>AT+UPLOADDONE\<close>, \<open>AT+UPLOADCANCEL\<close>, over the persistent \<open>UploadState\<close>
  (a function-local static in the source, so one value shared by every request) and the file
  store. Each handler takes the environment, the state and the store and returns the reply and
  both updated; every early return of the source is a branch, in the source's order.

  The abstract specification is the session (\<open>Idle\<close>, or \<open>Receiving\<close> a named file with the bytes
  accepted so far); the coupling invariant \<open>upload_inv\<close> says how \<open>UploadState\<close> represents it.
\<close>

section \<open>The code\<close>

record UploadState =
  u_active :: bool
  u_filename :: string
  u_tmp_path :: string
  u_expected_size :: "64 word"
  u_received :: "64 word"
  u_frame_count :: "32 word"
  u_file :: "stream option"
  u_expected_md5 :: string
  u_md5_ctx :: MD5

definition UploadState_new :: UploadState where
  "UploadState_new =
     \<lparr>u_active = False, u_filename = [], u_tmp_path = [], u_expected_size = 0, u_received = 0,
      u_frame_count = 0, u_file = None, u_expected_md5 = [], u_md5_ctx = MD5_new\<rparr>"

text \<open>\<open>UploadState::reset\<close>; it leaves \<open>file\<close> alone.\<close>

definition UploadState_reset :: "UploadState \<Rightarrow> UploadState" where
  "UploadState_reset u =
     u\<lparr>u_active := False, u_filename := [], u_tmp_path := [], u_expected_size := 0,
       u_received := 0, u_frame_count := 0, u_expected_md5 := [],
       u_md5_ctx := MD5_reset (u_md5_ctx u)\<rparr>"

text \<open>The dash of the messages, in UTF-8.\<close>

definition em_dash :: string where
  "em_dash = [CHR 0xE2, CHR 0x80, CHR 0x94]"

definition upload_tmp_path :: "Config \<Rightarrow> string \<Rightarrow> string" where
  "upload_tmp_path cfg filename =
     cfg_upload_dir cfg @ ''/'' @ (''upload_'' @ filename @ ''.tmp'')"

text \<open>
  The parsing and the checks of \<open>AT+PREUPLOAD\<close> (lines 65 to 88): the error reply, or the file
  name, the size and the MD5 text.
\<close>

definition preupload_fields :: "string \<Rightarrow> string + (string \<times> 64 word \<times> string)" where
  "preupload_fields arg =
     (case find_char CHR '','' arg of
       None \<Rightarrow> Inl ''ERROR: missing size and md5''
     | Some comma1 \<Rightarrow>
     (case find_char_from CHR '','' arg (comma1 + 1) of
       None \<Rightarrow> Inl ''ERROR: missing md5''
     | Some comma2 \<Rightarrow>
     (let filename = substr arg 0 comma1;
          size_str = substr arg (comma1 + 1) (comma2 - comma1 - 1);
          md5_hex = drop (comma2 + 1) arg
      in if \<not> list_all is_digit size_str then Inl ''ERROR: invalid size''
      else let total_size = strtoul_10 size_str
      in if total_size = 0 then Inl ''ERROR: size must be > 0''
      else if length md5_hex \<noteq> 32 then Inl ''ERROR: md5 must be 32 hex chars''
      else if \<not> list_all is_xdigit md5_hex then Inl ''ERROR: invalid md5 hex''
      else if filename = [] \<or> 255 < length filename then Inl ''ERROR: invalid filename''
      else if find_char CHR ''/'' filename \<noteq> None then Inl ''ERROR: filename contains /''
      else if str_contains ''..'' filename then Inl ''ERROR: invalid filename''
      else Inr (filename, total_size, md5_hex))))"

definition handle_preupload ::
    "io \<Rightarrow> Config \<Rightarrow> string \<Rightarrow> UploadState \<times> fs \<Rightarrow> string \<times> UploadState \<times> fs" where
  "handle_preupload io cfg arg = (\<lambda>(u, fs).
     if arg = [] then (''ERROR: AT+PREUPLOAD requires <file>,<size>,<md5>'', u, fs)
     else if u_active u then
       (''ERROR: upload already in progress '' @ em_dash @ '' send AT+UPLOADCANCEL first'', u, fs)
     else case preupload_fields arg of
       Inl err \<Rightarrow> (err, u, fs)
     | Inr (filename, total_size, md5_hex) \<Rightarrow>
     (let tmp_path = upload_tmp_path cfg filename
      in case fopen_wb io fs tmp_path of
           (None, fs) \<Rightarrow> (''ERROR: cannot create temp file'', u, fs)
         | (Some f, fs) \<Rightarrow>
             (''OK READY'',
              u\<lparr>u_active := True, u_filename := filename, u_tmp_path := tmp_path,
                u_expected_size := total_size, u_received := 0, u_frame_count := 0,
                u_file := Some f, u_expected_md5 := md5_hex, u_md5_ctx := MD5_reset (u_md5_ctx u)\<rparr>,
              fs)))"

text \<open>The decoding loop of \<open>AT+UPLOAD\<close>: \<open>sscanf(hex_data.c_str() + i * 2, "%2x", &byte)\<close>.\<close>

definition decode_hex :: "string \<Rightarrow> nat \<Rightarrow> byte list" where
  "decode_hex hex_data bin_len = map (\<lambda>i. ucast (sscanf_2x (drop (i * 2) hex_data))) [0..<bin_len]"

text \<open>
  What happens to a frame whose fields have been cut out and whose lengths agree: the checksum
  comparison, the write, the bookkeeping (lines 163 to 199).
\<close>

definition store_frame ::
    "io \<Rightarrow> string \<Rightarrow> byte list \<Rightarrow> stream \<Rightarrow> UploadState \<Rightarrow> string \<times> UploadState" where
  "store_frame io crc16_hex bin_data f u =
     (let bin_len = length bin_data;
          computed_crc = crc16_compute bin_data;
          expected_crc = ucast (strtoul_16 crc16_hex) :: 16 word;
          computed_crc_hex = fmt_04X computed_crc
      in if computed_crc \<noteq> expected_crc then
           (let u = u\<lparr>u_frame_count := u_frame_count u + 1\<rparr>
            in (''ERROR CRC mismatch frame '' @ dec_str (unat (u_frame_count u - 1))
                  @ '' expected='' @ crc16_hex @ '' got='' @ computed_crc_hex, u))
         else let (written, f) = fwrite io f bin_data; u = u\<lparr>u_file := Some f\<rparr>
         in if written \<noteq> bin_len then (''ERROR: write failed'', u)
         else let u = u\<lparr>u_md5_ctx := MD5_update (u_md5_ctx u) bin_data,
                        u_received := u_received u + of_nat bin_len,
                        u_frame_count := u_frame_count u + 1\<rparr>
         in (''OK '' @ dec_str (unat (u_received u)), u))"

text \<open>
  The parsing and the checks of a frame (lines 126 to 161): the error reply, or the checksum text and
  the decoded data.
\<close>

definition frame_fields :: "string \<Rightarrow> string + (string \<times> byte list)" where
  "frame_fields arg =
     (case rfind_char CHR '','' arg of
       None \<Rightarrow> Inl ''ERROR: missing crc16 and frame_len''
     | Some last_comma \<Rightarrow>
     (case rfind_char_upto CHR '','' arg (size_sub last_comma 1) of
       None \<Rightarrow> Inl ''ERROR: missing hex_data''
     | Some prev_comma \<Rightarrow>
     (let hex_data = substr arg 0 prev_comma;
          crc16_hex = substr arg (prev_comma + 1) (size_sub (size_sub last_comma prev_comma) 1);
          len_str = drop (last_comma + 1) arg
      in if length crc16_hex \<noteq> 4 then Inl ''ERROR: crc16 must be 4 hex chars''
      else if \<not> list_all is_xdigit crc16_hex then Inl ''ERROR: invalid crc16 hex''
      else if \<not> list_all is_digit len_str then Inl ''ERROR: invalid frame length''
      else let frame_len = ucast (strtoul_10 len_str) :: 32 word
      in if length hex_data mod 2 \<noteq> 0 then Inl ''ERROR: hex data must have even length''
      else let bin_len = length hex_data div 2
      in if bin_len \<noteq> unat frame_len then
           Inl (''ERROR: frame_len mismatch (declared='' @ dec_str (unat frame_len)
              @ '' actual='' @ dec_str bin_len @ '')'')
      else Inr (crc16_hex, decode_hex hex_data bin_len))))"

definition handle_upload_frame ::
    "io \<Rightarrow> string \<Rightarrow> UploadState \<times> fs \<Rightarrow> string \<times> UploadState \<times> fs" where
  "handle_upload_frame io arg = (\<lambda>(u, fs).
     if arg = [] then (''ERROR: AT+UPLOAD requires arguments'', u, fs)
     else case (if u_active u then u_file u else None) of
       None \<Rightarrow> (''ERROR: no active upload '' @ em_dash @ '' send AT+PREUPLOAD first'', u, fs)
     | Some f \<Rightarrow>
     (case frame_fields arg of
       Inl err \<Rightarrow> (err, u, fs)
     | Inr (crc16_hex, bin_data) \<Rightarrow>
         (let (reply, u) = store_frame io crc16_hex bin_data f u in (reply, u, fs))))"

definition handle_uploaddone ::
    "io \<Rightarrow> Config \<Rightarrow> UploadState \<times> fs \<Rightarrow> string \<times> UploadState \<times> fs" where
  "handle_uploaddone io cfg = (\<lambda>(u, fs).
     case (if u_active u then u_file u else None) of
       None \<Rightarrow> (''ERROR: no active upload'', u, fs)
     | Some f \<Rightarrow>
     (let fs = fclose io fs f;
          u = u\<lparr>u_file := None\<rparr>
      in if u_received u \<noteq> u_expected_size u then
           (''ERROR size mismatch expected='' @ dec_str (unat (u_expected_size u))
              @ '' got='' @ dec_str (unat (u_received u)),
            UploadState_reset u, unlink io fs (u_tmp_path u))
      else let actual_md5 = MD5_hex (u_md5_ctx u);
               u = u\<lparr>u_md5_ctx := snd (MD5_finalize (u_md5_ctx u))\<rparr>
      in if actual_md5 \<noteq> u_expected_md5 u then
           (''ERROR MD5 mismatch expected='' @ u_expected_md5 u @ '' got='' @ actual_md5,
            UploadState_reset u, unlink io fs (u_tmp_path u))
      else let final_path = cfg_upload_dir cfg @ ''/'' @ u_filename u
      in case rename io fs (u_tmp_path u) final_path of
           (False, fs) \<Rightarrow>
             (''ERROR: failed to save firmware file'', UploadState_reset u, unlink io fs (u_tmp_path u))
         | (True, fs) \<Rightarrow>
             (''OK '' @ u_filename u @ '' '' @ dec_str (unat (u_received u)) @ '' '' @ actual_md5,
              UploadState_reset u, fs)))"

definition handle_uploadcancel ::
    "io \<Rightarrow> UploadState \<times> fs \<Rightarrow> string \<times> UploadState \<times> fs" where
  "handle_uploadcancel io = (\<lambda>(u, fs).
     if \<not> u_active u then (''OK no upload in progress'', u, fs)
     else let (u, fs) = (case u_file u of None \<Rightarrow> (u, fs)
                         | Some f \<Rightarrow> (u\<lparr>u_file := None\<rparr>, fclose io fs f));
              fs = unlink io fs (u_tmp_path u)
     in (''OK'', UploadState_reset u, fs))"

section \<open>Cutting a frame into its fields\<close>

lemma decode_hex_0 [simp]: "decode_hex s 0 = []"
  by (simp add: decode_hex_def)

lemma decode_hex_Suc: "decode_hex s (Suc n) = ucast (sscanf_2x s) # decode_hex (drop 2 s) n"
proof -
  have "[0..<Suc n] = 0 # map Suc [0..<n]"
    by (simp add: upt_conv_Cons map_Suc_upt)
  then show ?thesis by (simp add: decode_hex_def comp_def)
qed

lemma length_decode_hex [simp]: "length (decode_hex s n) = n"
  by (simp add: decode_hex_def)

lemma decode_hex_encode: "decode_hex (concat (map fmt_02x bs) @ s) (length bs) = bs"
proof (induction bs)
  case Nil
  then show ?case by simp
next
  case (Cons b bs)
  have "ucast (ucast b :: 32 word) = b"
    by (rule bit_eqI) (simp add: bit_unsigned_iff)
  with Cons show ?case
    by (simp add: decode_hex_Suc sscanf_2x_fmt_02x)
qed

lemma length_hex_encode [simp]: "length (concat (map fmt_02x bs)) = 2 * length bs"
  by (induction bs) auto

text \<open>
  The argument of \<open>AT+UPLOAD\<close> with well-separated fields: the code cuts it where the client joined
  it, and then only checks, decodes and stores.
\<close>

definition frame_reply ::
    "io \<Rightarrow> string \<Rightarrow> string \<Rightarrow> string \<Rightarrow> stream \<Rightarrow> UploadState \<times> fs \<Rightarrow> string \<times> UploadState \<times> fs" where
  "frame_reply io hex_data crc16_hex len_str f = (\<lambda>(u, fs).
     if length crc16_hex \<noteq> 4 then (''ERROR: crc16 must be 4 hex chars'', u, fs)
     else if \<not> list_all is_xdigit crc16_hex then (''ERROR: invalid crc16 hex'', u, fs)
     else if \<not> list_all is_digit len_str then (''ERROR: invalid frame length'', u, fs)
     else let frame_len = ucast (strtoul_10 len_str) :: 32 word
     in if length hex_data mod 2 \<noteq> 0 then (''ERROR: hex data must have even length'', u, fs)
     else let bin_len = length hex_data div 2
     in if bin_len \<noteq> unat frame_len then
          (''ERROR: frame_len mismatch (declared='' @ dec_str (unat frame_len)
             @ '' actual='' @ dec_str bin_len @ '')'', u, fs)
     else let (reply, u) = store_frame io crc16_hex (decode_hex hex_data bin_len) f u
     in (reply, u, fs))"

lemma handle_upload_frame_fields:
  assumes "u_active u" "u_file u = Some f" "CHR '','' \<notin> set crc" "CHR '','' \<notin> set len"
  shows "handle_upload_frame io (hex @ CHR '','' # crc @ CHR '','' # len) (u, fs)
           = frame_reply io hex crc len f (u, fs)"
proof -
  let ?arg = "hex @ CHR '','' # crc @ CHR '','' # len"
  have last: "rfind_char CHR '','' ?arg = Some (length hex + 1 + length crc)"
    using rfind_char_last [of "CHR '',''" len "hex @ CHR '','' # crc"] assms(4) by simp
  have prev: "rfind_char_upto CHR '','' ?arg (size_sub (length hex + 1 + length crc) 1) = Some (length hex)"
    by (rule rfind_char_upto_last) (use assms(3) in \<open>auto simp: size_sub_def\<close>)
  have cut: "substr ?arg 0 (length hex) = hex"
    "substr ?arg (length hex + 1)
       (size_sub (size_sub (length hex + 1 + length crc) (length hex)) 1) = crc"
    "drop (length hex + 1 + length crc + 1) ?arg = len"
    by (simp_all add: substr_def size_sub_def)
  have "?arg \<noteq> []" by simp
  with assms(1,2) show ?thesis
    by (simp only: handle_upload_frame_def frame_fields_def frame_reply_def split_conv last prev cut
        if_True if_False option.case Let_def) simp
qed

end
