(* ===== verification/Machine.thy ===== *)
theory Machine
  imports Main
begin

text \<open>
  Interfaces for the stateful components: a machine is a step function from labels and states to
  states; a label stands for one call together with the answers of its environment.

  \<open>invariant_machine\<close> promises that every admissible step keeps an invariant; what it gives its
  clients is the invariant after every run. \<open>refining_machine\<close> extends it by an abstraction that
  commutes with the steps; it gives the correspondence of whole runs.
\<close>

locale invariant_machine =
  fixes ok :: "'l \<Rightarrow> bool"
    and step :: "'l \<Rightarrow> 's \<Rightarrow> 's"
    and inv :: "'s \<Rightarrow> bool"
  assumes inv_step: "ok l \<Longrightarrow> inv s \<Longrightarrow> inv (step l s)"
begin

lemma inv_run: "list_all ok ls \<Longrightarrow> inv s \<Longrightarrow> inv (fold step ls s)"
  by (induction ls arbitrary: s) (auto intro: inv_step)

lemma inv_prefix: "list_all ok (ls @ ms) \<Longrightarrow> inv s \<Longrightarrow> inv (fold step ls s)"
  by (simp add: inv_run)

end

locale refining_machine = invariant_machine ok step inv
  for ok :: "'l \<Rightarrow> bool" and step :: "'l \<Rightarrow> 's \<Rightarrow> 's" and inv :: "'s \<Rightarrow> bool" +
  fixes abst :: "'s \<Rightarrow> 'a"
    and astep :: "'l \<Rightarrow> 'a \<Rightarrow> 'a"
  assumes abst_step: "ok l \<Longrightarrow> inv s \<Longrightarrow> abst (step l s) = astep l (abst s)"
begin

lemma abst_run: "list_all ok ls \<Longrightarrow> inv s \<Longrightarrow> abst (fold step ls s) = fold astep ls (abst s)"
  by (induction ls arbitrary: s) (simp_all add: abst_step inv_step)

end

end
