(* ===== verification/Upload_Inv.thy ===== *)
theory Upload_Inv
  imports Upload Machine
begin

text \<open>
  The invariant of the upload session and its abstraction.

  \<open>upload_shape\<close> holds in every environment: a session is active exactly when it has an open
  stream, and the MD5 context is well-formed. \<open>upload_sync\<close> ties the fields together: what the
  stream has accepted is what the MD5 context and the byte counter have seen, and the stream still
  is the file of the temporary name. It holds as long as no \<open>fwrite\<close> falls short
  (\<open>io_writes_ok\<close>); theory \<open>Upload_Props\<close> shows what a short write does.
\<close>

section \<open>Definitions\<close>

definition safe_filename :: "string \<Rightarrow> bool" where
  "safe_filename name \<longleftrightarrow>
     name \<noteq> [] \<and> length name \<le> 255 \<and> CHR ''/'' \<notin> set name \<and> \<not> str_contains ''..'' name"

definition md5_text :: "string \<Rightarrow> bool" where
  "md5_text s \<longleftrightarrow> length s = 32 \<and> list_all is_xdigit s"

definition upload_shape :: "UploadState \<Rightarrow> bool" where
  "upload_shape u \<longleftrightarrow> (u_active u \<longleftrightarrow> u_file u \<noteq> None) \<and> md5_wf (u_md5_ctx u)"

definition upload_sync :: "Config \<Rightarrow> UploadState \<Rightarrow> fs \<Rightarrow> bool" where
  "upload_sync cfg u fs \<longleftrightarrow>
     (case u_file u of
        None \<Rightarrow> True
      | Some f \<Rightarrow>
          u_tmp_path u = upload_tmp_path cfg (u_filename u) \<and> safe_filename (u_filename u) \<and>
          md5_text (u_expected_md5 u) \<and> u_expected_size u \<noteq> 0 \<and>
          md5_eqv (u_md5_ctx u) (MD5_update MD5_new (st_buf f)) \<and>
          u_received u = of_nat (length (st_buf f)) \<and>
          fs_staged fs (u_tmp_path u) f (st_buf f))"

definition upload_inv :: "Config \<Rightarrow> UploadState \<times> fs \<Rightarrow> bool" where
  "upload_inv cfg s \<longleftrightarrow> upload_shape (fst s) \<and> upload_sync cfg (fst s) (snd s)"

section \<open>Equations of the handlers\<close>

lemma upload_shape_reset [simp]: "u_file u = None \<Longrightarrow> upload_shape (UploadState_reset u)"
  by (simp add: upload_shape_def UploadState_reset_def MD5_reset_new)

lemma upload_sync_closed [simp]: "u_file u = None \<Longrightarrow> upload_sync cfg u fs"
  by (simp add: upload_sync_def)

lemma u_file_reset [simp]: "u_file (UploadState_reset u) = u_file u"
  by (simp add: UploadState_reset_def)

lemma u_active_reset [simp]: "\<not> u_active (UploadState_reset u)"
  by (simp add: UploadState_reset_def)

text \<open>The checks of \<open>AT+PREUPLOAD\<close>, characterised by the shape of its argument.\<close>

lemma find_char_commas:
  assumes "find_char c s = Some i" "find_char_from c s (i + 1) = Some j"
  shows "s = substr s 0 i @ c # substr s (i + 1) (j - i - 1) @ c # drop (j + 1) s"
    and "c \<notin> set (substr s 0 i)" and "c \<notin> set (substr s (i + 1) (j - i - 1))"
proof -
  obtain a b where ab: "s = a @ c # b" "length a = i" "c \<notin> set a"
    using find_char_Some_split [OF assms(1)] by blast
  then obtain k where k: "find_char c b = Some k" "j = i + 1 + k"
    using assms(2) by (auto simp: find_char_from_def)
  obtain d e where de: "b = d @ c # e" "length d = k" "c \<notin> set d"
    using find_char_Some_split [OF k(1)] by blast
  show "s = substr s 0 i @ c # substr s (i + 1) (j - i - 1) @ c # drop (j + 1) s"
    and "c \<notin> set (substr s 0 i)" and "c \<notin> set (substr s (i + 1) (j - i - 1))"
    using ab k de by (simp_all add: substr_def)
qed

lemma preupload_fields_join:
  assumes "CHR '','' \<notin> set name" "CHR '','' \<notin> set sz"
  shows "preupload_fields (name @ CHR '','' # sz @ CHR '','' # md5) =
    (if \<not> list_all is_digit sz then Inl ''ERROR: invalid size''
     else if strtoul_10 sz = 0 then Inl ''ERROR: size must be > 0''
     else if length md5 \<noteq> 32 then Inl ''ERROR: md5 must be 32 hex chars''
     else if \<not> list_all is_xdigit md5 then Inl ''ERROR: invalid md5 hex''
     else if name = [] \<or> 255 < length name then Inl ''ERROR: invalid filename''
     else if CHR ''/'' \<in> set name then Inl ''ERROR: filename contains /''
     else if str_contains ''..'' name then Inl ''ERROR: invalid filename''
     else Inr (name, strtoul_10 sz, md5))"
proof -
  let ?arg = "name @ CHR '','' # sz @ CHR '','' # md5"
  have c1: "find_char CHR '','' ?arg = Some (length name)"
    using assms(1) by simp
  have c2: "find_char_from CHR '','' ?arg (length name + 1) = Some (length name + 1 + length sz)"
    using find_char_from_at [of "name @ '',''" "length name + 1" "CHR '',''" sz md5] assms(2) by simp
  have cut: "substr ?arg 0 (length name) = name"
    "substr ?arg (length name + 1) (length name + 1 + length sz - length name - 1) = sz"
    "drop (length name + 1 + length sz + 1) ?arg = md5"
    by (simp_all add: substr_def)
  have slash: "find_char CHR ''/'' name \<noteq> None \<longleftrightarrow> CHR ''/'' \<in> set name"
    by (simp only: find_char_None not_not)
  show ?thesis
    by (simp only: preupload_fields_def c1 c2 option.case cut slash Let_def)
qed

lemma preupload_fields_Inr:
  "preupload_fields arg = Inr (name, n, md5) \<longleftrightarrow>
     (\<exists>sz. arg = name @ CHR '','' # sz @ CHR '','' # md5 \<and>
        CHR '','' \<notin> set name \<and> CHR '','' \<notin> set sz \<and> list_all is_digit sz \<and>
        n = strtoul_10 sz \<and> n \<noteq> 0 \<and> md5_text md5 \<and> safe_filename name)"
  (is "?l = ?r")
proof
  assume ?l
  then obtain i j where ij: "find_char CHR '','' arg = Some i" "find_char_from CHR '','' arg (i + 1) = Some j"
    by (auto simp: preupload_fields_def split: option.splits)
  note split = find_char_commas [OF ij]
  let ?name = "substr arg 0 i" and ?sz = "substr arg (i + 1) (j - i - 1)" and ?md5 = "drop (j + 1) arg"
  have "preupload_fields (?name @ CHR '','' # ?sz @ CHR '','' # ?md5) = Inr (name, n, md5)"
    using \<open>?l\<close> split(1) by simp
  then have "name = ?name" "n = strtoul_10 ?sz" "md5 = ?md5" "list_all is_digit ?sz"
      "n \<noteq> 0" "md5_text md5" "safe_filename name"
    unfolding preupload_fields_join [OF split(2,3)]
    by (auto simp: md5_text_def safe_filename_def not_less split: if_splits)
  with split show ?r by blast
next
  assume ?r
  then show ?l
    by (auto simp: preupload_fields_join md5_text_def safe_filename_def)
qed

lemma preupload_fields_Inl: "preupload_fields arg = Inl err \<Longrightarrow> take 5 err = ''ERROR''"
  by (auto simp: preupload_fields_def Let_def split: option.splits if_splits)

section \<open>What each handler can do to the state\<close>

lemma fopen_wb_None: "fopen_wb io fs p = (None, fs') \<Longrightarrow> fs' = fs"
  by (auto simp: fopen_wb_def Let_def split: if_splits option.splits)

lemma handle_preupload_cases:
  assumes "handle_preupload io cfg arg (u, fs) = (reply, u', fs')"
  obtains (refused) "take 5 reply = ''ERROR''" "u' = u" "fs' = fs"
  | (opened) name n md5 f where "reply = ''OK READY''" "\<not> u_active u"
      "preupload_fields arg = Inr (name, n, md5)"
      "fopen_wb io fs (upload_tmp_path cfg name) = (Some f, fs')"
      "u' = u\<lparr>u_active := True, u_filename := name, u_tmp_path := upload_tmp_path cfg name,
               u_expected_size := n, u_received := 0, u_frame_count := 0,
               u_file := Some f, u_expected_md5 := md5, u_md5_ctx := MD5_new\<rparr>"
proof (cases "arg = [] \<or> u_active u")
  case True
  with assms show ?thesis by (intro refused) (auto simp: handle_preupload_def split: if_splits)
next
  case False
  show ?thesis
  proof (cases "preupload_fields arg")
    case (Inl err)
    with False assms preupload_fields_Inl [OF Inl] show ?thesis
      by (intro refused) (auto simp: handle_preupload_def)
  next
    case (Inr v)
    obtain name n md5 where v: "v = (name, n, md5)" by (rule prod_cases3)
    obtain f fs1 where o: "fopen_wb io fs (upload_tmp_path cfg name) = (f, fs1)" by fastforce
    show ?thesis
    proof (cases f)
      case None
      with False assms Inr v o fopen_wb_None show ?thesis
        by (intro refused) (auto simp: handle_preupload_def)
    next
      case (Some f')
      with False assms Inr v o show ?thesis
        by (intro opened) (auto simp: handle_preupload_def MD5_reset_new)
    qed
  qed
qed

lemma frame_fields_Inl: "frame_fields arg = Inl err \<Longrightarrow> take 5 err = ''ERROR''"
  by (auto simp: frame_fields_def Let_def split: option.splits if_splits)

lemma handle_upload_frame_cases:
  assumes "handle_upload_frame io arg (u, fs) = (reply, u', fs')"
  obtains (refused) "take 5 reply = ''ERROR''" "u' = u" "fs' = fs"
  | (stored) f crc bin where "u_active u" "u_file u = Some f"
      "store_frame io crc bin f u = (reply, u')" "fs' = fs"
  using assms
  by (auto simp: handle_upload_frame_def Let_def dest: frame_fields_Inl
      split: if_splits option.splits prod.splits sum.splits)

lemma handle_uploaddone_cases:
  assumes "handle_uploaddone io cfg (u, fs) = (reply, u', fs')"
  obtains (idle) "u_active u = False \<or> u_file u = None" "reply = ''ERROR: no active upload''"
      "u' = u" "fs' = fs"
  | (failed) f where "u_active u" "u_file u = Some f" "take 5 reply = ''ERROR''"
      "\<not> u_active u'" "u_file u' = None" "md5_wf (u_md5_ctx u')"
      "fs' = unlink io (fclose io fs f) (u_tmp_path u)"
  | (saved) f where "u_active u" "u_file u = Some f"
      "reply = ''OK '' @ u_filename u @ '' '' @ dec_str (unat (u_received u)) @ '' '' @ u_expected_md5 u"
      "u_received u = u_expected_size u" "MD5_hex (u_md5_ctx u) = u_expected_md5 u"
      "rename io (fclose io fs f) (u_tmp_path u) (cfg_upload_dir cfg @ ''/'' @ u_filename u) = (True, fs')"
      "\<not> u_active u'" "u_file u' = None" "md5_wf (u_md5_ctx u')"
proof (cases "if u_active u then u_file u else None")
  case None
  with assms show ?thesis
    by (intro idle) (auto simp: handle_uploaddone_def split: if_splits)
next
  case (Some f)
  then have act: "u_active u" "u_file u = Some f" by (auto split: if_splits)
  have wf: "md5_wf (u_md5_ctx (UploadState_reset w))" "\<not> u_active (UploadState_reset w)" for w
    by (simp_all add: UploadState_reset_def MD5_reset_new)
  obtain ok fs1 where r: "rename io (fclose io fs f) (u_tmp_path u)
      (cfg_upload_dir cfg @ ''/'' @ u_filename u) = (ok, fs1)" by fastforce
  have fs1: "\<not> ok \<Longrightarrow> fs1 = fclose io fs f"
    using r by (auto simp: rename_def split: option.splits if_splits)
  consider "u_received u \<noteq> u_expected_size u \<or> MD5_hex (u_md5_ctx u) \<noteq> u_expected_md5 u \<or> \<not> ok"
    | "u_received u = u_expected_size u" "MD5_hex (u_md5_ctx u) = u_expected_md5 u" "ok"
    by blast
  then show ?thesis
  proof cases
    case 1
    with assms act r fs1 wf show ?thesis
      by (intro failed) (auto simp: handle_uploaddone_def Let_def split: if_splits)
  next
    case 2
    with assms act r wf show ?thesis
      by (intro saved) (auto simp: handle_uploaddone_def Let_def)
  qed
qed

lemma handle_uploadcancel_cases:
  assumes "handle_uploadcancel io (u, fs) = (reply, u', fs')"
  obtains (idle) "\<not> u_active u" "reply = ''OK no upload in progress''" "u' = u" "fs' = fs"
  | (aborted) "u_active u" "reply = ''OK''" "\<not> u_active u'" "u_file u' = None" "md5_wf (u_md5_ctx u')"
  using assms
  by (cases "u_active u"; cases "u_file u")
     (auto simp: handle_uploadcancel_def Let_def UploadState_reset_def MD5_reset_new fs_lookup_unlink)

text \<open>The three outcomes of a frame that reaches the checksum comparison.\<close>

lemma store_frame_cases:
  assumes "store_frame io crc bin f u = (reply, u')"
  obtains (mismatch) "crc16_compute bin \<noteq> ucast (strtoul_16 crc)"
      "reply = ''ERROR CRC mismatch frame '' @ dec_str (unat (u_frame_count u))
         @ '' expected='' @ crc @ '' got='' @ fmt_04X (crc16_compute bin)"
      "u' = u\<lparr>u_frame_count := u_frame_count u + 1\<rparr>"
  | (short_write) "crc16_compute bin = ucast (strtoul_16 crc)"
      "fst (fwrite io f bin) \<noteq> length bin" "reply = ''ERROR: write failed''"
      "u' = u\<lparr>u_file := Some (snd (fwrite io f bin))\<rparr>"
  | (accepted) "crc16_compute bin = ucast (strtoul_16 crc)"
      "fst (fwrite io f bin) = length bin"
      "reply = ''OK '' @ dec_str (unat (u_received u + of_nat (length bin)))"
      "u' = u\<lparr>u_file := Some (snd (fwrite io f bin)), u_md5_ctx := MD5_update (u_md5_ctx u) bin,
              u_received := u_received u + of_nat (length bin), u_frame_count := u_frame_count u + 1\<rparr>"
  using assms
  by (cases "fwrite io f bin") (auto simp: store_frame_def Let_def split: if_splits)

section \<open>The invariant is preserved\<close>

lemma upload_inv_preupload:
  assumes "upload_inv cfg (u, fs)"
  shows "upload_inv cfg (snd (handle_preupload io cfg arg (u, fs)))"
proof -
  obtain reply u' fs' where h: "handle_preupload io cfg arg (u, fs) = (reply, u', fs')"
    by (rule prod_cases3)
  from h have "upload_inv cfg (u', fs')"
  proof (cases rule: handle_preupload_cases)
    case refused
    with assms show ?thesis by simp
  next
    case (opened name n md5 f)
    then have "fs_staged fs' (upload_tmp_path cfg name) f []"
      using fs_store.op_staged by blast
    moreover have "st_buf f = []" using calculation by (simp add: fs_staged_def)
    moreover have "md5_text md5" "safe_filename name" "n \<noteq> 0"
      using opened(3) by (auto simp: preupload_fields_Inr)
    moreover have "md5_eqv MD5_new (MD5_update MD5_new [])"
      by (simp add: md5d.upd_Nil md5d.eqv_sym)
    ultimately show ?thesis
      using opened(5) by (simp add: upload_inv_def upload_shape_def upload_sync_def)
  qed
  with h show ?thesis by simp
qed

lemma upload_inv_store:
  assumes inv: "upload_inv cfg (u, fs)" and f: "u_file u = Some f" and io: "io_writes_ok io"
    and st: "store_frame io crc bin f u = (reply, u')"
  shows "upload_inv cfg (u', fs)"
  using st
proof (cases rule: store_frame_cases)
  case mismatch
  from inv show ?thesis
    by (auto simp: mismatch(3) upload_inv_def upload_shape_def upload_sync_def split: option.splits)
next
  case short_write
  with fs_store.wr_good [OF io] show ?thesis by simp
next
  case accepted
  let ?f = "snd (fwrite io f bin)"
  have wf: "md5_wf (u_md5_ctx u)" and act: "u_active u"
    using inv f by (auto simp: upload_inv_def upload_shape_def)
  have eqv: "md5_eqv (u_md5_ctx u) (MD5_update MD5_new (st_buf f))"
    and staged: "fs_staged fs (u_tmp_path u) f (st_buf f)"
    using inv f by (auto simp: upload_inv_def upload_sync_def)
  have staged': "fs_staged fs (u_tmp_path u) ?f (st_buf f @ bin)"
    by (rule fs_store.wr_good_staged [OF io staged])
  then have buf: "st_buf ?f = st_buf f @ bin" by (simp add: fs_staged_def)
  have "md5_eqv (MD5_update (u_md5_ctx u) bin) (MD5_update MD5_new (st_buf f @ bin))"
    by (rule md5d.step_eqv [OF wf md5_wf_new eqv])
  then show ?thesis
    using inv f accepted(4) staged' buf wf act
    by (simp add: upload_inv_def upload_shape_def upload_sync_def MD5_update_wf)
qed

lemma upload_inv_frame:
  assumes "upload_inv cfg (u, fs)" "io_writes_ok io"
  shows "upload_inv cfg (snd (handle_upload_frame io arg (u, fs)))"
proof -
  obtain reply u' fs' where h: "handle_upload_frame io arg (u, fs) = (reply, u', fs')"
    by (rule prod_cases3)
  from h have "upload_inv cfg (u', fs')"
    by (cases rule: handle_upload_frame_cases) (use assms in \<open>auto intro: upload_inv_store\<close>)
  with h show ?thesis by simp
qed

lemma upload_inv_closed:
  "\<not> u_active u \<Longrightarrow> u_file u = None \<Longrightarrow> md5_wf (u_md5_ctx u) \<Longrightarrow> upload_inv cfg (u, fs)"
  by (simp add: upload_inv_def upload_shape_def)

lemma upload_inv_done:
  assumes "upload_inv cfg (u, fs)"
  shows "upload_inv cfg (snd (handle_uploaddone io cfg (u, fs)))"
proof -
  obtain reply u' fs' where h: "handle_uploaddone io cfg (u, fs) = (reply, u', fs')"
    by (rule prod_cases3)
  from h have "upload_inv cfg (u', fs')"
    by (cases rule: handle_uploaddone_cases) (use assms in \<open>auto intro: upload_inv_closed\<close>)
  with h show ?thesis by simp
qed

lemma upload_inv_cancel:
  assumes "upload_inv cfg (u, fs)"
  shows "upload_inv cfg (snd (handle_uploadcancel io (u, fs)))"
proof -
  obtain reply u' fs' where h: "handle_uploadcancel io (u, fs) = (reply, u', fs')"
    by (rule prod_cases3)
  from h have "upload_inv cfg (u', fs')"
    by (cases rule: handle_uploadcancel_cases) (use assms in \<open>auto intro: upload_inv_closed\<close>)
  with h show ?thesis by simp
qed

section \<open>The client's view: an abstract session\<close>

text \<open>
  A client begins an upload, sends chunks of bytes, and finishes or aborts. Its operations are
  encoded as the arguments of the four commands (\<open>client_call\<close>); \<open>client_frame\<close> is the encoding
  of \<open>real_test/test_09_upload_protocol.py\<close>. The session is what it may assume of the daemon.
\<close>

datatype session = Idle | Receiving string nat string "byte list"

datatype client_op = Begin string nat string | Send "byte list" | Finish | Abort

definition frame_text :: "byte list \<Rightarrow> 16 word \<Rightarrow> string" where
  "frame_text bs w = concat (map fmt_02x bs) @ CHR '','' # fmt_04X w @ CHR '','' # dec_str (length bs)"

definition client_frame :: "byte list \<Rightarrow> string" where
  "client_frame bs = frame_text bs (crc16_compute bs)"

definition client_begin :: "string \<Rightarrow> nat \<Rightarrow> string \<Rightarrow> string" where
  "client_begin name n md5 = name @ CHR '','' # dec_str n @ CHR '','' # md5"

fun client_call :: "Config \<Rightarrow> io \<times> client_op \<Rightarrow> UploadState \<times> fs \<Rightarrow> string \<times> UploadState \<times> fs" where
  "client_call cfg (io, Begin name n md5) s = handle_preupload io cfg (client_begin name n md5) s"
| "client_call cfg (io, Send bs) s = handle_upload_frame io (client_frame bs) s"
| "client_call cfg (io, Finish) s = handle_uploaddone io cfg s"
| "client_call cfg (io, Abort) s = handle_uploadcancel io s"

fun client_ok :: "client_op \<Rightarrow> bool" where
  "client_ok (Begin name n md5) \<longleftrightarrow>
     safe_filename name \<and> CHR '','' \<notin> set name \<and> 0 < n \<and> n < 2 ^ 64 \<and> md5_text md5"
| "client_ok (Send bs) \<longleftrightarrow> length bs < 2 ^ 32"
| "client_ok Finish \<longleftrightarrow> True"
| "client_ok Abort \<longleftrightarrow> True"

definition good_call :: "io \<times> client_op \<Rightarrow> bool" where
  "good_call = (\<lambda>(io, c). io_writes_ok io \<and> (\<forall>p. io_create io p) \<and> client_ok c)"

fun session_step :: "io \<times> client_op \<Rightarrow> session \<Rightarrow> session" where
  "session_step (io, Begin name n md5) Idle = Receiving name n md5 []"
| "session_step (io, Begin name n md5) (Receiving nm k m bs) = Receiving nm k m bs"
| "session_step (io, Send xs) Idle = Idle"
| "session_step (io, Send xs) (Receiving nm k m bs) = Receiving nm k m (bs @ xs)"
| "session_step (io, Finish) v = Idle"
| "session_step (io, Abort) v = Idle"

definition session_of :: "UploadState \<times> fs \<Rightarrow> session" where
  "session_of s =
     (case u_file (fst s) of
        None \<Rightarrow> Idle
      | Some f \<Rightarrow> Receiving (u_filename (fst s)) (unat (u_expected_size (fst s)))
                   (u_expected_md5 (fst s)) (st_buf f))"

lemma comma_not_digit: "list_all is_digit s \<Longrightarrow> CHR '','' \<notin> set s"
  by (auto simp: list_all_iff dest: digit_not_special)

lemma comma_not_xdigit: "list_all is_xdigit s \<Longrightarrow> CHR '','' \<notin> set s"
  by (auto simp: list_all_iff dest: xdigit_not_special)

lemma list_all_dec_str [simp]: "list_all is_digit (dec_str n)"
  by (simp add: list_all_iff dec_str_digits)

lemma list_all_fmt_04X [simp]: "list_all is_xdigit (fmt_04X w)"
  by (simp add: list_all_iff fmt_04X_xdigits)

lemma preupload_fields_begin:
  assumes "client_ok (Begin name n md5)"
  shows "preupload_fields (client_begin name n md5) = Inr (name, of_nat n, md5)"
proof -
  have n: "strtoul_10 (dec_str n) = (of_nat n :: 64 word)"
    using assms by (simp add: strtoul_10_dec_str)
  have "(of_nat n :: 64 word) \<noteq> 0"
  proof
    assume "(of_nat n :: 64 word) = 0"
    then have "unat (of_nat n :: 64 word) = 0" by simp
    with assms show False by (simp add: unat_of_nat)
  qed
  then show ?thesis
    using assms n comma_not_digit [OF list_all_dec_str [of n]]
    by (auto simp: client_begin_def preupload_fields_Inr intro!: exI [of _ "dec_str n"])
qed

lemma preupload_begin:
  assumes "client_ok (Begin name n md5)" "\<not> u_active u" "\<forall>p. io_create io p"
  obtains f fs' where
    "handle_preupload io cfg (client_begin name n md5) (u, fs) =
       (''OK READY'',
        u\<lparr>u_active := True, u_filename := name, u_tmp_path := upload_tmp_path cfg name,
          u_expected_size := of_nat n, u_received := 0, u_frame_count := 0,
          u_file := Some f, u_expected_md5 := md5, u_md5_ctx := MD5_new\<rparr>, fs')"
    and "st_buf f = []"
proof -
  obtain f fs' where o: "fopen_wb io fs (upload_tmp_path cfg name) = (Some f, fs')"
    using assms(3) fopen_wb_ok by blast
  then have "st_buf f = []"
    using fs_store.op_staged by (fastforce simp: fs_staged_def)
  moreover have "client_begin name n md5 \<noteq> []" by (simp add: client_begin_def)
  ultimately show ?thesis
    using that [of f fs'] o assms(2) preupload_fields_begin [OF assms(1)]
    by (simp add: handle_preupload_def MD5_reset_new)
qed

text \<open>A frame in the encoding of the client comes out of the parser as the bytes that were sent.\<close>

lemma handle_frame_text:
  assumes "u_active u" "u_file u = Some f" "length bs < 2 ^ 32"
  shows "handle_upload_frame io (frame_text bs w) (u, fs) =
     (let (reply, u) = store_frame io (fmt_04X w) bs f u in (reply, u, fs))"
proof -
  have len: "unat (ucast (strtoul_10 (dec_str (length bs))) :: 32 word) = length bs"
    using assms(3) by (simp add: strtoul_10_dec_str unat_of_nat unsigned_ucast_eq take_bit_nat_eq_self
        unsigned_of_nat)
  have dec: "decode_hex (concat (map fmt_02x bs)) (length bs) = bs"
    using decode_hex_encode [of bs "[]"] by simp
  have "CHR '','' \<notin> set (fmt_04X w)" "CHR '','' \<notin> set (dec_str (length bs))"
    by (rule comma_not_xdigit comma_not_digit; simp)+
  from handle_upload_frame_fields [OF assms(1,2) this, of io "concat (map fmt_02x bs)" fs]
  show ?thesis
    by (simp add: frame_text_def frame_reply_def len dec)
qed

lemma crc_text_matches: "ucast (strtoul_16 (fmt_04X w)) = w"
  by (simp add: strtoul_16_fmt_04X) (rule bit_eqI, simp add: bit_unsigned_iff)

lemma frame_accepted:
  assumes "u_active u" "u_file u = Some f" "length bs < 2 ^ 32" "io_writes_ok io"
  obtains u' f' where
    "handle_upload_frame io (client_frame bs) (u, fs) =
       (''OK '' @ dec_str (unat (u_received u + of_nat (length bs))), u', fs)"
    and "u' = u\<lparr>u_file := Some f', u_md5_ctx := MD5_update (u_md5_ctx u) bs,
               u_received := u_received u + of_nat (length bs), u_frame_count := u_frame_count u + 1\<rparr>"
    and "f' = snd (fwrite io f bs)" "st_buf f' = st_buf f @ bs"
proof -
  have w: "fst (fwrite io f bs) = length bs" "st_buf (snd (fwrite io f bs)) = st_buf f @ bs"
    using fs_store.wr_good [OF assms(4), of f bs] by (auto simp: fwrite_def Let_def)
  obtain reply u' where st: "store_frame io (fmt_04X (crc16_compute bs)) bs f u = (reply, u')"
    by fastforce
  then show ?thesis
    by (cases rule: store_frame_cases)
       (use handle_frame_text [OF assms(1-3), of io "crc16_compute bs" fs] st w that
         in \<open>auto simp: client_frame_def crc_text_matches\<close>)
qed

lemma session_of_simps [simp]:
  "u_file u = None \<Longrightarrow> session_of (u, fs) = Idle"
  "u_file u = Some f \<Longrightarrow>
     session_of (u, fs) = Receiving (u_filename u) (unat (u_expected_size u)) (u_expected_md5 u) (st_buf f)"
  by (simp_all add: session_of_def)

lemma upload_inv_call:
  assumes "good_call l" "upload_inv cfg s"
  shows "upload_inv cfg (snd (client_call cfg l s))"
proof (cases l)
  case (Pair io c)
  then show ?thesis
    using assms upload_inv_preupload upload_inv_frame upload_inv_done upload_inv_cancel
    by (cases c; cases s) (auto simp: good_call_def)
qed

lemma session_call:
  assumes "good_call l" "upload_inv cfg s"
  shows "session_of (snd (client_call cfg l s)) = session_step l (session_of s)"
proof -
  obtain io c u fs where l: "l = (io, c)" and s: "s = (u, fs)" by (cases l; cases s)
  have ok: "io_writes_ok io" "\<forall>p. io_create io p" "client_ok c"
    using assms(1) l by (auto simp: good_call_def)
  have shape: "u_active u \<longleftrightarrow> u_file u \<noteq> None"
    using assms(2) s by (simp add: upload_inv_def upload_shape_def)
  show ?thesis
  proof (cases "u_file u")
    case None
    with shape have idle: "\<not> u_active u" by simp
    show ?thesis
    proof (cases c)
      case (Begin name n md5)
      then have "unat (of_nat n :: 64 word) = n"
        using ok(3) by (simp add: unat_of_nat)
      then show ?thesis
        using preupload_begin [of name n md5 u io cfg fs] ok(2,3) None idle Begin
        by (force simp: l s)
    next
      case (Send bs)
      then show ?thesis
        using None idle by (simp add: l s handle_upload_frame_def client_frame_def frame_text_def)
    next
      case Finish
      then show ?thesis using None idle by (simp add: l s handle_uploaddone_def)
    next
      case Abort
      then show ?thesis using None idle by (simp add: l s handle_uploadcancel_def)
    qed
  next
    case (Some f)
    with shape have act: "u_active u" by simp
    show ?thesis
    proof (cases c)
      case (Begin name n md5)
      then show ?thesis
        using Some act by (simp add: l s handle_preupload_def client_begin_def)
    next
      case (Send bs)
      then show ?thesis
        using frame_accepted [of u f bs io fs] ok Some act by (force simp: l s)
    next
      case Finish
      then show ?thesis
        using Some act by (cases "handle_uploaddone io cfg (u, fs)" rule: prod_cases3)
          (auto simp: l s elim: handle_uploaddone_cases)
    next
      case Abort
      then show ?thesis
        using Some act by (cases "handle_uploadcancel io (u, fs)" rule: prod_cases3)
          (auto simp: l s elim: handle_uploadcancel_cases)
    qed
  qed
qed

interpretation upload_session: refining_machine good_call "\<lambda>l s. snd (client_call cfg l s)"
    "upload_inv cfg" session_of session_step for cfg
  by unfold_locales (fact upload_inv_call session_call)+

end
