(* ===== verification/Upload_Run.thy ===== *)
theory Upload_Run
  imports Upload_Inv
begin

text \<open>
  Runs of the upload protocol: arbitrary sequences of the four commands with arbitrary argument
  texts, in arbitrary environments. Two invariants are kept by them, each an instance of
  \<open>invariant_machine\<close>: \<open>upload_inv\<close> (where no write falls short), and \<open>confined\<close> (always), which
  says that the only files the protocol touches lie directly in the upload directory.
\<close>

section \<open>Any sequence of commands\<close>

text \<open>
  The four commands with arbitrary argument texts. The invariant holds after every sequence of
  them, so the properties of a single call below hold in every reachable state.
\<close>

datatype upload_cmd = PreUpload string | UploadFrame string | UploadDone | UploadCancel

fun upload_call :: "Config \<Rightarrow> io \<times> upload_cmd \<Rightarrow> UploadState \<times> fs \<Rightarrow> string \<times> UploadState \<times> fs" where
  "upload_call cfg (io, PreUpload arg) s = handle_preupload io cfg arg s"
| "upload_call cfg (io, UploadFrame arg) s = handle_upload_frame io arg s"
| "upload_call cfg (io, UploadDone) s = handle_uploaddone io cfg s"
| "upload_call cfg (io, UploadCancel) s = handle_uploadcancel io s"

definition upload_run :: "Config \<Rightarrow> (io \<times> upload_cmd) list \<Rightarrow> UploadState \<times> fs \<Rightarrow> UploadState \<times> fs" where
  "upload_run cfg ls s = fold (\<lambda>l s. snd (upload_call cfg l s)) ls s"

lemma upload_inv_any_call:
  assumes "io_writes_ok (fst l)" "upload_inv cfg s"
  shows "upload_inv cfg (snd (upload_call cfg l s))"
proof -
  obtain io c u fs where l: "l = (io, c)" and s: "s = (u, fs)" by (cases l; cases s)
  then show ?thesis
    using assms upload_inv_preupload upload_inv_frame upload_inv_done upload_inv_cancel
    by (cases c) auto
qed

interpretation upload_calls: invariant_machine "\<lambda>l. io_writes_ok (fst l)"
    "\<lambda>l s. snd (upload_call cfg l s)" "upload_inv cfg" for cfg
  by unfold_locales (fact upload_inv_any_call)

lemma upload_inv_new [simp]: "upload_inv cfg (UploadState_new, fs)"
  by (rule upload_inv_closed) (simp_all add: UploadState_new_def)

lemma upload_inv_reachable:
  "list_all (\<lambda>l. io_writes_ok (fst l)) ls \<Longrightarrow> upload_inv cfg (upload_run cfg ls (UploadState_new, fs))"
  unfolding upload_run_def by (rule upload_calls.inv_run) simp_all

section \<open>The files a run can touch\<close>

definition in_dir :: "string \<Rightarrow> string \<Rightarrow> bool" where
  "in_dir dir p \<longleftrightarrow>
     (\<exists>name. CHR ''/'' \<notin> set name \<and> name \<noteq> ''..'' \<and> c_str p = c_str (dir @ ''/'' @ name))"

definition confined :: "Config \<Rightarrow> fs \<Rightarrow> UploadState \<times> fs \<Rightarrow> bool" where
  "confined cfg fs0 = (\<lambda>(u, fs).
     fs_wf fs \<and> (u_active u \<longrightarrow> u_file u \<noteq> None) \<and>
     (\<forall>q. \<not> in_dir (cfg_upload_dir cfg) q \<longrightarrow> fs_lookup fs q = fs_lookup fs0 q) \<and>
     (\<forall>f. u_file u = Some f \<longrightarrow>
        u_tmp_path u = upload_tmp_path cfg (u_filename u) \<and> safe_filename (u_filename u) \<and>
        fs_names fs (c_str (u_tmp_path u)) = Some (st_inode f)))"

lemma in_dir_tmp: "safe_filename name \<Longrightarrow> in_dir (cfg_upload_dir cfg) (upload_tmp_path cfg name)"
  unfolding in_dir_def upload_tmp_path_def
  by (intro exI [of _ "''upload_'' @ name @ ''.tmp''"]) (simp add: safe_filename_def)

lemma in_dir_final: "safe_filename name \<Longrightarrow> in_dir dir (dir @ ''/'' @ name)"
  unfolding in_dir_def by (intro exI [of _ name]) (auto simp: safe_filename_def)

lemma in_dir_cong: "c_str p = c_str q \<Longrightarrow> in_dir dir p = in_dir dir q"
  by (simp add: in_dir_def)

lemma confined_outside:
  "confined cfg fs0 (u, fs) \<Longrightarrow> \<not> in_dir (cfg_upload_dir cfg) q \<Longrightarrow> fs_lookup fs q = fs_lookup fs0 q"
  by (simp add: confined_def)

lemma fopen_wb_names: "fopen_wb io fs p = (Some f, fs') \<Longrightarrow> fs_names fs' (c_str p) = Some (st_inode f)"
  by (auto simp: fopen_wb_def Let_def split: if_splits option.splits)

lemma confined_preupload:
  assumes "confined cfg fs0 (u, fs)" "handle_preupload io cfg arg (u, fs) = (reply, u', fs')"
  shows "confined cfg fs0 (u', fs')"
  using assms(2)
proof (cases rule: handle_preupload_cases)
  case refused
  with assms(1) show ?thesis by simp
next
  case (opened name n md5 f)
  have name: "safe_filename name" using opened(3) by (auto simp: preupload_fields_Inr)
  have "fs_lookup fs' q = fs_lookup fs0 q" if "\<not> in_dir (cfg_upload_dir cfg) q" for q
  proof -
    have "c_str q \<noteq> c_str (upload_tmp_path cfg name)"
      using that in_dir_tmp [OF name] in_dir_cong by metis
    then show ?thesis
      using fopen_wb_other [OF _ opened(4)] assms(1) that by (simp add: confined_def)
  qed
  with assms(1) name opened(4,5) fs_wf_fopen [OF _ opened(4)] fopen_wb_names [OF opened(4)]
  show ?thesis by (simp add: confined_def)
qed

lemma confined_frame:
  assumes "confined cfg fs0 (u, fs)" "handle_upload_frame io arg (u, fs) = (reply, u', fs')"
  shows "confined cfg fs0 (u', fs')"
  using assms(2)
proof (cases rule: handle_upload_frame_cases)
  case refused
  with assms(1) show ?thesis by simp
next
  case (stored f crc bin)
  have "st_inode (snd (fwrite io f bin)) = st_inode f" by (simp add: fwrite_def Let_def)
  with stored(3) show ?thesis
    by (cases rule: store_frame_cases) (use assms(1) stored in \<open>auto simp: confined_def\<close>)
qed

text \<open>Closing the stream and removing the temporary name, or moving it to the final one.\<close>

lemma confined_remove:
  assumes "confined cfg fs0 (u, fs)" "u_file u = Some f" "u_file u' = None" "\<not> u_active u'"
  shows "confined cfg fs0 (u', unlink io (fclose io fs f) (u_tmp_path u))"
proof -
  have c: "fs_wf fs" "safe_filename (u_filename u)" "u_tmp_path u = upload_tmp_path cfg (u_filename u)"
    "fs_names fs (c_str (u_tmp_path u)) = Some (st_inode f)"
    using assms(1,2) by (auto simp: confined_def)
  have "fs_lookup (unlink io (fclose io fs f) (u_tmp_path u)) q = fs_lookup fs0 q"
    if out: "\<not> in_dir (cfg_upload_dir cfg) q" for q
  proof -
    have "c_str q \<noteq> c_str (u_tmp_path u)"
      using out in_dir_tmp [OF c(2), of cfg] c(3) in_dir_cong by metis
    then show ?thesis
      using fclose_other [OF c(1,4)] confined_outside [OF assms(1) out] by (simp add: fs_lookup_unlink)
  qed
  with assms(3,4) fs_wf_unlink [OF fs_wf_fclose [OF c(1)]] show ?thesis by (simp add: confined_def)
qed

lemma confined_move:
  assumes "confined cfg fs0 (u, fs)" "u_file u = Some f" "u_file u' = None" "\<not> u_active u'"
    and mv: "rename io (fclose io fs f) (u_tmp_path u) (cfg_upload_dir cfg @ ''/'' @ u_filename u) = (ok, fs')"
  shows "confined cfg fs0 (u', fs')"
proof -
  have c: "fs_wf fs" "safe_filename (u_filename u)" "u_tmp_path u = upload_tmp_path cfg (u_filename u)"
    "fs_names fs (c_str (u_tmp_path u)) = Some (st_inode f)"
    using assms(1,2) by (auto simp: confined_def)
  have "fs_lookup fs' q = fs_lookup fs0 q" if out: "\<not> in_dir (cfg_upload_dir cfg) q" for q
  proof -
    have q: "c_str q \<noteq> c_str (u_tmp_path u)" "c_str q \<noteq> c_str (cfg_upload_dir cfg @ ''/'' @ u_filename u)"
      using out in_dir_tmp [OF c(2), of cfg] c(3) in_dir_final [OF c(2)] in_dir_cong by metis+
    then show ?thesis
      using rename_other [OF mv] fclose_other [OF c(1,4)] confined_outside [OF assms(1) out] by simp
  qed
  with assms(3,4) fs_wf_rename [OF fs_wf_fclose [OF c(1)] mv] show ?thesis by (simp add: confined_def)
qed

lemma confined_done:
  assumes "confined cfg fs0 (u, fs)" "handle_uploaddone io cfg (u, fs) = (reply, u', fs')"
  shows "confined cfg fs0 (u', fs')"
  using assms(2)
  by (cases rule: handle_uploaddone_cases)
     (use assms(1) confined_remove confined_move in auto)

lemma confined_cancel:
  assumes "confined cfg fs0 (u, fs)" "handle_uploadcancel io (u, fs) = (reply, u', fs')"
  shows "confined cfg fs0 (u', fs')"
proof (cases "u_active u")
  case False
  with assms show ?thesis by (simp add: handle_uploadcancel_def)
next
  case True
  then obtain f where "u_file u = Some f" using assms(1) by (auto simp: confined_def)
  with True assms show ?thesis
    by (auto simp: handle_uploadcancel_def Let_def intro!: confined_remove)
qed

lemma confined_call:
  assumes "confined cfg fs0 s"
  shows "confined cfg fs0 (snd (upload_call cfg l s))"
proof -
  obtain io c u fs where l: "l = (io, c)" and s: "s = (u, fs)" by (cases l; cases s)
  obtain reply u' fs' where r: "upload_call cfg l s = (reply, u', fs')" by (rule prod_cases3)
  note inv = assms [unfolded s]
  have "confined cfg fs0 (u', fs')"
  proof (cases c)
    case (PreUpload arg)
    with r l s show ?thesis by (intro confined_preupload [OF inv]) simp
  next
    case (UploadFrame arg)
    with r l s show ?thesis by (intro confined_frame [OF inv]) simp
  next
    case UploadDone
    with r l s show ?thesis by (intro confined_done [OF inv]) simp
  next
    case UploadCancel
    with r l s show ?thesis by (intro confined_cancel [OF inv]) simp
  qed
  with r show ?thesis by simp
qed

interpretation upload_confinement: invariant_machine "\<lambda>l. True"
    "\<lambda>l s. snd (upload_call cfg l s)" "confined cfg fs0" for cfg fs0
  by unfold_locales (rule confined_call)

lemma confined_new: "fs_wf fs \<Longrightarrow> confined cfg fs (UploadState_new, fs)"
  by (simp add: confined_def UploadState_new_def)

lemma confined_reachable:
  "fs_wf fs \<Longrightarrow> confined cfg fs (upload_run cfg ls (UploadState_new, fs))"
  unfolding upload_run_def by (rule upload_confinement.inv_run) (simp_all add: confined_new list_all_iff)

end
