(* ===== verification/Upload_Props.thy ===== *)
theory Upload_Props
  imports Upload_Run
begin

text \<open>
  The properties of the upload protocol: the complete exchange, what a positive reply guarantees,
  the rejection of damaged frames, the cleanup on failure, the acceptance of \<open>AT+PREUPLOAD\<close>, and
  the behaviours that a reader of the documentation would not expect.
\<close>

section \<open>Finishing a session\<close>

lemma upload_inv_open:
  assumes "upload_inv cfg (u, fs)" "u_file u = Some f"
  shows "u_active u" "md5_wf (u_md5_ctx u)" "u_tmp_path u = upload_tmp_path cfg (u_filename u)"
    "safe_filename (u_filename u)" "md5_text (u_expected_md5 u)"
    "md5_eqv (u_md5_ctx u) (MD5_update MD5_new (st_buf f))"
    "u_received u = of_nat (length (st_buf f))" "fs_staged fs (u_tmp_path u) f (st_buf f)"
  using assms by (auto simp: upload_inv_def upload_shape_def upload_sync_def)

lemma upload_inv_digest:
  assumes "upload_inv cfg (u, fs)" "u_file u = Some f"
  shows "MD5_hex (u_md5_ctx u) = md5_compute (st_buf f)"
  using upload_inv_open [OF assms] by (simp add: md5_compute_def md5d.out_eqv MD5_update_wf)

lemma finish_any:
  assumes inv: "upload_inv cfg (u, fs)" and io: "\<forall>p q. io_rename io p q"
    and s: "session_of (u, fs) = Receiving name n (md5_compute data) data" "n = length data"
    and n: "n < 2 ^ 64"
  obtains u' fs' where
    "handle_uploaddone io cfg (u, fs) =
       (''OK '' @ name @ '' '' @ dec_str n @ '' '' @ md5_compute data, u', fs')"
    and "fs_lookup fs' (cfg_upload_dir cfg @ ''/'' @ name) = Some (take (io_flush io n) data)"
    and "session_of (u', fs') = Idle"
proof -
  obtain f where f: "u_file u = Some f" using s(1) by (cases "u_file u") auto
  have u: "u_filename u = name" "unat (u_expected_size u) = n" "u_expected_md5 u = md5_compute data"
    "st_buf f = data" using s(1) f by auto
  note o = upload_inv_open [OF inv f] and dig = upload_inv_digest [OF inv f]
  have "u_expected_size u = of_nat n" using u(2) by (metis of_nat_unat ucast_id)
  then have rec: "u_received u = u_expected_size u" using o(7) u(4) s(2) by simp
  have "unat (u_received u) = n" using rec u(2) by simp
  obtain reply u' fs' where d: "handle_uploaddone io cfg (u, fs) = (reply, u', fs')"
    by (rule prod_cases3)
  have "fs_lookup (fclose io fs f) (u_tmp_path u) = Some (take (io_flush io n) data)"
    using o(8) u(4) s(2) by (simp add: fs_staged_def fs_lookup_def fclose_def Let_def)
  moreover from this obtain fs1 where mv:
      "rename io (fclose io fs f) (u_tmp_path u) (cfg_upload_dir cfg @ ''/'' @ name) = (True, fs1)"
    using io by (auto simp: rename_def fs_lookup_def split: option.splits)
  ultimately have "fs_lookup fs1 (cfg_upload_dir cfg @ ''/'' @ name) = Some (take (io_flush io n) data)"
    using fs_store.mv_look [OF mv] by simp
  moreover have "reply = ''OK '' @ name @ '' '' @ dec_str n @ '' '' @ md5_compute data"
      "fs' = fs1" "u_file u' = None"
    using d f o(1) rec dig u \<open>unat (u_received u) = n\<close> mv
    by (auto simp: handle_uploaddone_def Let_def UploadState_reset_def)
  ultimately show ?thesis using that d by simp
qed

lemma finish_complete:
  assumes inv: "upload_inv cfg (u, fs)" and io: "io_writes_ok io" "\<forall>p q. io_rename io p q"
    and s: "session_of (u, fs) = Receiving name n (md5_compute data) data" "n = length data"
    and n: "n < 2 ^ 64"
  obtains u' fs' where
    "handle_uploaddone io cfg (u, fs) =
       (''OK '' @ name @ '' '' @ dec_str n @ '' '' @ md5_compute data, u', fs')"
    and "fs_lookup fs' (cfg_upload_dir cfg @ ''/'' @ name) = Some data"
    and "session_of (u', fs') = Idle"
proof -
  have "take (io_flush io n) data = data" using io(1) s(2) by (simp add: io_writes_ok_def)
  then show ?thesis using finish_any [OF inv io(2) s n] that by metis
qed


section \<open>The complete exchange\<close>

lemma xdigits_MD5_hex: "list_all is_xdigit (MD5_hex c)"
  using fmt_02x_xdigits by (auto simp: MD5_hex_def list_all_iff)

lemma md5_text_compute: "md5_text (md5_compute data)"
  by (simp add: md5_text_def md5_compute_def MD5_hex_length xdigits_MD5_hex)

definition client_sends :: "(io \<times> byte list) list \<Rightarrow> (io \<times> client_op) list" where
  "client_sends sends = map (\<lambda>(e, bs). (e, Send bs)) sends"

lemma session_sends:
  "fold session_step (client_sends sends) (Receiving name n md5 bs) =
     Receiving name n md5 (bs @ concat (map snd sends))"
  by (induction sends arbitrary: bs) (auto simp: client_sends_def)

text \<open>
  C1: the complete exchange works. From any idle state, a client that announces a valid file name,
  the size and the MD5 of its data, sends the data in frames cut as it likes, and finishes, gets
  \<open>OK <file> <size> <md5>\<close>; the file under its final name then holds exactly the data, and the
  session is closed. (The environments of the calls may differ; none of them fails a call.)
\<close>

theorem upload_end_to_end:
  assumes idle: "\<not> u_active u" "u_file u = None" "md5_wf (u_md5_ctx u)"
    and data: "data = concat (map snd sends)" "0 < length data" "length data < 2 ^ 64"
    and calls: "list_all good_call
      ((io0, Begin name (length data) (md5_compute data)) # client_sends sends)"
    and last: "io_writes_ok io1" "\<forall>p q. io_rename io1 p q"
  shows "\<exists>u' fs'. handle_uploaddone io1 cfg
      (fold (\<lambda>l s. snd (client_call cfg l s))
         ((io0, Begin name (length data) (md5_compute data)) # client_sends sends) (u, fs))
      = (''OK '' @ name @ '' '' @ dec_str (length data) @ '' '' @ md5_compute data, u', fs')
    \<and> fs_lookup fs' (cfg_upload_dir cfg @ ''/'' @ name) = Some data
    \<and> session_of (u', fs') = Idle"
proof -
  let ?ls = "(io0, Begin name (length data) (md5_compute data)) # client_sends sends"
  let ?s = "fold (\<lambda>l s. snd (client_call cfg l s)) ?ls (u, fs)"
  have inv0: "upload_inv cfg (u, fs)" using idle by (rule upload_inv_closed)
  have inv: "upload_inv cfg ?s"
    by (rule upload_session.inv_run [OF calls inv0])
  have "session_of ?s = fold session_step ?ls (session_of (u, fs))"
    by (rule upload_session.abst_run [OF calls inv0])
  then have ses: "session_of ?s = Receiving name (length data) (md5_compute data) data"
    using idle(2) data(1) by (simp add: session_sends)
  obtain u1 fs1 where s: "?s = (u1, fs1)" by fastforce
  show ?thesis
    unfolding s by (rule finish_complete [OF inv [unfolded s] last ses [unfolded s] refl data(3)]) blast
qed

theorem upload_end_to_end_witness:
  "\<exists>u' fs'. handle_uploaddone io_all_ok Config_default
      (fold (\<lambda>l s. snd (client_call Config_default l s))
         ((io_all_ok, Begin ''fw.bin'' 3 (md5_compute [1, 2, 3]))
            # client_sends [(io_all_ok, [1, 2]), (io_all_ok, [3])]) (UploadState_new, fs_empty))
      = (''OK '' @ ''fw.bin'' @ '' '' @ dec_str 3 @ '' '' @ md5_compute [1, 2, 3], u', fs')
    \<and> fs_lookup fs' (cfg_upload_dir Config_default @ ''/'' @ ''fw.bin'') = Some [1, 2, 3]
    \<and> session_of (u', fs') = Idle"
proof -
  have name: "safe_filename ''fw.bin''" by (simp add: safe_filename_def)
  have idle: "\<not> u_active UploadState_new" "u_file UploadState_new = None"
    "md5_wf (u_md5_ctx UploadState_new)" by (simp_all add: UploadState_new_def)
  have data: "[1, 2, 3] = concat (map snd [(io_all_ok, [1, 2]), (io_all_ok, [3 :: byte])])" by simp
  have calls: "list_all good_call
      ((io_all_ok, Begin ''fw.bin'' (length [1, 2, 3 :: byte]) (md5_compute [1, 2, 3]))
        # client_sends [(io_all_ok, [1, 2]), (io_all_ok, [3])])"
    using name by (simp add: good_call_def client_sends_def md5_text_compute)
  show ?thesis
    using upload_end_to_end [OF idle data _ _ calls, of io_all_ok Config_default fs_empty]
    by (simp add: numeral_3_eq_3)
qed

section \<open>What a positive reply guarantees\<close>

text \<open>
  C2: as long as no write falls short, a positive reply to \<open>AT+UPLOADDONE\<close> is a guarantee. After any
  sequence of upload commands with any argument texts (well-formed or not), in each of which the C
  library takes every byte it is given and flushes every byte it holds (other calls, \<open>fopen\<close>, \<open>rename\<close>
  and \<open>unlink\<close>, may fail), if \<open>AT+UPLOADDONE\<close> answers OK then the file under its final name holds data
  with the announced MD5 and the announced size (modulo the width of the counter) and the session is
  closed. The condition is needed: after a short write or a short flush OK does not mean this
  (\<open>short_write_retry_corrupts\<close> and \<open>lost_flush_unnoticed\<close> below).
\<close>

theorem uploaddone_ok_sound:
  assumes calls: "list_all (\<lambda>l. io_writes_ok (fst l)) ls"
    and s: "upload_run cfg ls (UploadState_new, fs0) = (u, fs)"
    and io: "io_writes_ok io"
    and ok: "handle_uploaddone io cfg (u, fs) = (reply, u', fs')" "take 2 reply = ''OK''"
  shows "\<exists>data. fs_lookup fs' (cfg_upload_dir cfg @ ''/'' @ u_filename u) = Some data
    \<and> md5_compute data = u_expected_md5 u \<and> of_nat (length data) = u_expected_size u
    \<and> session_of (u', fs') = Idle"
proof -
  have inv: "upload_inv cfg (u, fs)" using upload_inv_reachable [OF calls] s by metis
  from ok(1) show ?thesis
  proof (cases rule: handle_uploaddone_cases)
    case (saved f)
    note o = upload_inv_open [OF inv saved(2)]
    have "fs_lookup fs' (cfg_upload_dir cfg @ ''/'' @ u_filename u) = Some (st_buf f)"
      by (rule fs_store.commit [OF io o(8) saved(6)])
    then show ?thesis
      using saved o(7) upload_inv_digest [OF inv saved(2)] by simp
  next
    case (failed f)
    then have "take 2 (take 5 reply) = ''ER''" by simp
    with ok(2) show ?thesis by (simp add: min_def)
  qed (use ok(2) in auto)
qed

lemma one_frame_session:
  assumes "safe_filename name" "CHR '','' \<notin> set name" "0 < length bs" "length bs < 2 ^ 32"
    and "upload_run cfg [(io_all_ok, PreUpload (client_begin name (length bs) (md5_compute bs))),
      (io_all_ok, UploadFrame (client_frame bs))] (UploadState_new, fs0) = (u, fs)"
  obtains f where "upload_inv cfg (u, fs)" "u_file u = Some f" "u_filename u = name"
    "session_of (u, fs) = Receiving name (length bs) (md5_compute bs) bs"
proof -
  let ?ls = "[(io_all_ok, Begin name (length bs) (md5_compute bs)), (io_all_ok, Send bs)]"
  have calls: "list_all good_call ?ls"
    using assms(1-4) by (simp add: good_call_def md5_text_compute)
  have s: "fold (\<lambda>l s. snd (client_call cfg l s)) ?ls (UploadState_new, fs0) = (u, fs)"
    using assms(5) by (simp add: upload_run_def)
  have "session_of (u, fs) = Receiving name (length bs) (md5_compute bs) bs"
    using upload_session.abst_run [OF calls, of cfg "(UploadState_new, fs0)"] s
    by (simp add: UploadState_new_def [THEN arg_cong [where f = u_file]])
  moreover have "upload_inv cfg (u, fs)"
    using upload_session.inv_run [OF calls, of cfg "(UploadState_new, fs0)"] s by simp
  ultimately show ?thesis using that by (cases "u_file u") auto
qed

text \<open>A concrete run, for the witnesses: three bytes are announced and received.\<close>

definition three_bytes :: "(io \<times> upload_cmd) list" where
  "three_bytes =
     [(io_all_ok, PreUpload (client_begin ''fw'' (length [1, 2, 3 :: byte]) (md5_compute [1, 2, 3]))),
      (io_all_ok, UploadFrame (client_frame [1, 2, 3]))]"

lemma three_bytes_received:
  obtains u fs f where "upload_run Config_default three_bytes (UploadState_new, fs_empty) = (u, fs)"
    "upload_inv Config_default (u, fs)" "u_file u = Some f"
    "session_of (u, fs) = Receiving ''fw'' (length [1, 2, 3 :: byte]) (md5_compute [1, 2, 3]) [1, 2, 3]"
proof -
  obtain u fs where run: "upload_run Config_default three_bytes (UploadState_new, fs_empty) = (u, fs)"
    by fastforce
  have len: "0 < length [1, 2, 3 :: byte]" "length [1, 2, 3 :: byte] < 2 ^ 32" by simp_all
  show ?thesis
    by (rule one_frame_session [OF _ _ len run [unfolded three_bytes_def]])
       (use that [OF run] in \<open>simp_all add: safe_filename_def\<close>)
qed

theorem uploaddone_ok_sound_witness:
  "\<exists>(u :: UploadState) u' fs' data. fs_lookup fs' (cfg_upload_dir Config_default @ ''/'' @ u_filename u) = Some data
    \<and> md5_compute data = u_expected_md5 u \<and> of_nat (length data) = u_expected_size u
    \<and> session_of (u', fs') = Idle"
proof -
  obtain u fs f where run: "upload_run Config_default three_bytes (UploadState_new, fs_empty) = (u, fs)"
    and inv: "upload_inv Config_default (u, fs)" and f: "u_file u = Some f"
    and ses: "session_of (u, fs) = Receiving ''fw'' (length [1, 2, 3 :: byte]) (md5_compute [1, 2, 3]) [1, 2, 3]"
    by (rule three_bytes_received)
  obtain u' fs' where d: "handle_uploaddone io_all_ok Config_default (u, fs) =
      (''OK '' @ ''fw'' @ '' '' @ dec_str (length [1, 2, 3 :: byte]) @ '' '' @ md5_compute [1, 2, 3], u', fs')"
    by (rule finish_complete [where io = io_all_ok, OF inv _ _ ses]) auto
  have calls: "list_all (\<lambda>l. io_writes_ok (fst l)) three_bytes" by (simp add: three_bytes_def)
  have ok: "take 2 (''OK '' @ ''fw'' @ '' '' @ dec_str (length [1, 2, 3 :: byte]) @ '' '' @ md5_compute [1, 2, 3]) = ''OK''"
    by simp
  from uploaddone_ok_sound [OF calls run io_all_ok_writes d ok] show ?thesis
    by blast
qed

section \<open>A session, call by call\<close>

text \<open>
  C25: the handlers implement the abstract session. After any sequence of well-formed client calls
  from an idle daemon, the session that the daemon's state represents is the one the abstract
  steps compute: begin opens it unless one is open, a frame appends its bytes, finish and abort
  close it.
\<close>

theorem session_refined:
  assumes "list_all good_call ls" "\<not> u_active u" "u_file u = None" "md5_wf (u_md5_ctx u)"
  shows "session_of (fold (\<lambda>l s. snd (client_call cfg l s)) ls (u, fs)) = fold session_step ls Idle"
  using upload_session.abst_run [OF assms(1) upload_inv_closed [OF assms(2-4)]] assms(3) by simp

theorem session_refined_witness:
  "session_of (fold (\<lambda>l s. snd (client_call Config_default l s))
      [(io_all_ok, Send [7]), (io_all_ok, Begin ''a.bin'' 2 (md5_compute [])),
       (io_all_ok, Begin ''b.bin'' 2 (md5_compute [])), (io_all_ok, Send [8, 9]),
       (io_all_ok, Send [10])] (UploadState_new, fs_empty))
   = Receiving ''a.bin'' 2 (md5_compute []) [8, 9, 10]"
proof -
  have calls: "list_all good_call
      [(io_all_ok, Send [7]), (io_all_ok, Begin ''a.bin'' 2 (md5_compute [])),
       (io_all_ok, Begin ''b.bin'' 2 (md5_compute [])), (io_all_ok, Send [8, 9]), (io_all_ok, Send [10])]"
    by (simp add: good_call_def md5_text_compute safe_filename_def)
  show ?thesis
    by (subst session_refined [OF calls]) (simp_all add: UploadState_new_def)
qed

section \<open>Damaged frames\<close>

text \<open>
  C14: a damaged frame is rejected and can be sent again. When the bits of the data a frame carries
  differ from the data its checksum was computed for inside a window of at most 16 bits, the reply
  is the CRC error and nothing but the frame counter changes; sending the undamaged frame next is
  then accepted.
\<close>

theorem damaged_frame_rejected:
  assumes opened: "upload_inv cfg (u, fs)" "u_file u = Some f"
    and damage: "msg_bits sent = p @ m @ s" "msg_bits got = p @ n @ s" "m \<noteq> n"
      "length m = length n" "length m \<le> 16"
    and len: "length sent < 2 ^ 32" and io: "io_writes_ok io"
  shows "(\<exists>reply. handle_upload_frame io (frame_text got (crc16_compute sent)) (u, fs)
        = (''ERROR CRC mismatch frame '' @ reply, u\<lparr>u_frame_count := u_frame_count u + 1\<rparr>, fs))
    \<and> (\<exists>u'. handle_upload_frame io (client_frame sent) (u\<lparr>u_frame_count := u_frame_count u + 1\<rparr>, fs)
        = (''OK '' @ dec_str (unat (u_received u + of_nat (length sent))), u', fs))"
proof -
  have act: "u_active u" using upload_inv_open(1) [OF opened] .
  have "length (msg_bits got) = length (msg_bits sent)" using damage by simp
  then have l: "length got < 2 ^ 32" using len by simp
  have neq: "crc16_compute got \<noteq> crc16_compute sent"
    using crc16_window [OF damage(2,1)] damage(3-5) by auto
  obtain reply u' where st: "store_frame io (fmt_04X (crc16_compute sent)) got f u = (reply, u')"
    by fastforce
  then have damaged: "\<exists>reply. handle_upload_frame io (frame_text got (crc16_compute sent)) (u, fs)
        = (''ERROR CRC mismatch frame '' @ reply, u\<lparr>u_frame_count := u_frame_count u + 1\<rparr>, fs)"
    by (cases rule: store_frame_cases)
       (use neq handle_frame_text [OF act opened(2) l, of io "crc16_compute sent" fs] st
         in \<open>auto simp: crc_text_matches\<close>)
  let ?u = "u\<lparr>u_frame_count := u_frame_count u + 1\<rparr>"
  have "u_active ?u" "u_file ?u = Some f" using act opened(2) by simp_all
  from frame_accepted [OF this len io, of fs]
  have "\<exists>u'. handle_upload_frame io (client_frame sent) (?u, fs)
        = (''OK '' @ dec_str (unat (u_received ?u + of_nat (length sent))), u', fs)" by metis
  with damaged show ?thesis by simp
qed

theorem damaged_frame_rejected_witness:
  "\<exists>u fs. (\<exists>reply. handle_upload_frame io_all_ok (frame_text [0x12, 0x44] (crc16_compute [0x12, 0x34])) (u, fs)
        = (''ERROR CRC mismatch frame '' @ reply, u\<lparr>u_frame_count := u_frame_count u + 1\<rparr>, fs))
    \<and> (\<exists>u'. handle_upload_frame io_all_ok (client_frame [0x12, 0x34]) (u\<lparr>u_frame_count := u_frame_count u + 1\<rparr>, fs)
        = (''OK '' @ dec_str (unat (u_received u + 2)), u', fs))"
proof -
  obtain u fs where run: "upload_run Config_default
      [(io_all_ok, PreUpload (client_begin ''fw'' (length [1, 2, 3 :: byte]) (md5_compute [1, 2, 3]))),
      (io_all_ok, UploadFrame (client_frame [1, 2, 3]))] (UploadState_new, fs_empty) = (u, fs)"
    by fastforce
  have len: "0 < length [1, 2, 3 :: byte]" "length [1, 2, 3 :: byte] < 2 ^ 32" by simp_all
  obtain f where inv: "upload_inv Config_default (u, fs)" "u_file u = Some f"
    by (rule one_frame_session [OF _ _ len run]) (simp_all add: safe_filename_def)
  have bits: "msg_bits [0x12, 0x34] = msg_bits [0x12] @ [False, False, True, True] @ [False, True, False, False]"
    "msg_bits [0x12, 0x44] = msg_bits [0x12] @ [False, True, False, False] @ [False, True, False, False]"
    by (simp_all add: msg_bits_def byte_bits_def)
  from damaged_frame_rejected [OF inv bits] show ?thesis
    by (intro exI [of _ u] exI [of _ fs]) simp
qed

section \<open>What \<open>AT+PREUPLOAD\<close> accepts\<close>

text \<open>
  C32: \<open>AT+PREUPLOAD\<close> opens a session exactly when none is open, its argument is
  \<open><file>,<size>,<md5>\<close> with a file name of 1 to 255 characters without comma, slash and dot-dot, a
  decimal size that is not 0 (after the conversion to 64 bits), 32 hexadecimal digits, and the
  temporary file can be created; in every other case it answers with an error and changes nothing.
\<close>

theorem preupload_accepts_iff:
  "if \<not> u_active u
      \<and> (\<exists>name sz md5. arg = name @ CHR '','' # sz @ CHR '','' # md5
          \<and> CHR '','' \<notin> set name \<and> safe_filename name \<and> list_all is_digit sz
          \<and> strtoul_10 sz \<noteq> 0 \<and> md5_text md5 \<and> io_create io (c_str (upload_tmp_path cfg name)))
   then \<exists>u' fs'. handle_preupload io cfg arg (u, fs) = (''OK READY'', u', fs') \<and> u_active u'
   else \<exists>err. handle_preupload io cfg arg (u, fs) = (''ERROR'' @ err, u, fs)"
proof -
  obtain reply u' fs' where h: "handle_preupload io cfg arg (u, fs) = (reply, u', fs')"
    by (rule prod_cases3)
  have create: "fopen_wb io fs p = (Some f, fs1) \<Longrightarrow> io_create io (c_str p)" for p f fs1
    by (auto simp: fopen_wb_def split: if_splits)
  from h show ?thesis
  proof (cases rule: handle_preupload_cases)
    case refused
    have False if "\<not> u_active u" "arg = name @ CHR '','' # sz @ CHR '','' # md5"
        "CHR '','' \<notin> set name" "safe_filename name" "list_all is_digit sz"
        "strtoul_10 sz \<noteq> 0" "md5_text md5" "io_create io (c_str (upload_tmp_path cfg name))"
      for name sz md5
    proof -
      note valid = that
      have "preupload_fields arg = Inr (name, strtoul_10 sz, md5)"
        using that comma_not_digit by (auto simp: preupload_fields_Inr)
      moreover obtain f fs1 where "fopen_wb io fs (upload_tmp_path cfg name) = (Some f, fs1)"
        using fopen_wb_ok [OF valid(8)] by blast
      ultimately have "reply = ''OK READY''"
        using h valid(1,2) by (simp add: handle_preupload_def)
      with refused(1) show False by simp
    qed
    moreover have "reply = ''ERROR'' @ drop 5 reply"
      using refused(1) append_take_drop_id [of 5 reply] by simp
    ultimately show ?thesis using h refused by auto
  next
    case (opened name n md5 f)
    then obtain sz where "arg = name @ CHR '','' # sz @ CHR '','' # md5"
        "CHR '','' \<notin> set name" "safe_filename name" "list_all is_digit sz" "strtoul_10 sz \<noteq> 0" "md5_text md5"
      by (auto simp: preupload_fields_Inr)
    with opened create [OF opened(4)] h show ?thesis by auto
  qed
qed

section \<open>Failure and abort clean up\<close>

lemma fs_lookup_staged_unlink:
  assumes "fs_wf fs" "fs_staged fs p f bs" "c_str q \<noteq> c_str p"
  shows "fs_lookup (unlink io (fclose io fs f) p) q = fs_lookup fs q"
  using assms fclose_other [OF assms(1) _ assms(3)] by (simp add: fs_lookup_unlink fs_staged_def)

text \<open>
  C23: a failed or cancelled upload leaves nothing behind. In every session that satisfies the
  invariant (every session in which no write fell short), when \<open>AT+UPLOADDONE\<close> answers with an error
  (size, MD5 or rename) or \<open>AT+UPLOADCANCEL\<close> is called, the temporary file is gone if the system lets
  it be removed (the code does not look at the result of \<open>unlink\<close>), every other file (a previous
  firmware of the same name included) is untouched, and the session is closed.
\<close>

theorem failed_upload_cleans_up:
  assumes "upload_inv cfg (u, fs)" "u_file u = Some f" "fs_wf fs"
    and "handle_uploaddone io cfg (u, fs) = (reply, u', fs') \<and> take 5 reply = ''ERROR'' \<or>
      handle_uploadcancel io (u, fs) = (reply, u', fs')"
  shows "(io_unlink io (c_str (u_tmp_path u)) \<longrightarrow> fs_lookup fs' (u_tmp_path u) = None)
    \<and> (\<forall>q. c_str q \<noteq> c_str (u_tmp_path u) \<longrightarrow> fs_lookup fs' q = fs_lookup fs q)
    \<and> session_of (u', fs') = Idle \<and> \<not> u_active u'"
proof -
  note o = upload_inv_open [OF assms(1,2)]
  have "fs' = unlink io (fclose io fs f) (u_tmp_path u) \<and> u_file u' = None \<and> \<not> u_active u'"
    using assms(4)
  proof
    assume "handle_uploaddone io cfg (u, fs) = (reply, u', fs') \<and> take 5 reply = ''ERROR''"
    then have "handle_uploaddone io cfg (u, fs) = (reply, u', fs')" "take 5 reply = ''ERROR''"
      by blast+
    then show ?thesis
      by (cases rule: handle_uploaddone_cases) (use assms(2) o(1) in auto)
  next
    assume "handle_uploadcancel io (u, fs) = (reply, u', fs')"
    then show ?thesis
      using assms(2) o(1) by (auto simp: handle_uploadcancel_def Let_def)
  qed
  then show ?thesis
    using fs_lookup_staged_unlink [OF assms(3) o(8)] by (simp add: fs_lookup_unlink)
qed

theorem failed_upload_cleans_up_witness:
  "\<exists>u fs u' fs'. handle_uploadcancel io_all_ok (u, fs) = (''OK'', u', fs')
    \<and> fs_lookup fs' (u_tmp_path u) = None
    \<and> (\<forall>q. c_str q \<noteq> c_str (u_tmp_path u) \<longrightarrow> fs_lookup fs' q = fs_lookup fs q)
    \<and> session_of (u', fs') = Idle \<and> \<not> u_active u'"
proof -
  obtain u fs f where run: "upload_run Config_default three_bytes (UploadState_new, fs_empty) = (u, fs)"
    and inv: "upload_inv Config_default (u, fs)" and f: "u_file u = Some f"
    and ses: "session_of (u, fs) = Receiving ''fw'' (length [1, 2, 3 :: byte]) (md5_compute [1, 2, 3]) [1, 2, 3]"
    by (rule three_bytes_received)
  have wf: "fs_wf fs"
    using confined_reachable [of fs_empty Config_default three_bytes] run by (simp add: confined_def)
  obtain u' fs' where c: "handle_uploadcancel io_all_ok (u, fs) = (''OK'', u', fs')"
    using upload_inv_open(1) [OF inv f] f by (auto simp: handle_uploadcancel_def Let_def)
  from failed_upload_cleans_up [OF inv f wf disjI2, OF c] c show ?thesis by fastforce
qed

section \<open>Behaviour at the edges\<close>

text \<open>
  The announced MD5 is accepted in either letter case but compared with the lower case
  digest, so a session opened with an upper case digit in the MD5 can never be completed: whatever
  was sent, \<open>AT+UPLOADDONE\<close> answers with an error.
\<close>

theorem uppercase_md5_never_completes:
  assumes "c \<in> set (u_expected_md5 u)" "c \<in> set ''ABCDEF''" "u_active u" "u_file u = Some f"
  shows "\<exists>err u' fs'. handle_uploaddone io cfg (u, fs) = (''ERROR'' @ err, u', fs')"
proof -
  have "c \<notin> set (fmt_02x b)" for b
    using fmt_02x_lower [of c b] assms(2) by blast
  then have "c \<notin> set (MD5_hex (u_md5_ctx u))" by (auto simp: MD5_hex_def)
  with assms(1) have "MD5_hex (u_md5_ctx u) \<noteq> u_expected_md5 u" by auto
  then show ?thesis
    using assms(3,4) by (auto simp: handle_uploaddone_def Let_def)
qed

theorem uppercase_md5_never_completes_witness:
  "\<exists>err u' fs'. handle_uploaddone io_all_ok Config_default
     (UploadState_new\<lparr>u_active := True, u_file := Some \<lparr>st_inode = 0, st_buf = []\<rparr>,
        u_expected_md5 := ''D41D8CD98F00B204E9800998ECF8427E''\<rparr>, fs_empty) = (''ERROR'' @ err, u', fs')"
  by (rule uppercase_md5_never_completes [where c = "CHR ''D''"]) simp_all

text \<open>
  Frame data that is not hexadecimal is not rejected: the digits that cannot be read count as
  0. The frame \<open>zz,E1F0,1\<close> is handled exactly as the well-formed frame that carries one zero byte.
\<close>

theorem non_hex_frame_accepted:
  assumes "u_active u" "u_file u = Some f"
  shows "handle_upload_frame io ''zz,E1F0,1'' (u, fs) = handle_upload_frame io (client_frame [0]) (u, fs)"
proof -
  have crc: "crc16_compute [0] = 0xE1F0"
    by (simp add: crc16_eval)
  have printed: "fmt_04X 0xE1F0 = ''E1F0''" "dec_str 1 = ''1''" "fmt_02x 0 = ''00''"
    by (simp_all add: fmt_04X_def fmt_02x_def hex_char_upper_def hex_char_lower_def dec_str.simps
        digit_char_def char_of_def bit_0)
  have "decode_hex ''zz'' 1 = decode_hex ''00'' 1"
    by (simp add: decode_hex_def sscanf_2x_def cstr_simps
        hex_value_def xdigit_val_def)
  then have same: "frame_reply io ''zz'' ''E1F0'' ''1'' f s = frame_reply io ''00'' ''E1F0'' ''1'' f s" for s
    by (cases s) (simp add: frame_reply_def Let_def cong: if_cong)
  have "handle_upload_frame io (hex @ CHR '','' # ''E1F0'' @ CHR '','' # ''1'') (u, fs) =
      frame_reply io hex ''E1F0'' ''1'' f (u, fs)" for hex
    by (rule handle_upload_frame_fields [OF assms]) simp_all
  from this [of "''zz''"] this [of "''00''"] same show ?thesis
    by (simp add: client_frame_def frame_text_def crc printed [simplified])
qed

theorem non_hex_frame_accepted_witness:
  "handle_upload_frame io_all_ok ''zz,E1F0,1''
      (UploadState_new\<lparr>u_active := True, u_file := Some \<lparr>st_inode = 0, st_buf = []\<rparr>\<rparr>, fs_empty)
   = handle_upload_frame io_all_ok (client_frame [0])
      (UploadState_new\<lparr>u_active := True, u_file := Some \<lparr>st_inode = 0, st_buf = []\<rparr>\<rparr>, fs_empty)"
  by (rule non_hex_frame_accepted) simp_all

section \<open>Files outside the upload directory\<close>

text \<open>
  C22: whatever is sent, the upload commands do not touch a file outside the upload directory: after
  any sequence of calls with any argument texts in any environment (failing writes included), a path
  that does not name an entry directly in that directory looks up the same as before.
\<close>

theorem upload_stays_in_dir:
  assumes "fs_wf fs" "\<not> in_dir (cfg_upload_dir cfg) q"
  shows "fs_lookup (snd (upload_run cfg ls (UploadState_new, fs))) q = fs_lookup fs q"
  using confined_reachable [OF assms(1), of cfg ls] assms(2)
  by (auto intro: confined_outside [where u = "fst (upload_run cfg ls (UploadState_new, fs))"])

theorem upload_stays_in_dir_witness:
  "fs_lookup (snd (upload_run Config_default
      [(io_all_ok, PreUpload ''../../etc/passwd,3,900150983cd24fb0d6963f7d28e17f72''),
       (io_all_ok, UploadFrame ''616263,514A,3''), (io_all_ok, UploadDone)]
      (UploadState_new, fs_empty))) ''/etc/passwd'' = fs_lookup fs_empty ''/etc/passwd''"
  by (rule upload_stays_in_dir) (simp_all add: in_dir_def Config_default_def cstr_simps)

text \<open>A write that falls short leaves its bytes in the stream and nothing anywhere else.\<close>

lemma frame_short_write:
  assumes "u_active u" "u_file u = Some f" "length bs < 2 ^ 32" "io_write io (length bs) = k" "k < length bs"
  shows "handle_upload_frame io (client_frame bs) (u, fs) =
     (''ERROR: write failed'', u\<lparr>u_file := Some (f\<lparr>st_buf := st_buf f @ take k bs\<rparr>)\<rparr>, fs)"
proof -
  have w: "fwrite io f bs = (k, f\<lparr>st_buf := st_buf f @ take k bs\<rparr>)"
    using assms(4,5) by (simp add: fwrite_def)
  obtain reply u' where st: "store_frame io (fmt_04X (crc16_compute bs)) bs f u = (reply, u')"
    by fastforce
  then show ?thesis
    by (cases rule: store_frame_cases)
       (use handle_frame_text [OF assms(1-3), of io "crc16_compute bs" fs] st w assms(5)
         in \<open>auto simp: client_frame_def crc_text_matches\<close>)
qed

text \<open>
  C31: what a short write does, and why OK is a guarantee only without one. A frame whose write fell
  short must not be sent again: the bytes the stream did accept stay in it, while the counter and the MD5 context do not know them: when the only frame of an upload
  is cut to \<open>k\<close> bytes, sent again and the upload finished, the daemon answers OK with the right MD5,
  and the stored file is the cut frame followed by the whole one.
\<close>

theorem short_write_retry_corrupts:
  assumes inv: "upload_inv cfg (u, fs)"
    and s: "session_of (u, fs) = Receiving name (length bs) (md5_compute bs) []"
    and len: "length bs < 2 ^ 32"
    and short: "io_write io0 (length bs) = k" "k < length bs"
    and io: "io_writes_ok io1" "\<forall>p q. io_rename io1 p q"
  shows "\<exists>u1 fs1 u2 fs2 u3 fs3.
     handle_upload_frame io0 (client_frame bs) (u, fs) = (''ERROR: write failed'', u1, fs1)
   \<and> handle_upload_frame io1 (client_frame bs) (u1, fs1) = (''OK '' @ dec_str (length bs), u2, fs2)
   \<and> handle_uploaddone io1 cfg (u2, fs2)
       = (''OK '' @ name @ '' '' @ dec_str (length bs) @ '' '' @ md5_compute bs, u3, fs3)
   \<and> fs_lookup fs3 (cfg_upload_dir cfg @ ''/'' @ name) = Some (take k bs @ bs)"
proof -
  obtain f where f: "u_file u = Some f" using s by (cases "u_file u") auto
  note o = upload_inv_open [OF inv f]
  have u: "u_filename u = name" "unat (u_expected_size u) = length bs" "u_expected_md5 u = md5_compute bs"
    "st_buf f = []" using s f by auto
  have zero: "u_received u = 0" using o(7) u(4) by simp
  have size: "u_expected_size u = of_nat (length bs)" using u(2) by (metis of_nat_unat ucast_id)
  let ?f1 = "f\<lparr>st_buf := take k bs\<rparr>"
  let ?u1 = "u\<lparr>u_file := Some ?f1\<rparr>"
  have 1: "handle_upload_frame io0 (client_frame bs) (u, fs) = (''ERROR: write failed'', ?u1, fs)"
    using frame_short_write [OF o(1) f len short, of fs] u(4) by simp
  obtain u2 f2 where 2: "handle_upload_frame io1 (client_frame bs) (?u1, fs) =
       (''OK '' @ dec_str (unat (u_received ?u1 + of_nat (length bs))), u2, fs)"
    and u2: "u2 = ?u1\<lparr>u_file := Some f2, u_md5_ctx := MD5_update (u_md5_ctx ?u1) bs,
               u_received := u_received ?u1 + of_nat (length bs), u_frame_count := u_frame_count ?u1 + 1\<rparr>"
    and f2: "f2 = snd (fwrite io1 ?f1 bs)"
    by (rule frame_accepted [of ?u1 ?f1 bs io1 fs]) (use o(1) len io(1) in auto)
  have n: "unat (of_nat (length bs) :: 64 word) = length bs"
    using size u(2) by simp
  have "fs_staged fs (u_tmp_path u) ?f1 (take k bs)"
    using o(8) by (simp add: fs_staged_def)
  then have staged: "fs_staged fs (u_tmp_path u) f2 (take k bs @ bs)"
    unfolding f2 by (rule fs_store.wr_good_staged [OF io(1)])
  have "fs_names (fclose io1 fs f2) (c_str (u_tmp_path u)) = Some (st_inode f2)"
    using staged by (simp add: fs_staged_def)
  then obtain fs3 where mv:
      "rename io1 (fclose io1 fs f2) (u_tmp_path u) (cfg_upload_dir cfg @ ''/'' @ name) = (True, fs3)"
    using io(2) by (simp add: rename_def)
  have "MD5_hex (MD5_update (u_md5_ctx u) bs) = md5_compute bs"
    unfolding md5_compute_def
    by (rule md5d.out_eqv)
       (use md5d.step_eqv [OF o(2) md5_wf_new, of "[]" bs] o(2,6) u(4) in \<open>simp_all add: MD5_update_wf\<close>)
  then have 3: "\<exists>u3. handle_uploaddone io1 cfg (u2, fs)
       = (''OK '' @ name @ '' '' @ dec_str (length bs) @ '' '' @ md5_compute bs, u3, fs3)"
    using o(1) u size zero mv n by (simp add: u2 handle_uploaddone_def Let_def)
  have 4: "fs_lookup fs3 (cfg_upload_dir cfg @ ''/'' @ name) = Some (take k bs @ bs)"
    by (rule fs_store.commit [OF io(1) staged mv])
  from 1 2 3 4 zero n show ?thesis by auto
qed

theorem short_write_retry_corrupts_witness:
  "\<exists>(u :: UploadState) fs u1 fs1 u2 fs2 u3 fs3.
     handle_upload_frame (io_all_ok\<lparr>io_write := \<lambda>n. n - 1\<rparr>) (client_frame [5, 6]) (u, fs)
       = (''ERROR: write failed'', u1, fs1)
   \<and> handle_upload_frame io_all_ok (client_frame [5, 6]) (u1, fs1) = (''OK '' @ dec_str (length [5, 6 :: byte]), u2, fs2)
   \<and> handle_uploaddone io_all_ok Config_default (u2, fs2)
       = (''OK '' @ ''fw'' @ '' '' @ dec_str (length [5, 6 :: byte]) @ '' '' @ md5_compute [5, 6], u3, fs3)
   \<and> fs_lookup fs3 (cfg_upload_dir Config_default @ ''/'' @ ''fw'') = Some (take 1 [5, 6] @ [5, 6])"
proof -
  let ?bs = "[5, 6 :: byte]" and ?short = "io_all_ok\<lparr>io_write := \<lambda>n. n - 1\<rparr>"
  let ?ls = "[(io_all_ok, Begin ''fw'' (length ?bs) (md5_compute ?bs))]"
  have calls: "list_all good_call ?ls"
    by (simp add: good_call_def md5_text_compute safe_filename_def)
  obtain u fs where s: "fold (\<lambda>l s. snd (client_call Config_default l s)) ?ls (UploadState_new, fs_empty) = (u, fs)"
    by fastforce
  have inv: "upload_inv Config_default (u, fs)"
    using upload_session.inv_run [OF calls, of Config_default "(UploadState_new, fs_empty)"] s by simp
  have ses: "session_of (u, fs) = Receiving ''fw'' (length ?bs) (md5_compute ?bs) []"
    using upload_session.abst_run [OF calls, of Config_default "(UploadState_new, fs_empty)"] s
    by (simp add: UploadState_new_def [THEN arg_cong [where f = u_file]])
  have len: "length ?bs < 2 ^ 32" and short: "io_write ?short (length ?bs) = 1" "1 < length ?bs" by simp_all
  have io: "\<forall>p q. io_rename io_all_ok p q" by simp
  show ?thesis
    by (rule exI [of _ u], rule exI [of _ fs], rule short_write_retry_corrupts [OF inv ses len short io_all_ok_writes io])
qed

text \<open>
  What the last write loses is not noticed. The stream keeps data until it is closed, and the
  result of \<open>fclose\<close> is ignored: when all data was received and the disk takes only a part of what is
  written then, \<open>AT+UPLOADDONE\<close> answers OK with the size and the MD5 of all data, and the file that is
  stored holds that part. So a guarantee about OK has to ask that writes succeed.
\<close>

theorem lost_flush_unnoticed:
  assumes "upload_inv cfg (u, fs)" "\<forall>p q. io_rename io p q"
    and "session_of (u, fs) = Receiving name (length data) (md5_compute data) data" "length data < 2 ^ 64"
  shows "\<exists>u' fs'. handle_uploaddone io cfg (u, fs) =
       (''OK '' @ name @ '' '' @ dec_str (length data) @ '' '' @ md5_compute data, u', fs')
    \<and> fs_lookup fs' (cfg_upload_dir cfg @ ''/'' @ name) = Some (take (io_flush io (length data)) data)"
  by (rule finish_any [OF assms(1-3) refl assms(4)]) blast

theorem lost_flush_unnoticed_witness:
  "\<exists>(u :: UploadState) fs u' fs'. handle_uploaddone (io_all_ok\<lparr>io_flush := \<lambda>n. n - 1\<rparr>) Config_default (u, fs) =
       (''OK '' @ ''fw'' @ '' '' @ dec_str (length [1, 2, 3 :: byte]) @ '' '' @ md5_compute [1, 2, 3], u', fs')
    \<and> fs_lookup fs' (cfg_upload_dir Config_default @ ''/'' @ ''fw'') = Some [1, 2]"
proof -
  obtain u fs f where run: "upload_run Config_default three_bytes (UploadState_new, fs_empty) = (u, fs)"
    and inv: "upload_inv Config_default (u, fs)" and f: "u_file u = Some f"
    and ses: "session_of (u, fs) = Receiving ''fw'' (length [1, 2, 3 :: byte]) (md5_compute [1, 2, 3]) [1, 2, 3]"
    by (rule three_bytes_received)
  have "\<forall>p q. io_rename (io_all_ok\<lparr>io_flush := \<lambda>n. n - 1\<rparr>) p q" by simp
  from lost_flush_unnoticed [OF inv this ses] show ?thesis by auto
qed

end
