(* ===== verification/Lock.thy ===== *)
theory Lock
  imports Machine
begin

text \<open>
  The global session lock of \<open>src/serial_daemon.cpp\<close>: one atomic \<open>owner_\<close> changed only by
  compare-and-swap and exchange. Each operation is one atomic step on the owner.

  \<open>session_lock\<close> is what the two daemons rely on: a free lock goes to whoever asks first, the
  holder keeps it until its own release or a forced one.
\<close>

section \<open>The code\<close>

datatype Owner = NONE | HTTP | SERIAL

definition try_acquire :: "Owner \<Rightarrow> Owner \<Rightarrow> bool \<times> Owner" where
  "try_acquire who owner = (if owner = NONE then (True, who) else (False, owner))"

definition release :: "Owner \<Rightarrow> Owner \<Rightarrow> Owner" where
  "release who owner = (if owner = who then NONE else owner)"

definition force_release :: "Owner \<Rightarrow> Owner" where
  "force_release owner = NONE"

definition is_busy :: "Owner \<Rightarrow> bool" where
  "is_busy owner \<longleftrightarrow> owner \<noteq> NONE"

section \<open>The contract of a session lock\<close>

datatype 'w lock_op = Acquire 'w | Release 'w | Force

fun releases :: "'w \<Rightarrow> 'w lock_op \<Rightarrow> bool" where
  "releases w (Release v) \<longleftrightarrow> v = w"
| "releases w Force \<longleftrightarrow> True"
| "releases w (Acquire v) \<longleftrightarrow> False"

locale session_lock =
  fixes client :: "'w \<Rightarrow> bool"
    and acq :: "'w \<Rightarrow> 's \<Rightarrow> bool \<times> 's"
    and rel :: "'w \<Rightarrow> 's \<Rightarrow> 's"
    and force :: "'s \<Rightarrow> 's"
    and holds :: "'w \<Rightarrow> 's \<Rightarrow> bool"
  assumes acq_ok: "client w \<Longrightarrow> acq w s = (True, s') \<Longrightarrow> holds w s'"
    and acq_fail: "acq w s = (False, s') \<Longrightarrow> s' = s"
    and acq_free: "client w \<Longrightarrow> fst (acq w s) \<longleftrightarrow> (\<forall>v. client v \<longrightarrow> \<not> holds v s)"
    and exclusive: "client v \<Longrightarrow> client w \<Longrightarrow> holds v s \<Longrightarrow> holds w s \<Longrightarrow> v = w"
    and rel_other: "client v \<Longrightarrow> client w \<Longrightarrow> v \<noteq> w \<Longrightarrow> holds w s \<Longrightarrow> holds w (rel v s)"
    and rel_own: "client w \<Longrightarrow> client v \<Longrightarrow> holds w s \<Longrightarrow> \<not> holds v (rel w s)"
    and force_free: "client w \<Longrightarrow> \<not> holds w (force s)"
begin

fun exec :: "'w lock_op \<Rightarrow> 's \<Rightarrow> 's" where
  "exec (Acquire w) s = snd (acq w s)"
| "exec (Release w) s = rel w s"
| "exec Force s = force s"

fun client_op :: "'w lock_op \<Rightarrow> bool" where
  "client_op (Acquire w) \<longleftrightarrow> client w"
| "client_op (Release w) \<longleftrightarrow> client w"
| "client_op Force \<longleftrightarrow> True"

lemma held_acq: "client v \<Longrightarrow> client w \<Longrightarrow> holds w s \<Longrightarrow> snd (acq v s) = s"
  using acq_free acq_fail by (metis (full_types) prod.collapse)

lemma held_step:
  "client w \<Longrightarrow> client_op a \<Longrightarrow> \<not> releases w a \<Longrightarrow> holds w s \<Longrightarrow> holds w (exec a s)"
  by (cases a) (auto simp: held_acq rel_other)

lemma held_run:
  assumes "client w" "list_all (\<lambda>a. client_op a \<and> \<not> releases w a) as" "holds w s"
  shows "holds w (fold exec as s)"
  using assms(2,3)
  by (induction as arbitrary: s) (auto intro: held_step [OF assms(1)])

lemma held_run_excludes:
  assumes "client w" "list_all (\<lambda>a. client_op a \<and> \<not> releases w a) as" "holds w s"
    and "client v" "v \<noteq> w"
  shows "\<not> fst (acq v (fold exec as s)) \<and> \<not> holds v (fold exec as s)"
  using held_run [OF assms(1-3)] assms(1,4,5) acq_free exclusive by blast

end

definition lock_client :: "Owner \<Rightarrow> bool" where
  "lock_client w \<longleftrightarrow> w \<noteq> NONE"

interpretation daemon_lock: session_lock lock_client try_acquire release force_release "(=)"
  by unfold_locales
     (auto simp: lock_client_def try_acquire_def release_def force_release_def intro: Owner.exhaust
       split: if_splits)

section \<open>Properties\<close>

definition lock_exec :: "Owner lock_op \<Rightarrow> Owner \<Rightarrow> Owner" where
  "lock_exec a owner =
     (case a of Acquire w \<Rightarrow> snd (try_acquire w owner)
              | Release w \<Rightarrow> release w owner
              | Force \<Rightarrow> force_release owner)"

definition lock_op_ok :: "Owner lock_op \<Rightarrow> bool" where
  "lock_op_ok a = (case a of Acquire w \<Rightarrow> lock_client w | Release w \<Rightarrow> lock_client w | Force \<Rightarrow> True)"

lemma lock_exec_eq: "lock_exec a = daemon_lock.exec a"
  by (cases a) (simp_all add: lock_exec_def fun_eq_iff)

lemma lock_op_ok_eq: "lock_op_ok a = daemon_lock.client_op a"
  by (cases a) (simp_all add: lock_op_ok_def)

text \<open>
  The session lock is preemption-free: once a side has acquired it, any sequence of acquire
  attempts (by anyone) and releases (by the other side) leaves it with that side, and the other
  side's next attempt fails; only its own release or a forced one frees it.
\<close>

theorem lock_kept_by_owner:
  assumes "lock_client w" "fst (try_acquire w owner)"
    and "list_all (\<lambda>a. lock_op_ok a \<and> \<not> releases w a) as"
    and "lock_client v" "v \<noteq> w"
  shows "fold lock_exec as (snd (try_acquire w owner)) = w
    \<and> \<not> fst (try_acquire v (fold lock_exec as (snd (try_acquire w owner))))"
proof -
  have held: "w = snd (try_acquire w owner)"
    using daemon_lock.acq_ok [OF assms(1)] assms(2) by (metis (full_types) prod.collapse)
  have ops: "list_all (\<lambda>a. daemon_lock.client_op a \<and> \<not> releases w a) as"
    using assms(3) by (simp add: lock_op_ok_eq)
  show ?thesis
    unfolding lock_exec_eq
    using daemon_lock.held_run [OF assms(1) ops held]
      daemon_lock.held_run_excludes [OF assms(1) ops held assms(4,5)] by simp
qed

theorem lock_kept_by_owner_witness:
  "fold lock_exec [Acquire SERIAL, Release SERIAL, Acquire HTTP] (snd (try_acquire HTTP NONE)) = HTTP
    \<and> \<not> fst (try_acquire SERIAL
        (fold lock_exec [Acquire SERIAL, Release SERIAL, Acquire HTTP] (snd (try_acquire HTTP NONE))))"
  by (rule lock_kept_by_owner) (simp_all add: lock_client_def try_acquire_def lock_op_ok_def)

end
