(* ===== verification/Flash.thy ===== *)
theory Flash
  imports Config
begin

text \<open>
  Asynchronous flashing, \<open>src/at_handler/handler_flash.cpp\<close>: \<open>AT+FLASH\<close> starts a worker thread that
  runs a script, \<open>AT+TRYFLASHDONE\<close> polls it, both over one function-local static \<open>FlashOp\<close>.

  The worker is a state machine of its statements (\<open>worker_step\<close>); \<open>running\<close>, \<open>done\<close>, the exit code
  and the output are written one by one, so a poll can fall between any two of them. A call of a
  handler by the command thread is one step, split where it waits in \<open>join\<close>. Outcomes of the
  operating system (\<open>popen\<close>, the output of the script, its wait status, the clock) are labels.

  Assigning a thread to \<open>op.worker\<close> while it is joinable calls \<open>std::terminate\<close>; the model has the
  process state \<open>Terminated\<close> for that.
\<close>

section \<open>The code\<close>

text \<open>
  \<open>WaitWorker pc\<close>: a thread that has not returned yet, about to execute the statement \<open>pc\<close>;
  \<open>Returned\<close>: it has returned and was not joined. Both are joinable.
\<close>

datatype worker_pc = AtRunning | AtStart | AtPopen | AtRead | AtClose | AtDone | AtRunningOff

datatype worker = NotJoinable | Active worker_pc | Returned

record FlashOp =
  f_worker :: worker
  f_running :: bool
  f_done :: bool
  f_exit_code :: int
  f_output :: string
  f_cmd :: string
  f_start_time :: int

definition FlashOp_new :: FlashOp where
  "FlashOp_new =
     \<lparr>f_worker = NotJoinable, f_running = False, f_done = False, f_exit_code = - 1,
      f_output = [], f_cmd = [], f_start_time = 0\<rparr>"

definition ASYNC_TIMEOUT_SEC :: int where
  "ASYNC_TIMEOUT_SEC = 60"

text \<open>\<open>WEXITSTATUS\<close> of a wait status.\<close>

definition WEXITSTATUS :: "int \<Rightarrow> int" where
  "WEXITSTATUS status = status div 256 mod 256"

text \<open>
  What the operating system does to the worker: nothing to say (\<open>Step\<close>), the time, a refused or
  granted \<open>popen\<close>, a line of output (with the bytes \<open>fgets\<close> stored), the end of the output, the wait
  status of \<open>pclose\<close>, an exception (\<open>std::bad_alloc\<close>) while the output is collected.
\<close>

datatype worker_event = Step | Clock int | PopenFails | PopenOk | Line string | Eof | WaitStatus int | Throws

definition is_newline :: "char \<Rightarrow> bool" where
  "is_newline c \<longleftrightarrow> c = CHR 0x0A \<or> c = CHR 0x0D"

text \<open>
  \<open>async_flash_worker\<close>, statement by statement (lines 61 to 91); an event that does not fit the
  statement is not enabled. The exception handler ends in the same three assignments.
\<close>

fun worker_step :: "worker_event \<Rightarrow> FlashOp \<Rightarrow> FlashOp option" where
  "worker_step e op =
     (case (f_worker op, e) of
        (Active AtRunning, Step) \<Rightarrow> Some (op\<lparr>f_running := True, f_worker := Active AtStart\<rparr>)
      | (Active AtStart, Clock t) \<Rightarrow> Some (op\<lparr>f_start_time := t, f_worker := Active AtPopen\<rparr>)
      | (Active AtPopen, PopenFails) \<Rightarrow> Some (op\<lparr>f_worker := Active AtDone\<rparr>)
      | (Active AtPopen, PopenOk) \<Rightarrow> Some (op\<lparr>f_worker := Active AtRead\<rparr>)
      | (Active AtRead, Line s) \<Rightarrow> Some (op\<lparr>f_output := f_output op @ c_str s\<rparr>)
      | (Active AtRead, Eof) \<Rightarrow>
          Some (op\<lparr>f_output := trim_right is_newline (f_output op), f_worker := Active AtClose\<rparr>)
      | (Active AtRead, Throws) \<Rightarrow> Some (op\<lparr>f_exit_code := - 1, f_worker := Active AtDone\<rparr>)
      | (Active AtClose, WaitStatus ret) \<Rightarrow>
          Some (op\<lparr>f_exit_code := WEXITSTATUS ret, f_worker := Active AtDone\<rparr>)
      | (Active AtDone, Step) \<Rightarrow> Some (op\<lparr>f_done := True, f_worker := Active AtRunningOff\<rparr>)
      | (Active AtRunningOff, Step) \<Rightarrow> Some (op\<lparr>f_running := False, f_worker := Returned\<rparr>)
      | _ \<Rightarrow> None)"

text \<open>The parsing of \<open>AT+FLASH\<close> (lines 100 to 140): the error reply, or the shell command.\<close>

definition FLASH_SCRIPTS :: "(string \<times> string) list" where
  "FLASH_SCRIPTS =
     [(''ASSETS'', ''flash_assets.sh''), (''FULL'', ''flash_full.sh''), (''PARTIAL'', ''flash_partial.sh'')]"

fun join_names :: "string \<Rightarrow> string list \<Rightarrow> string" where
  "join_names valid [] = valid"
| "join_names valid (k # ks) = join_names ((if valid = [] then [] else valid @ '', '') @ k) ks"

definition flash_fields :: "Config \<Rightarrow> string \<Rightarrow> string + string" where
  "flash_fields cfg arg =
     (if arg = [] then Inl ''ERROR: AT+FLASH requires <file>[,MODE]''
      else let (filename, mode) =
             (case find_char CHR '','' arg of
                None \<Rightarrow> (arg, ''FULL'')
              | Some comma \<Rightarrow> (substr arg 0 comma, drop (comma + 1) arg))
      in if filename = [] then Inl ''ERROR: AT+FLASH filename cannot be empty''
      else case map_of FLASH_SCRIPTS mode of
        None \<Rightarrow> Inl (''ERROR: unknown flash mode '' @ [CHR 0x27] @ mode @ [CHR 0x27] @ '' (valid: ''
                     @ join_names [] (map fst FLASH_SCRIPTS) @ '')'')
      | Some script \<Rightarrow> Inr (cfg_scripts_dir cfg @ ''/'' @ script @ '' '' @ filename))"

text \<open>
  The result of a handler: a reply, a wait in \<open>join\<close> after which the call goes on, or the end of
  the process.
\<close>

datatype flash_wait = TimeoutJoin | ResultJoin string

datatype flash_result = Reply string FlashOp | Wait flash_wait FlashOp | Terminate

definition handle_flash :: "Config \<Rightarrow> string \<Rightarrow> FlashOp \<Rightarrow> flash_result" where
  "handle_flash cfg arg op =
     (case flash_fields cfg arg of
        Inl err \<Rightarrow> Reply err op
      | Inr cmd \<Rightarrow>
          if f_running op then
            Reply ''ERROR: flash already in progress, use AT+TRYFLASHDONE to poll'' op
          else let op = op\<lparr>f_cmd := cmd, f_done := False, f_output := [], f_exit_code := - 1\<rparr>
          in if f_worker op \<noteq> NotJoinable then Terminate
          else Reply (''OK submitted: '' @ f_cmd op) (op\<lparr>f_worker := Active AtRunning\<rparr>))"

definition flash_result_text :: "FlashOp \<Rightarrow> string" where
  "flash_result_text op =
     (if f_exit_code op = 0 then ''OK '' @ f_cmd op @ '' '' @ f_output op
      else ''ERROR '' @ f_cmd op @ '' failed (exit='' @ dec_str_int (f_exit_code op) @ '') '' @ f_output op)"

definition handle_flashdone :: "int \<Rightarrow> FlashOp \<Rightarrow> flash_result" where
  "handle_flashdone now op =
     (if \<not> f_running op \<and> \<not> f_done op then Reply ''ERROR: no pending flash operation'' op
      else if \<not> f_done op then
        (let elapsed = now - f_start_time op
         in if ASYNC_TIMEOUT_SEC \<le> elapsed then Wait TimeoutJoin op
            else Reply (''RUNNING: '' @ f_cmd op @ '' ('' @ dec_str_int elapsed @ ''/''
                        @ dec_str_int ASYNC_TIMEOUT_SEC @ ''s)'') op)
      else Wait (ResultJoin (flash_result_text op)) op)"

text \<open>
  The rest of the call, once \<open>worker.join()\<close> has returned: the worker has ended (or there was none
  to wait for). \<open>FlashOp::cancel\<close> is the part before the reply of a timeout.
\<close>

definition cancel_joined :: "FlashOp \<Rightarrow> FlashOp" where
  "cancel_joined op = op\<lparr>f_worker := NotJoinable, f_running := False, f_done := True\<rparr>"

definition flashdone_joined :: "flash_wait \<Rightarrow> FlashOp \<Rightarrow> string \<times> FlashOp" where
  "flashdone_joined w op =
     (case w of
        TimeoutJoin \<Rightarrow>
          (''TIMEOUT: flash did not complete within '' @ dec_str_int ASYNC_TIMEOUT_SEC @ ''s'', cancel_joined op)
      | ResultJoin result \<Rightarrow>
          (result, op\<lparr>f_worker := NotJoinable, f_running := False, f_done := False\<rparr>))"

definition can_join :: "FlashOp \<Rightarrow> bool" where
  "can_join op \<longleftrightarrow> f_worker op = NotJoinable \<or> f_worker op = Returned"

section \<open>The two threads together\<close>

datatype flash_proc = Ready FlashOp | Waiting flash_wait FlashOp | Terminated

text \<open>A step, with the reply the command thread gives in it, if any.\<close>

datatype flash_label = Submit string | Poll int | Joined | Work worker_event

inductive flash_step :: "Config \<Rightarrow> flash_proc \<Rightarrow> flash_label \<Rightarrow> string option \<Rightarrow> flash_proc \<Rightarrow> bool"
  for cfg :: Config where
  submit_reply: "handle_flash cfg arg op = Reply r op' \<Longrightarrow> flash_step cfg (Ready op) (Submit arg) (Some r) (Ready op')"
| submit_terminate: "handle_flash cfg arg op = Terminate \<Longrightarrow> flash_step cfg (Ready op) (Submit arg) None Terminated"
| poll_reply: "handle_flashdone now op = Reply r op' \<Longrightarrow> flash_step cfg (Ready op) (Poll now) (Some r) (Ready op')"
| poll_wait: "handle_flashdone now op = Wait w op' \<Longrightarrow> flash_step cfg (Ready op) (Poll now) None (Waiting w op')"
| joined: "can_join op \<Longrightarrow> flashdone_joined w op = (r, op') \<Longrightarrow>
    flash_step cfg (Waiting w op) Joined (Some r) (Ready op')"
| work_ready: "worker_step e op = Some op' \<Longrightarrow> flash_step cfg (Ready op) (Work e) None (Ready op')"
| work_waiting: "worker_step e op = Some op' \<Longrightarrow> flash_step cfg (Waiting w op) (Work e) None (Waiting w op')"

inductive_cases flash_stepE: "flash_step cfg s l r t"

inductive_simps flash_step_terminated: "flash_step cfg Terminated l r t"

text \<open>Runs, with the replies given, and reachability from the start of the daemon.\<close>

inductive flash_run :: "Config \<Rightarrow> flash_proc \<Rightarrow> flash_label list \<Rightarrow> string list \<Rightarrow> flash_proc \<Rightarrow> bool"
  for cfg :: Config where
  stop: "flash_run cfg s [] [] s"
| reply: "flash_step cfg s l (Some r) t \<Longrightarrow> flash_run cfg t ls rs u \<Longrightarrow> flash_run cfg s (l # ls) (r # rs) u"
| silent: "flash_step cfg s l None t \<Longrightarrow> flash_run cfg t ls rs u \<Longrightarrow> flash_run cfg s (l # ls) rs u"

definition flash_reachable :: "Config \<Rightarrow> flash_proc \<Rightarrow> bool" where
  "flash_reachable cfg s \<longleftrightarrow> (\<exists>ls rs. flash_run cfg (Ready FlashOp_new) ls rs s)"

end
