(* ===== verification/Handlers.thy ===== *)
theory Handlers
  imports Md5 Files Config Lock Flash
begin

text \<open>
  The remaining command handlers: \<open>src/at_handler/handler_basic.cpp\<close> (\<open>AT+STATUS\<close>, \<open>AT+RESET\<close>,
  \<open>AT+FORCERESET\<close>, \<open>AT+HELP\<close>, \<open>AT+VERIFY\<close>), \<open>handler_exec.cpp\<close> (\<open>AT+EXEC\<close>) and
  \<open>handler_version.cpp\<close> (\<open>AT+VERSION\<close>, \<open>AT+REBOOT\<close>). Build options and what the operating system
  answers are fields of the environment \<open>env\<close>.
\<close>

section \<open>The environment of one command\<close>

text \<open>
  \<open>e_popen cmd\<close>: None if \<open>popen\<close> fails, otherwise what the successive \<open>fgets\<close> calls store and the
  status of \<open>pclose\<close>. \<open>e_arch\<close> is the text selected by the target macros, \<open>e_build\<close> the date and
  time of compilation.
\<close>

record env =
  e_io :: io
  e_now :: int
  e_uptime :: int
  e_serial_open :: bool
  e_popen :: "string \<Rightarrow> (string list \<times> int) option"
  e_system :: "string \<Rightarrow> int"
  e_allow_rce :: bool
  e_allow_reboot :: bool
  e_version :: string
  e_arch :: string
  e_build :: string

section \<open>The handlers\<close>

definition handle_status :: "env \<Rightarrow> Config \<Rightarrow> Owner \<Rightarrow> string" where
  "handle_status env cfg owner =
     ''OK'' @ '' uptime='' @ dec_str_int (e_uptime env) @ ''s''
       @ '' serial='' @ (if e_serial_open env then ''open'' else ''closed'')
       @ '' busy='' @ (if is_busy owner then ''yes'' else ''no'')
       @ '' device='' @ (if use_serial cfg then cfg_serial_device cfg else ''none'')"

definition handle_reset :: "Owner \<Rightarrow> Owner \<Rightarrow> string \<times> Owner" where
  "handle_reset caller owner =
     (if owner \<noteq> caller then (''ERROR: only the lock owner can reset'', owner)
      else (''OK'', release caller owner))"

definition handle_forcereset :: "Owner \<Rightarrow> string \<times> Owner" where
  "handle_forcereset owner = (''OK'', force_release owner)"

definition dash :: string where
  "dash = [CHR 0xE2, CHR 0x80, CHR 0x94, CHR '' '']"

definition handle_help :: string where
  "handle_help =
     ''OK'' @ '' AT+STATUS                '' @ dash @ ''daemon status''
       @ '' AT+VERSION               '' @ dash @ ''daemon version''
       @ '' AT+RESET                 '' @ dash @ ''release session, reopen port''
       @ '' AT+FORCERESET            '' @ dash @ ''force-release lock (admin override)''
       @ '' AT+FLASH=f[,FULL|PARTIAL|ASSETS....] '' @ dash @ ''submit flash, returns immediately''
       @ '' AT+TRYFLASHDONE            '' @ dash @ ''poll flash result (60s timeout)''
       @ '' AT+EXEC=cmd              '' @ dash @ ''execute command (ENABLE_RCE only)''
       @ '' AT+REBOOT                '' @ dash @ ''reboot device (ENABLE_REBOOT only)''
       @ '' AT+VERIFY=f              '' @ dash @ ''compute MD5 of file''
       @ '' AT+PREUPLOAD=f,n,md5     '' @ dash @ ''begin upload (size + md5)''
       @ '' AT+UPLOAD=data,crc16,len '' @ dash @ ''send frame with CRC16''
       @ '' AT+UPLOADDONE            '' @ dash @ ''finalize, verify MD5''
       @ '' AT+UPLOADCANCEL          '' @ dash @ ''abort current upload''
       @ '' AT+HELP                  '' @ dash @ ''this help''"

text \<open>The loop of \<open>AT+VERIFY\<close>: \<open>fread\<close> fills a buffer of 4096 bytes as far as the file goes.\<close>

function verify_loop :: "MD5 \<Rightarrow> 64 word \<Rightarrow> byte list \<Rightarrow> MD5 \<times> 64 word" where
  "verify_loop md5 tot rest =
     (let buf = take 4096 rest
      in if buf = [] then (md5, tot)
         else verify_loop (MD5_update md5 buf) (tot + of_nat (length buf)) (drop 4096 rest))"
  by pat_completeness auto

termination by (relation "measure (\<lambda>(md5, tot, rest). length rest)") auto

declare verify_loop.simps [simp del]

definition handle_verify :: "io \<Rightarrow> Config \<Rightarrow> string \<Rightarrow> fs \<Rightarrow> string" where
  "handle_verify io cfg arg fs =
     (if arg = [] then ''ERROR: AT+VERIFY requires a filename''
      else if str_contains ''..'' arg then ''ERROR: invalid filename''
      else let filepath = cfg_upload_dir cfg @ ''/'' @ arg
      in case fopen_rb io fs filepath of
           None \<Rightarrow> ''ERROR: cannot open file '' @ [CHR 0x27] @ arg @ [CHR 0x27]
         | Some contents \<Rightarrow>
             (let (md5, tot) = verify_loop MD5_new 0 contents
              in ''OK '' @ MD5_hex md5 @ '' '' @ dec_str (unat tot)))"

definition handle_exec :: "env \<Rightarrow> string \<Rightarrow> string" where
  "handle_exec env arg =
     (if e_allow_rce env then
        (if arg = [] then ''ERROR: AT+EXEC requires a command''
         else case e_popen env (c_str arg) of
           None \<Rightarrow> ''ERROR: failed to execute command''
         | Some (bufs, ret) \<Rightarrow>
             (let output = trim_right is_newline (concat (map c_str bufs));
                  exit_code = WEXITSTATUS ret
              in if exit_code = 0 then ''OK'' @ [CHR 0x0A] @ output
                 else ''ERROR exit='' @ dec_str_int exit_code @ [CHR 0x0A] @ output))
      else ''ERROR: AT+EXEC is disabled (rebuild with -DALLOW_RCE to enable)'')"

definition handle_version :: "env \<Rightarrow> string" where
  "handle_version env =
     ''OK'' @ '' daemon='' @ e_version env @ '' arch='' @ e_arch env @ '' build='' @ e_build env"

definition handle_reboot :: "env \<Rightarrow> string" where
  "handle_reboot env =
     (if e_allow_reboot env then
        (let ret = e_system env ''reboot''
         in if ret = 0 then ''OK rebooting''
         else let ret = e_system env ''shutdown -r now''
         in if ret = 0 then ''OK rebooting''
         else ''ERROR: reboot failed (exit code '' @ dec_str_int ret @ '')'')
      else ''ERROR: AT+REBOOT is disabled (rebuild with -DENABLE_REBOOT=ON)'')"

section \<open>The digest of a file\<close>

lemma verify_loop_chunks:
  "\<exists>xss. concat xss = rest \<and> verify_loop md5 tot rest = (foldl MD5_update md5 xss, tot + of_nat (length rest))"
proof (induction md5 tot rest rule: verify_loop.induct)
  case (1 md5 tot rest)
  show ?case
  proof (cases "rest = []")
    case True
    then show ?thesis by (intro exI [of _ "[]"]) (simp add: verify_loop.simps)
  next
    case False
    let ?buf = "take 4096 rest"
    from False 1 obtain xss where xss: "concat xss = drop 4096 rest"
        "verify_loop (MD5_update md5 ?buf) (tot + of_nat (length ?buf)) (drop 4096 rest) =
           (foldl MD5_update (MD5_update md5 ?buf) xss,
            tot + of_nat (length ?buf) + of_nat (length (drop 4096 rest)))"
      by auto
    have "of_nat (length ?buf) + of_nat (length (drop 4096 rest)) = (of_nat (length rest) :: 64 word)"
      by (metis append_take_drop_id length_append of_nat_add)
    with False xss show ?thesis
      by (intro exI [of _ "?buf # xss"]) (simp add: verify_loop.simps [of md5 tot] add.assoc)
  qed
qed

lemma verify_loop_digest:
  "verify_loop MD5_new 0 contents = (md5, tot) \<Longrightarrow>
     MD5_hex md5 = md5_compute contents \<and> tot = of_nat (length contents)"
  using verify_loop_chunks [of contents MD5_new 0] md5d.out_chunks [OF md5_wf_new]
  by (auto simp: md5_compute_def)

lemma verify_digest:
  assumes "arg \<noteq> []" "\<not> str_contains ''..'' arg"
    and "fopen_rb io fs (cfg_upload_dir cfg @ ''/'' @ arg) = Some contents"
  shows "handle_verify io cfg arg fs =
     ''OK '' @ md5_compute contents @ '' '' @ dec_str (unat (of_nat (length contents) :: 64 word))"
  using assms verify_loop_digest [of contents]
  by (cases "verify_loop MD5_new 0 contents") (simp add: handle_verify_def)

text \<open>
  \<open>AT+VERIFY\<close> reports the MD5 and the size of the whole file: for every file it can open and
  whose name it accepts, whatever its length (the loop reads it in pieces of 4096 bytes), the reply
  is OK, the digest \<open>md5_compute\<close> of the contents, and the length modulo \<open>2^64\<close>.
\<close>

theorem verify_reports_digest:
  assumes "arg \<noteq> []" "\<not> str_contains ''..'' arg"
    and "fopen_rb io fs (cfg_upload_dir cfg @ ''/'' @ arg) = Some contents"
  shows "handle_verify io cfg arg fs =
     ''OK '' @ md5_compute contents @ '' '' @ dec_str (unat (of_nat (length contents) :: 64 word))"
  using assms by (rule verify_digest)

theorem verify_reports_digest_witness:
  "handle_verify io_all_ok Config_default ''a''
     (fs_empty\<lparr>fs_names := [''/tmp/rk_flashd_uploads/a'' \<mapsto> 0], fs_inodes := \<lambda>_. [1, 2, 3]\<rparr>)
   = ''OK '' @ md5_compute [1, 2, 3] @ '' '' @ dec_str (unat (of_nat (length [1, 2, 3 :: byte]) :: 64 word))"
  by (rule verify_reports_digest)
     (simp_all add: fopen_rb_def fs_lookup_def cstr_simps Config_default_def)

end
