(* ===== verification/AtParse.thy ===== *)
theory AtParse
  imports Prelude
begin

text \<open>
  The textual form of a command: the trimming, the prefix test and \<open>parse_at\<close> of
  \<open>src/at_command.cpp\<close>, and the test of \<open>src/http_handler/handler_command.cpp\<close> for the commands that
  bypass the session lock.
\<close>

section \<open>The code\<close>

definition at_trim :: "string \<Rightarrow> string" where
  "at_trim raw_cmd =
     trim_right (\<lambda>c. c = CHR 0x0D \<or> c = CHR 0x0A \<or> c = CHR '' '') raw_cmd"

definition parse_at :: "string \<Rightarrow> (string \<times> string) option" where
  "parse_at cmd =
     (let rest = drop 2 cmd
      in if rest = [] \<or> hd rest \<noteq> CHR ''+'' then None
      else let rest = drop 1 rest;
               (out_cmd, out_arg) =
                 (case find_char CHR ''='' rest of
                    None \<Rightarrow> (rest, [])
                  | Some eq \<Rightarrow> (substr rest 0 eq, drop (eq + 1) rest));
               out_cmd = map to_upper out_cmd
      in if out_cmd = [] then None else Some (out_cmd, out_arg))"

text \<open>The head of \<open>AtCommand::process\<close> (lines 24 to 38): the error reply, or action and argument.\<close>

definition at_request :: "string \<Rightarrow> string + (string \<times> string)" where
  "at_request raw_cmd =
     (let cmd = at_trim raw_cmd
      in if length cmd < 2 \<or> cmd ! 0 \<noteq> CHR ''A'' \<or> cmd ! 1 \<noteq> CHR ''T''
         then Inl ''ERROR: commands must start with AT''
         else case parse_at cmd of
           None \<Rightarrow> Inl ''ERROR: invalid AT command format''
         | Some r \<Rightarrow> Inr r)"

definition bypass_lock :: "string \<Rightarrow> bool" where
  "bypass_lock cmd =
     (if length cmd > 4 \<and> cmd ! 0 = CHR ''A'' \<and> cmd ! 1 = CHR ''T'' \<and> cmd ! 2 = CHR ''+'' then
        (let action = (case find_char_from CHR ''='' cmd 3 of
                         None \<Rightarrow> drop 3 cmd
                       | Some eq \<Rightarrow> substr cmd 3 (eq - 3))
         in action = ''FORCERESET'' \<or> action = ''RESET'')
      else False)"

section \<open>Lemmas\<close>

lemma at_trim_id: "s = [] \<or> last s \<notin> {CHR 0x0D, CHR 0x0A, CHR '' ''} \<Longrightarrow> at_trim s = s"
  by (cases s rule: rev_cases) (auto simp: at_trim_def trim_right_def)

lemma at_trim_tail:
  "set w \<subseteq> {CHR 0x0D, CHR 0x0A, CHR '' ''} \<Longrightarrow> at_trim (s @ w) = at_trim s"
  by (induction w rule: rev_induct) (auto simp: at_trim_def trim_right_def)

lemma parse_at_join:
  assumes "act \<noteq> []" "CHR ''='' \<notin> set act"
  shows "parse_at (''AT+'' @ act @ CHR ''='' # arg) = Some (map to_upper act, arg)"
    and "parse_at (''AT+'' @ act) = Some (map to_upper act, [])"
proof -
  have "find_char CHR ''='' (act @ CHR ''='' # arg) = Some (length act)"
    using assms(2) by simp
  then show "parse_at (''AT+'' @ act @ CHR ''='' # arg) = Some (map to_upper act, arg)"
    using assms(1) by (simp add: parse_at_def substr_def)
  have "find_char CHR ''='' act = None" using assms(2) by simp
  then show "parse_at (''AT+'' @ act) = Some (map to_upper act, [])"
    using assms(1) by (simp add: parse_at_def del: find_char_None)
qed

lemma at_request_join:
  assumes "act \<noteq> []" "CHR ''='' \<notin> set act"
    and "arg = [] \<or> last arg \<notin> {CHR 0x0D, CHR 0x0A, CHR '' ''}"
    and "set w \<subseteq> {CHR 0x0D, CHR 0x0A, CHR '' ''}"
  shows "at_request (''AT+'' @ act @ CHR ''='' # arg @ w) = Inr (map to_upper act, arg)"
proof -
  have "at_trim ((''AT+'' @ act @ CHR ''='' # arg) @ w) = ''AT+'' @ act @ CHR ''='' # arg"
    using assms(3,4) by (simp only: at_trim_tail) (rule at_trim_id, auto)
  then have "at_trim (''AT+'' @ act @ CHR ''='' # arg @ w) = ''AT+'' @ act @ CHR ''='' # arg"
    by simp
  then show ?thesis
    using parse_at_join(1) [OF assms(1,2), of arg] by (simp add: at_request_def)
qed

text \<open>Where a bypassing command is cut: its action is spelled out in capitals.\<close>

lemma bypass_lock_cases:
  assumes "bypass_lock cmd"
  obtains act where "act = ''RESET'' \<or> act = ''FORCERESET''" "cmd = ''AT+'' @ act"
  | act arg where "act = ''RESET'' \<or> act = ''FORCERESET''" "cmd = ''AT+'' @ act @ CHR ''='' # arg"
proof -
  have cmd: "4 < length cmd" "cmd ! 0 = CHR ''A''" "cmd ! 1 = CHR ''T''" "cmd ! 2 = CHR ''+''"
    using assms by (simp_all add: bypass_lock_def split: if_splits)
  obtain a b c r where "cmd = a # b # c # r"
    using cmd(1) by (cases cmd; cases "tl cmd"; cases "tl (tl cmd)") auto
  then have join: "cmd = ''AT+'' @ drop 3 cmd" using cmd by simp
  show ?thesis
  proof (cases "find_char CHR ''='' (drop 3 cmd)")
    case None
    with assms cmd join show ?thesis
      by (intro that(1) [of "drop 3 cmd"])
         (auto simp: bypass_lock_def find_char_from_def simp del: find_char_None)
  next
    case (Some k)
    obtain a b where ab: "drop 3 cmd = a @ CHR ''='' # b" "length a = k"
      using find_char_Some_split [OF Some] by blast
    with assms cmd join Some show ?thesis
      by (intro that(2) [of a b]) (auto simp: bypass_lock_def find_char_from_def substr_def)
  qed
qed

lemma to_upper_reset: "map to_upper ''RESET'' = ''RESET''" "map to_upper ''FORCERESET'' = ''FORCERESET''"
  by (simp_all add: to_upper_def)

lemma trim_right_keep: "\<not> p c \<Longrightarrow> trim_right p (s @ c # t) = s @ c # trim_right p t"
proof (induction t rule: rev_induct)
  case Nil
  then show ?case by (simp add: trim_right_def)
next
  case (snoc x t)
  have "trim_right p ((s @ c # t) @ [x]) = s @ c # trim_right p (t @ [x])"
    using snoc trim_right_snoc [of p "s @ c # t" x] by auto
  then show ?case by simp
qed

lemma at_request_reset:
  assumes "act = ''RESET'' \<or> act = ''FORCERESET''"
  shows "at_request (''AT+'' @ act) = Inr (act, [])"
    and "\<exists>b. at_request (''AT+'' @ act @ CHR ''='' # arg) = Inr (act, b)"
proof -
  have act: "act \<noteq> []" "CHR ''='' \<notin> set act" "map to_upper act = act"
    using assms to_upper_reset by auto
  have "at_trim (''AT+'' @ act) = ''AT+'' @ act"
    by (rule at_trim_id) (use assms in auto)
  then show "at_request (''AT+'' @ act) = Inr (act, [])"
    using parse_at_join(2) [OF act(1,2)] act(3) by (simp add: at_request_def)
  have "at_trim ((''AT+'' @ act) @ CHR ''='' # arg) = (''AT+'' @ act) @ CHR ''='' # at_trim arg"
    unfolding at_trim_def by (rule trim_right_keep) simp
  then have "at_request (''AT+'' @ act @ CHR ''='' # arg) = Inr (act, at_trim arg)"
    using parse_at_join(1) [OF act(1,2), of "at_trim arg"] act(3) by (simp add: at_request_def)
  then show "\<exists>b. at_request (''AT+'' @ act @ CHR ''='' # arg) = Inr (act, b)" by blast
qed

section \<open>Properties\<close>

text \<open>
  Parsing is insensitive to the case of the command word and to white space at the end of the
  line, and splits at the first equals sign only: an action word without \<open>=\<close>, an argument and any
  run of CR, LF and blanks come out as the upper case word and the very argument.
\<close>

theorem at_request_roundtrip:
  assumes "act \<noteq> []" "CHR ''='' \<notin> set act"
    and "arg = [] \<or> last arg \<notin> {CHR 0x0D, CHR 0x0A, CHR '' ''}"
    and "set w \<subseteq> {CHR 0x0D, CHR 0x0A, CHR '' ''}"
  shows "at_request (''AT+'' @ act @ CHR ''='' # arg @ w) = Inr (map to_upper act, arg)"
  using assms by (rule at_request_join)

theorem at_request_roundtrip_witness:
  "at_request (''AT+'' @ ''PreUpload'' @ CHR ''='' # ''a=b,3,00'' @ [CHR 0x0D, CHR 0x0A])
     = Inr (''PREUPLOAD'', ''a=b,3,00'')"
  using at_request_roundtrip [of "''PreUpload''" "''a=b,3,00''" "[CHR 0x0D, CHR 0x0A]"]
  by (simp add: to_upper_def char_of_def bit_0)

text \<open>
  Only the two reset commands bypass the session lock: a request that the HTTP side lets
  through without the lock is parsed by the command processor as RESET or FORCERESET.
\<close>

theorem bypass_only_resets:
  assumes "bypass_lock cmd"
  shows "\<exists>act arg. at_request cmd = Inr (act, arg) \<and> (act = ''RESET'' \<or> act = ''FORCERESET'')"
  using assms by (cases rule: bypass_lock_cases) (use at_request_reset in blast)+

theorem bypass_only_resets_witness:
  "\<exists>act arg. at_request ''AT+FORCERESET=x'' = Inr (act, arg) \<and> (act = ''RESET'' \<or> act = ''FORCERESET'')"
  by (rule bypass_only_resets) (simp add: bypass_lock_def find_char_from_def substr_def)

end
