(* ===== verification/Session.thy ===== *)
theory Session
  imports Lock AtParse
begin

text \<open>
  Ordering and interleaving of the two threads around the session lock: the HTTP thread
  (\<open>handleCommand\<close> of \<open>src/http_handler/handler_command.cpp\<close>, lines 40 to 75, \<open>handleReset\<close>, and the
  debug endpoint of \<open>src/http_server.cpp\<close>) and the serial reader (the loop of
  \<open>src/serial_daemon.cpp\<close>, lines 160 to 184). Every load, compare-and-swap or exchange of the owner is
  one step, so a thread can be overtaken between looking at the owner and acting on it; a command
  that does not touch the lock is one step that leaves the owner alone (its effects are the other
  theories' subject).
\<close>

section \<open>The code\<close>

text \<open>
  Where a thread is. \<open>HFree\<close>, \<open>HHeld\<close>: \<open>is_busy()\<close> was read as false, true; \<open>SDenied\<close>:
  \<open>try_acquire(SERIAL)\<close> failed; \<open>HRun\<close>, \<open>SRun\<close>: \<open>AtCommand::process\<close> was entered; \<open>HReset\<close>, \<open>SReset\<close>:
  inside \<open>handle_reset\<close>, past the ownership test.
\<close>

datatype http_pc = HIdle | HFree string | HHeld string | HRun string | HReset

datatype ser_pc = SIdle | SDenied string | SRun string | SReset

record sess =
  s_owner :: Owner
  s_http :: http_pc
  s_ser :: ser_pc

definition at_action :: "string \<Rightarrow> string" where
  "at_action cmd = (case at_request cmd of Inl _ \<Rightarrow> [] | Inr (act, _) \<Rightarrow> act)"

text \<open>The next step of the HTTP thread, from the request's arrival to the end of its command.\<close>

definition http_arrive :: "string \<Rightarrow> Owner \<Rightarrow> http_pc" where
  "http_arrive cmd owner =
     (if bypass_lock cmd then HRun cmd
      else if \<not> is_busy owner then HFree cmd
      else HHeld cmd)"

fun http_next :: "http_pc \<Rightarrow> Owner \<Rightarrow> http_pc \<times> Owner" where
  "http_next HIdle owner = (HIdle, owner)"
| "http_next (HFree cmd) owner =
     (let (ok, owner) = try_acquire HTTP owner in (if ok then HRun cmd else HIdle, owner))"
| "http_next (HHeld cmd) owner = (if owner \<noteq> HTTP then HIdle else HRun cmd, owner)"
| "http_next (HRun cmd) owner =
     (if at_action cmd = ''RESET'' then (if owner \<noteq> HTTP then HIdle else HReset, owner)
      else if at_action cmd = ''FORCERESET'' then (HIdle, force_release owner)
      else (HIdle, owner))"
| "http_next HReset owner = (HIdle, release HTTP owner)"

text \<open>The same for the serial reader.\<close>

definition ser_arrive :: "string \<Rightarrow> Owner \<Rightarrow> ser_pc \<times> Owner" where
  "ser_arrive line owner =
     (let (ok, owner) = try_acquire SERIAL owner in (if ok then SRun line else SDenied line, owner))"

fun ser_next :: "ser_pc \<Rightarrow> Owner \<Rightarrow> ser_pc \<times> Owner" where
  "ser_next SIdle owner = (SIdle, owner)"
| "ser_next (SDenied line) owner = (if owner \<noteq> SERIAL then SIdle else SRun line, owner)"
| "ser_next (SRun line) owner =
     (if at_action line = ''RESET'' then (if owner \<noteq> SERIAL then SIdle else SReset, owner)
      else if at_action line = ''FORCERESET'' then (SIdle, force_release owner)
      else (SIdle, owner))"
| "ser_next SReset owner = (SIdle, release SERIAL owner)"

datatype sess_label = HttpRequest string | HttpNext | ApiReset | DebugLock | SerialLine string | SerialNext

text \<open>Whose step it is, where it is one of the two command paths.\<close>

fun http_label :: "sess_label \<Rightarrow> bool" where
  "http_label (HttpRequest cmd) \<longleftrightarrow> True"
| "http_label HttpNext \<longleftrightarrow> True"
| "http_label l \<longleftrightarrow> False"

fun ser_label :: "sess_label \<Rightarrow> bool" where
  "ser_label (SerialLine line) \<longleftrightarrow> True"
| "ser_label SerialNext \<longleftrightarrow> True"
| "ser_label l \<longleftrightarrow> False"

inductive sess_step :: "sess_label \<Rightarrow> sess \<Rightarrow> sess \<Rightarrow> bool" where
  http_request:
    "s_http s = HIdle \<Longrightarrow> sess_step (HttpRequest cmd) s (s\<lparr>s_http := http_arrive cmd (s_owner s)\<rparr>)"
| http_step:
    "s_http s \<noteq> HIdle \<Longrightarrow> http_next (s_http s) (s_owner s) = (pc, owner) \<Longrightarrow>
       sess_step HttpNext s (s\<lparr>s_http := pc, s_owner := owner\<rparr>)"
| api_reset:
    "s_http s = HIdle \<Longrightarrow> sess_step ApiReset s (s\<lparr>s_owner := force_release (s_owner s)\<rparr>)"
| debug_lock:
    "s_http s = HIdle \<Longrightarrow>
       sess_step DebugLock s (s\<lparr>s_owner := snd (try_acquire SERIAL (s_owner s))\<rparr>)"
| serial_line:
    "s_ser s = SIdle \<Longrightarrow> ser_arrive line (s_owner s) = (pc, owner) \<Longrightarrow>
       sess_step (SerialLine line) s (s\<lparr>s_ser := pc, s_owner := owner\<rparr>)"
| serial_step:
    "s_ser s \<noteq> SIdle \<Longrightarrow> ser_next (s_ser s) (s_owner s) = (pc, owner) \<Longrightarrow>
       sess_step SerialNext s (s\<lparr>s_ser := pc, s_owner := owner\<rparr>)"

code_pred sess_step .

inductive_cases sess_stepE: "sess_step l s t"

text \<open>The command a thread is inside of.\<close>

fun http_command :: "http_pc \<Rightarrow> string option" where
  "http_command (HRun cmd) = Some cmd"
| "http_command pc = None"

fun ser_command :: "ser_pc \<Rightarrow> string option" where
  "ser_command (SRun line) = Some line"
| "ser_command pc = None"

text \<open>Where the label takes the thread.\<close>

fun http_goes :: "sess_label \<Rightarrow> sess \<Rightarrow> http_pc" where
  "http_goes (HttpRequest cmd) s = http_arrive cmd (s_owner s)"
| "http_goes HttpNext s = fst (http_next (s_http s) (s_owner s))"
| "http_goes l s = s_http s"

fun ser_goes :: "sess_label \<Rightarrow> sess \<Rightarrow> ser_pc" where
  "ser_goes (SerialLine line) s = fst (ser_arrive line (s_owner s))"
| "ser_goes SerialNext s = fst (ser_next (s_ser s) (s_owner s))"
| "ser_goes l s = s_ser s"

definition sess_start :: sess where
  "sess_start = \<lparr>s_owner = NONE, s_http = HIdle, s_ser = SIdle\<rparr>"

text \<open>A step that force-releases the lock: \<open>/api/reset\<close>, or \<open>AT+FORCERESET\<close> from either side.\<close>

definition forces :: "sess_label \<Rightarrow> sess \<Rightarrow> bool" where
  "forces l s \<longleftrightarrow> l = ApiReset
     \<or> (l = HttpNext \<and> (\<exists>cmd. s_http s = HRun cmd \<and> at_action cmd = ''FORCERESET''))
     \<or> (l = SerialNext \<and> (\<exists>cmd. s_ser s = SRun cmd \<and> at_action cmd = ''FORCERESET''))"

inductive reach :: "bool \<Rightarrow> sess \<Rightarrow> bool" for may_force :: bool where
  start: "reach may_force sess_start"
| step: "reach may_force s \<Longrightarrow> sess_step l s t \<Longrightarrow> may_force \<or> \<not> forces l s \<Longrightarrow> reach may_force t"

section \<open>Mutual exclusion\<close>

text \<open>The critical section: a command that needs the lock is being processed.\<close>

definition http_critical :: "sess \<Rightarrow> bool" where
  "http_critical s \<longleftrightarrow> (case s_http s of HRun cmd \<Rightarrow> \<not> bypass_lock cmd | HReset \<Rightarrow> True | _ \<Rightarrow> False)"

definition ser_critical :: "sess \<Rightarrow> bool" where
  "ser_critical s \<longleftrightarrow> (case s_ser s of SRun cmd \<Rightarrow> True | SReset \<Rightarrow> True | _ \<Rightarrow> False)"

text \<open>What a step at the lock does to the threads' places.\<close>

lemma sess_step_http:
  "sess_step l s t \<Longrightarrow> http_label l \<Longrightarrow> s_http t = http_goes l s \<and> s_ser t = s_ser s"
  by (cases rule: sess_step.cases) auto

lemma sess_step_ser:
  "sess_step l s t \<Longrightarrow> ser_label l \<Longrightarrow> s_ser t = ser_goes l s \<and> s_http t = s_http s"
  by (cases rule: sess_step.cases) auto

lemma sess_step_other:
  "sess_step l s t \<Longrightarrow> \<not> http_label l \<Longrightarrow> \<not> ser_label l \<Longrightarrow> s_http t = s_http s \<and> s_ser t = s_ser s"
  by (cases rule: sess_step.cases) auto

lemma labels_differ: "http_label l \<Longrightarrow> \<not> ser_label l"
  by (cases l) auto

lemma critical_cong:
  "s_http t = s_http s \<Longrightarrow> http_critical t = http_critical s" "s_ser t = s_ser s \<Longrightarrow> ser_critical t = ser_critical s"
  by (simp_all add: http_critical_def ser_critical_def)

definition sess_inv :: "sess \<Rightarrow> bool" where
  "sess_inv s \<longleftrightarrow> (http_critical s \<longrightarrow> s_owner s = HTTP) \<and> (ser_critical s \<longrightarrow> s_owner s = SERIAL)
     \<and> (\<forall>cmd. s_http s = HFree cmd \<or> s_http s = HHeld cmd \<longrightarrow> \<not> bypass_lock cmd)"

lemmas owner_ops = try_acquire_def release_def force_release_def is_busy_def

lemma sess_inv_start: "sess_inv sess_start"
  by (simp add: sess_inv_def sess_start_def http_critical_def ser_critical_def)

lemma sess_inv_http_request:
  "sess_inv s \<Longrightarrow> s_http s = HIdle \<Longrightarrow> sess_inv (s\<lparr>s_http := http_arrive cmd (s_owner s)\<rparr>)"
  by (auto simp: sess_inv_def http_critical_def ser_critical_def http_arrive_def)

lemma sess_inv_http_next:
  assumes "sess_inv s" "\<not> forces HttpNext s" "http_next (s_http s) (s_owner s) = (pc, owner)"
  shows "sess_inv (s\<lparr>s_http := pc, s_owner := owner\<rparr>)"
  using assms
  by (cases "s_http s")
     (auto simp: sess_inv_def http_critical_def ser_critical_def forces_def owner_ops
       split: if_splits)

lemma sess_inv_serial_line:
  assumes "sess_inv s" "s_ser s = SIdle" "ser_arrive line (s_owner s) = (pc, owner)"
  shows "sess_inv (s\<lparr>s_ser := pc, s_owner := owner\<rparr>)"
  using assms
  by (auto simp: sess_inv_def http_critical_def ser_critical_def ser_arrive_def owner_ops split: if_splits)

lemma sess_inv_serial_next:
  assumes "sess_inv s" "\<not> forces SerialNext s" "ser_next (s_ser s) (s_owner s) = (pc, owner)"
  shows "sess_inv (s\<lparr>s_ser := pc, s_owner := owner\<rparr>)"
  using assms
  by (cases "s_ser s")
     (auto simp: sess_inv_def http_critical_def ser_critical_def forces_def owner_ops
       split: if_splits)

lemma sess_inv_step:
  assumes "sess_step l s t" "sess_inv s" "\<not> forces l s"
  shows "sess_inv t"
  using assms(1)
proof cases
  case (http_request cmd)
  with assms show ?thesis by (simp add: sess_inv_http_request)
next
  case (http_step pc owner)
  with assms show ?thesis by (simp add: sess_inv_http_next)
next
  case api_reset
  with assms show ?thesis by (simp add: forces_def)
next
  case debug_lock
  with assms show ?thesis
    by (auto simp: sess_inv_def http_critical_def ser_critical_def owner_ops)
next
  case (serial_line line pc owner)
  with assms show ?thesis by (simp add: sess_inv_serial_line)
next
  case (serial_step pc owner)
  with assms show ?thesis by (simp add: sess_inv_serial_next)
qed

lemma sess_inv_reach: "reach False s \<Longrightarrow> sess_inv s"
  by (induction rule: reach.induct) (auto intro: sess_inv_start sess_inv_step)

section \<open>Concrete runs\<close>

lemma reach_request:
  "reach b s \<Longrightarrow> s_http s = HIdle \<Longrightarrow> t = s\<lparr>s_http := http_arrive cmd (s_owner s)\<rparr> \<Longrightarrow> reach b t"
  using reach.step sess_step.http_request by (fastforce simp: forces_def)

lemma reach_http:
  "reach b s \<Longrightarrow> s_http s \<noteq> HIdle \<Longrightarrow> b \<or> \<not> forces HttpNext s \<Longrightarrow>
     t = s\<lparr>s_http := fst (http_next (s_http s) (s_owner s)), s_owner := snd (http_next (s_http s) (s_owner s))\<rparr> \<Longrightarrow>
     reach b t"
  using reach.step sess_step.http_step by (metis prod.collapse)

lemma reach_line:
  "reach b s \<Longrightarrow> s_ser s = SIdle \<Longrightarrow>
     t = s\<lparr>s_ser := fst (ser_arrive line (s_owner s)), s_owner := snd (ser_arrive line (s_owner s))\<rparr> \<Longrightarrow>
     reach b t"
  using reach.step [OF _ sess_step.serial_line, of b s line] by (simp add: forces_def)

lemma reach_api_reset:
  "reach True s \<Longrightarrow> s_http s = HIdle \<Longrightarrow> t = s\<lparr>s_owner := force_release (s_owner s)\<rparr> \<Longrightarrow> reach True t"
  using reach.step sess_step.api_reset by fastforce

lemma not_bypass_cancel: "\<not> bypass_lock ''AT+UPLOADCANCEL''"
  by (simp add: bypass_lock_def find_char_from_def)

lemma http_enters:
  assumes "reach b s" "s_http s = HIdle" "s_owner s = NONE"
  shows "reach b (s\<lparr>s_http := HRun ''AT+UPLOADCANCEL'', s_owner := HTTP\<rparr>)"
proof -
  have "reach b (s\<lparr>s_http := HFree ''AT+UPLOADCANCEL''\<rparr>)"
    by (rule reach_request [OF assms(1,2), of _ "''AT+UPLOADCANCEL''"])
       (simp add: http_arrive_def not_bypass_cancel assms(3) owner_ops)
  then show ?thesis
    by (rule reach_http) (simp_all add: owner_ops assms(3) forces_def)
qed

section \<open>Properties\<close>

text \<open>
  C4: the session lock gives mutual exclusion. In every interleaving of the two threads without a
  forced release (checks and compare-and-swaps interleaved at will), a command that needs the lock
  is never processed by both threads at once, and the one that processes it owns the lock.
\<close>

theorem session_mutual_exclusion:
  assumes "reach False s"
  shows "\<not> (http_critical s \<and> ser_critical s)
    \<and> s_owner s = (if http_critical s then HTTP else if ser_critical s then SERIAL else s_owner s)"
  using sess_inv_reach [OF assms] by (auto simp: sess_inv_def)

theorem session_mutual_exclusion_witness:
  "\<exists>s. http_critical s \<and> s_ser s = SDenied ''AT+HELP'' \<and> \<not> (http_critical s \<and> ser_critical s)
    \<and> s_owner s = (if http_critical s then HTTP else if ser_critical s then SERIAL else s_owner s)"
proof -
  let ?s = "\<lparr>s_owner = HTTP, s_http = HRun ''AT+UPLOADCANCEL'', s_ser = SDenied ''AT+HELP''\<rparr>"
  have "reach False (sess_start\<lparr>s_http := HRun ''AT+UPLOADCANCEL'', s_owner := HTTP\<rparr>)"
    by (rule http_enters [OF reach.start]) (simp_all add: sess_start_def)
  then have "reach False ?s"
    by (rule reach_line [where line = "''AT+HELP''"]) (simp_all add: sess_start_def ser_arrive_def owner_ops)
  moreover have "http_critical ?s"
    by (simp add: http_critical_def not_bypass_cancel)
  ultimately show ?thesis
    using session_mutual_exclusion [of ?s] by (intro exI [of _ ?s]) simp
qed

text \<open>
  A forced release does break it: while the serial side is still processing a command,
  \<open>POST /api/reset\<close> frees the lock, and the next HTTP request acquires it and enters its own
  command; both threads then work on the same upload and flash state.
\<close>

theorem forced_release_breaks_exclusion:
  "\<exists>s. reach True s \<and> s_ser s = SRun ''AT+UPLOADDONE'' \<and> s_http s = HRun ''AT+UPLOADCANCEL''
    \<and> http_critical s \<and> ser_critical s"
proof -
  have "reach True (sess_start\<lparr>s_ser := SRun ''AT+UPLOADDONE'', s_owner := SERIAL\<rparr>)"
    by (rule reach_line [OF reach.start, where line = "''AT+UPLOADDONE''"])
       (simp_all add: sess_start_def ser_arrive_def owner_ops)
  then have "reach True (sess_start\<lparr>s_ser := SRun ''AT+UPLOADDONE''\<rparr>)"
    by (rule reach_api_reset) (simp_all add: sess_start_def owner_ops)
  then have "reach True (sess_start\<lparr>s_ser := SRun ''AT+UPLOADDONE'', s_http := HRun ''AT+UPLOADCANCEL'', s_owner := HTTP\<rparr>)"
    using http_enters [of True "sess_start\<lparr>s_ser := SRun ''AT+UPLOADDONE''\<rparr>"] by (simp add: sess_start_def)
  then show ?thesis
    by (intro exI conjI) (assumption, simp_all add: http_critical_def ser_critical_def not_bypass_cancel)
qed

text \<open>
  The bypass test is stricter than the command parser. While the serial side owns the lock,
  the HTTP request \<open>AT+FORCERESET\<close> frees it; the same command in lower case is refused as busy,
  although the command processor would accept it as FORCERESET.
\<close>

theorem lowercase_forcereset_refused:
  "http_next (http_arrive ''AT+FORCERESET'' SERIAL) SERIAL = (HIdle, NONE)
    \<and> at_action ''AT+forcereset'' = ''FORCERESET''
    \<and> http_next (http_arrive ''AT+forcereset'' SERIAL) SERIAL = (HIdle, SERIAL)"
proof -
  have up: "at_action ''AT+FORCERESET'' = ''FORCERESET''" "bypass_lock ''AT+FORCERESET''"
    using at_request_reset(1) [of "''FORCERESET''"]
    by (simp_all add: at_action_def bypass_lock_def find_char_from_def)
  have "map to_upper ''forcereset'' = ''FORCERESET''"
    by (simp add: to_upper_def char_of_def bit_0)
  then have low: "at_action ''AT+forcereset'' = ''FORCERESET''"
    using parse_at_join(2) [of "''forcereset''"] by (simp add: at_action_def at_request_def at_trim_id)
  have "\<not> bypass_lock ''AT+forcereset''"
    by (simp add: bypass_lock_def find_char_from_def)
  then show ?thesis
    using up low by (simp add: http_arrive_def owner_ops)
qed

end
