(* ===== verification/Flash_Props.thy ===== *)
theory Flash_Props
  imports Flash
begin

text \<open>
  What holds of the two threads of the flash component in every interleaving: the coupling of the
  flags with the worker's position, the complete life of a job, and the ways the component
  departs from its documentation.
\<close>

section \<open>The invariant\<close>

fun worker_inv :: "worker \<Rightarrow> bool \<Rightarrow> bool \<Rightarrow> bool" where
  "worker_inv NotJoinable running finished \<longleftrightarrow> \<not> running"
| "worker_inv (Active AtRunning) running finished \<longleftrightarrow> \<not> running \<and> \<not> finished"
| "worker_inv (Active AtRunningOff) running finished \<longleftrightarrow> running \<and> finished"
| "worker_inv (Active pc) running finished \<longleftrightarrow> running \<and> \<not> finished"
| "worker_inv Returned running finished \<longleftrightarrow> \<not> running \<and> finished"

definition flash_inv :: "FlashOp \<Rightarrow> bool" where
  "flash_inv op \<longleftrightarrow> worker_inv (f_worker op) (f_running op) (f_done op)"

fun wait_inv :: "flash_wait \<Rightarrow> FlashOp \<Rightarrow> bool" where
  "wait_inv TimeoutJoin op \<longleftrightarrow> f_worker op \<noteq> NotJoinable \<and> f_worker op \<noteq> Active AtRunning"
| "wait_inv (ResultJoin r) op \<longleftrightarrow> f_done op \<and> r = flash_result_text op"

fun proc_inv :: "flash_proc \<Rightarrow> bool" where
  "proc_inv (Ready op) \<longleftrightarrow> flash_inv op"
| "proc_inv (Waiting w op) \<longleftrightarrow> flash_inv op \<and> wait_inv w op"
| "proc_inv Terminated \<longleftrightarrow> True"

lemma flash_inv_new: "flash_inv FlashOp_new"
  by (simp add: flash_inv_def FlashOp_new_def)

lemma worker_step_cases:
  assumes "worker_step e op = Some op'"
  obtains pc where "f_worker op = Active pc"
  using assms by (cases "f_worker op") auto

lemma flash_inv_work:
  assumes "worker_step e op = Some op'" "flash_inv op"
  shows "flash_inv op'"
proof -
  obtain pc where "f_worker op = Active pc" using assms(1) by (rule worker_step_cases)
  then show ?thesis
    using assms by (cases pc; cases e) (auto simp: flash_inv_def)
qed

lemma wait_inv_work:
  assumes "worker_step e op = Some op'" "flash_inv op" "wait_inv w op"
  shows "wait_inv w op'"
proof -
  obtain pc where "f_worker op = Active pc" using assms(1) by (rule worker_step_cases)
  then show ?thesis
    using assms by (cases pc; cases e; cases w) (auto simp: flash_inv_def flash_result_text_def)
qed

lemma flash_inv_submit:
  assumes "handle_flash cfg arg op = Reply r op'" "flash_inv op"
  shows "flash_inv op'"
  using assms
  by (auto simp: handle_flash_def flash_inv_def Let_def split: sum.splits if_splits)

lemma flash_inv_poll:
  assumes "handle_flashdone now op = Reply r op'" "flash_inv op"
  shows "flash_inv op'"
  using assms by (auto simp: handle_flashdone_def Let_def split: if_splits)

lemma wait_inv_poll:
  assumes "handle_flashdone now op = Wait w op'" "flash_inv op"
  shows "flash_inv op' \<and> wait_inv w op'"
proof -
  have "f_worker op \<noteq> NotJoinable \<and> f_worker op \<noteq> Active AtRunning" if "f_running op"
    using assms(2) that by (auto simp: flash_inv_def)
  with assms show ?thesis
    by (auto simp: handle_flashdone_def Let_def split: if_splits)
qed

lemma flash_inv_joined:
  assumes "flashdone_joined w op = (r, op')"
  shows "flash_inv op'"
  using assms by (auto simp: flashdone_joined_def cancel_joined_def flash_inv_def split: flash_wait.splits)

lemma proc_inv_step: "flash_step cfg s l r t \<Longrightarrow> proc_inv s \<Longrightarrow> proc_inv t"
  by (induction rule: flash_step.induct)
     (auto simp del: worker_step.simps
       dest: flash_inv_submit flash_inv_poll wait_inv_poll flash_inv_joined flash_inv_work wait_inv_work)

lemma proc_inv_run: "flash_run cfg s ls rs t \<Longrightarrow> proc_inv s \<Longrightarrow> proc_inv t"
  by (induction rule: flash_run.induct) (auto dest: proc_inv_step)

lemma proc_inv_reachable: "flash_reachable cfg s \<Longrightarrow> proc_inv s"
  using proc_inv_run flash_inv_new by (fastforce simp: flash_reachable_def)

section \<open>Submitting\<close>

lemma find_comma_absent: "CHR '','' \<notin> set s \<Longrightarrow> find_char CHR '','' s = None"
  by simp

text \<open>
  The file name reaches the shell verbatim: for every non-empty name without a comma and each
  of the three modes the submitted command is the script's path, a blank and the name as it was
  sent, whatever characters it contains; without a mode the script is that of \<open>FULL\<close>.
\<close>

theorem flash_command_verbatim:
  assumes "name \<noteq> []" "CHR '','' \<notin> set name"
  shows "flash_fields cfg name = Inr (cfg_scripts_dir cfg @ ''/flash_full.sh '' @ name)
    \<and> flash_fields cfg (name @ '',FULL'') = Inr (cfg_scripts_dir cfg @ ''/flash_full.sh '' @ name)
    \<and> flash_fields cfg (name @ '',PARTIAL'') = Inr (cfg_scripts_dir cfg @ ''/flash_partial.sh '' @ name)
    \<and> flash_fields cfg (name @ '',ASSETS'') = Inr (cfg_scripts_dir cfg @ ''/flash_assets.sh '' @ name)"
  using assms find_comma_absent [OF assms(2)]
  by (simp add: flash_fields_def FLASH_SCRIPTS_def substr_def del: find_char_None)

theorem flash_command_verbatim_witness:
  "flash_fields Config_default ''x; reboot'' = Inr (''/sbin/flash_full.sh '' @ ''x; reboot'')
    \<and> flash_fields Config_default (''x; reboot'' @ '',FULL'') = Inr (''/sbin/flash_full.sh '' @ ''x; reboot'')
    \<and> flash_fields Config_default (''x; reboot'' @ '',PARTIAL'') = Inr (''/sbin/flash_partial.sh '' @ ''x; reboot'')
    \<and> flash_fields Config_default (''x; reboot'' @ '',ASSETS'') = Inr (''/sbin/flash_assets.sh '' @ ''x; reboot'')"
  using flash_command_verbatim [of "''x; reboot''" Config_default] by (simp add: Config_default_def)

section \<open>The life of a job\<close>

lemma run_work:
  "worker_step e op = Some op' \<Longrightarrow> flash_run cfg (Ready op') ls rs u \<Longrightarrow>
     flash_run cfg (Ready op) (Work e # ls) rs u"
  by (rule flash_run.silent [OF flash_step.work_ready])

lemma run_lines:
  assumes "f_worker op = Active AtRead"
    and "flash_run cfg (Ready (op\<lparr>f_output := f_output op @ concat (map c_str lines)\<rparr>)) ls rs u"
  shows "flash_run cfg (Ready op) (map (\<lambda>s. Work (Line s)) lines @ ls) rs u"
  using assms
proof (induction lines arbitrary: op)
  case Nil
  then show ?case by simp
next
  case (Cons s lines)
  have "worker_step (Line s) op = Some (op\<lparr>f_output := f_output op @ c_str s\<rparr>)"
    using Cons.prems(1) by simp
  then show ?case
    using Cons by (auto intro!: run_work)
qed

text \<open>Everything the worker does for a script that prints \<open>lines\<close> and ends with \<open>status\<close>.\<close>

definition job :: "int \<Rightarrow> string list \<Rightarrow> int \<Rightarrow> flash_label list" where
  "job t lines status =
     [Work Step, Work (Clock t), Work PopenOk] @ map (\<lambda>s. Work (Line s)) lines
       @ [Work Eof, Work (WaitStatus status), Work Step, Work Step]"

definition job_result :: "string \<Rightarrow> int \<Rightarrow> string list \<Rightarrow> int \<Rightarrow> FlashOp" where
  "job_result cmd t lines status =
     \<lparr>f_worker = Returned, f_running = False, f_done = True, f_exit_code = WEXITSTATUS status,
      f_output = trim_right is_newline (concat (map c_str lines)), f_cmd = cmd, f_start_time = t\<rparr>"

lemma run_submit:
  assumes "flash_fields cfg arg = Inr cmd" "f_worker op = NotJoinable" "\<not> f_running op"
    and "flash_run cfg (Ready \<lparr>f_worker = Active AtRunning, f_running = False, f_done = False,
       f_exit_code = - 1, f_output = [], f_cmd = cmd, f_start_time = f_start_time op\<rparr>) ls rs u"
  shows "flash_run cfg (Ready op) (Submit arg # ls) ((''OK submitted: '' @ cmd) # rs) u"
proof -
  have "handle_flash cfg arg op = Reply (''OK submitted: '' @ cmd)
      \<lparr>f_worker = Active AtRunning, f_running = False, f_done = False, f_exit_code = - 1,
       f_output = [], f_cmd = cmd, f_start_time = f_start_time op\<rparr>"
    using assms(1-3) by (simp add: handle_flash_def)
  then show ?thesis
    by (rule flash_run.reply [OF flash_step.submit_reply assms(4)])
qed

lemma run_job:
  assumes "flash_run cfg (Ready (job_result cmd t lines status)) ls rs u"
  shows "flash_run cfg (Ready \<lparr>f_worker = Active AtRunning, f_running = False, f_done = False,
       f_exit_code = - 1, f_output = [], f_cmd = cmd, f_start_time = t0\<rparr>) (job t lines status @ ls) rs u"
  unfolding job_def append.simps append_assoc
  by (rule run_work, simp, rule run_work, simp, rule run_work, simp, rule run_lines, simp,
      rule run_work, simp, rule run_work, simp, rule run_work, simp, rule run_work, simp,
      use assms in \<open>simp add: job_result_def\<close>)

lemma run_poll_done:
  assumes "f_done op" "can_join op"
    and "flash_run cfg (Ready (op\<lparr>f_worker := NotJoinable, f_running := False, f_done := False\<rparr>)) ls rs u"
  shows "flash_run cfg (Ready op) (Poll now # Joined # ls) (flash_result_text op # rs) u"
proof -
  have poll: "handle_flashdone now op = Wait (ResultJoin (flash_result_text op)) op"
    using assms(1) by (simp add: handle_flashdone_def)
  show ?thesis
    by (rule flash_run.silent [OF flash_step.poll_wait [OF poll]],
        rule flash_run.reply [OF flash_step.joined [OF assms(2)] assms(3)])
       (simp add: flashdone_joined_def)
qed

lemma can_join_job: "can_join (job_result cmd t lines status)" "f_done (job_result cmd t lines status)"
  by (simp_all add: can_join_def job_result_def)

text \<open>
  C18: a job runs to its report. From every reachable state without a worker, a valid submission is
  acknowledged, and once the script has printed its lines and ended, the next poll answers with the
  command and the collected output (without the line ends at its end), OK for exit code 0 and
  otherwise ERROR with the exit code; afterwards the component is ready for the next submission.
\<close>

theorem flash_job_reported:
  assumes "flash_reachable cfg (Ready op)" "f_worker op = NotJoinable" "flash_fields cfg arg = Inr cmd"
  shows "\<exists>op'. flash_run cfg (Ready op) (Submit arg # job t lines status @ [Poll now, Joined])
      [''OK submitted: '' @ cmd,
       (if WEXITSTATUS status = 0 then ''OK '' @ cmd @ '' ''
        else ''ERROR '' @ cmd @ '' failed (exit='' @ dec_str_int (WEXITSTATUS status) @ '') '')
         @ trim_right is_newline (concat (map c_str lines))] (Ready op')
    \<and> f_worker op' = NotJoinable \<and> \<not> f_running op' \<and> \<not> f_done op'"
proof -
  let ?op = "job_result cmd t lines status"
  let ?op' = "?op\<lparr>f_worker := NotJoinable, f_running := False, f_done := False\<rparr>"
  have "\<not> f_running op"
    using proc_inv_reachable [OF assms(1)] assms(2) by (simp add: flash_inv_def)
  have "flash_run cfg (Ready ?op) [Poll now, Joined] [flash_result_text ?op] (Ready ?op')"
    by (rule run_poll_done [OF can_join_job(2,1) flash_run.stop])
  then have "flash_run cfg (Ready op) (Submit arg # job t lines status @ [Poll now, Joined])
      [''OK submitted: '' @ cmd, flash_result_text ?op] (Ready ?op')"
    by (rule run_submit [OF assms(3,2) \<open>\<not> f_running op\<close> run_job])
  moreover have "flash_result_text ?op =
      (if WEXITSTATUS status = 0 then ''OK '' @ cmd @ '' ''
       else ''ERROR '' @ cmd @ '' failed (exit='' @ dec_str_int (WEXITSTATUS status) @ '') '')
        @ trim_right is_newline (concat (map c_str lines))"
    by (simp add: flash_result_text_def job_result_def)
  ultimately have "flash_run cfg (Ready op) (Submit arg # job t lines status @ [Poll now, Joined])
      [''OK submitted: '' @ cmd,
       (if WEXITSTATUS status = 0 then ''OK '' @ cmd @ '' ''
        else ''ERROR '' @ cmd @ '' failed (exit='' @ dec_str_int (WEXITSTATUS status) @ '') '')
         @ trim_right is_newline (concat (map c_str lines))] (Ready ?op')"
    by (simp only:)
  then show ?thesis
    by (intro exI [of _ ?op'] conjI) (assumption, simp_all)
qed

theorem flash_job_reported_witness:
  "\<exists>op'. flash_run Config_default (Ready FlashOp_new)
      (Submit ''fw.img,ASSETS'' # job 5 [''writing'', [CHR 0x0A]] 256 @ [Poll 9, Joined])
      [''OK submitted: '' @ ''/sbin/flash_assets.sh fw.img'',
       (if WEXITSTATUS 256 = 0 then ''OK '' @ ''/sbin/flash_assets.sh fw.img'' @ '' ''
        else ''ERROR '' @ ''/sbin/flash_assets.sh fw.img'' @ '' failed (exit=''
          @ dec_str_int (WEXITSTATUS 256) @ '') '')
         @ trim_right is_newline (concat (map c_str [''writing'', [CHR 0x0A]]))] (Ready op')
    \<and> f_worker op' = NotJoinable \<and> \<not> f_running op' \<and> \<not> f_done op'"
proof -
  have "flash_reachable Config_default (Ready FlashOp_new)"
    unfolding flash_reachable_def using flash_run.stop by blast
  moreover have "f_worker FlashOp_new = NotJoinable" by (simp add: FlashOp_new_def)
  moreover have "flash_fields Config_default ''fw.img,ASSETS'' = Inr ''/sbin/flash_assets.sh fw.img''"
    by (simp add: flash_fields_def FLASH_SCRIPTS_def substr_def Config_default_def)
  ultimately show ?thesis by (rule flash_job_reported)
qed

text \<open>
  A script that is killed counts as a success: its wait status is the signal number, whose
  \<open>WEXITSTATUS\<close> is 0, so the poll answers OK.
\<close>

theorem killed_script_reported_ok:
  assumes "0 < sig" "sig < 128" "flash_fields cfg arg = Inr cmd"
  shows "\<exists>t. flash_run cfg (Ready FlashOp_new) (Submit arg # job 0 [] sig @ [Poll now, Joined])
      [''OK submitted: '' @ cmd, ''OK '' @ cmd @ '' ''] t"
proof -
  let ?op = "job_result cmd 0 [] sig"
  have "WEXITSTATUS sig = 0" using assms(1,2) by (simp add: WEXITSTATUS_def)
  then have final: "flash_result_text ?op = ''OK '' @ cmd @ '' ''"
    by (simp add: flash_result_text_def job_result_def)
  have new: "f_worker FlashOp_new = NotJoinable" "\<not> f_running FlashOp_new"
    by (simp_all add: FlashOp_new_def)
  have "\<exists>t. flash_run cfg (Ready ?op) [Poll now, Joined] [''OK '' @ cmd @ '' ''] t"
    unfolding final [symmetric]
    by (rule exI, rule run_poll_done [OF can_join_job(2,1) flash_run.stop])
  then show ?thesis
    using run_submit [OF assms(3) new run_job] by blast
qed

theorem killed_script_reported_ok_witness:
  "\<exists>t. flash_run Config_default (Ready FlashOp_new) (Submit ''fw'' # job 0 [] 9 @ [Poll 3, Joined])
      [''OK submitted: '' @ ''/sbin/flash_full.sh fw'', ''OK '' @ ''/sbin/flash_full.sh fw'' @ '' ''] t"
  by (rule killed_script_reported_ok)
     (simp_all add: flash_fields_def FLASH_SCRIPTS_def Config_default_def)

section \<open>The end of the process\<close>

text \<open>
  C19: exactly when a submission kills the daemon. In every reachable state with the command thread
  ready, \<open>AT+FLASH\<close> with a valid argument calls \<open>std::terminate\<close> if and only if the previous worker
  has not executed its first statement yet or has ended without its result having been polled.
\<close>

theorem flash_terminates_iff:
  assumes "flash_reachable cfg (Ready op)"
  shows "flash_step cfg (Ready op) (Submit arg) None Terminated
    \<longleftrightarrow> (\<exists>cmd. flash_fields cfg arg = Inr cmd) \<and> (f_worker op = Active AtRunning \<or> f_worker op = Returned)"
proof -
  have step: "flash_step cfg (Ready op) (Submit arg) None Terminated \<longleftrightarrow> handle_flash cfg arg op = Terminate"
    by (auto intro: flash_step.submit_terminate elim: flash_stepE)
  have inv: "flash_inv op" using proc_inv_reachable [OF assms] by simp
  have busy: "\<not> f_running op \<and> f_worker op \<noteq> NotJoinable
      \<longleftrightarrow> f_worker op = Active AtRunning \<or> f_worker op = Returned"
  proof (cases "f_worker op")
    case (Active pc)
    then show ?thesis using inv by (cases pc) (simp_all add: flash_inv_def)
  qed (use inv in \<open>simp_all add: flash_inv_def\<close>)
  show ?thesis
    unfolding step busy [symmetric]
    by (auto simp: handle_flash_def Let_def split: sum.splits if_splits)
qed

theorem flash_terminates_iff_witness:
  "flash_step Config_default (Ready FlashOp_new) (Submit ''fw'') None Terminated
    \<longleftrightarrow> (\<exists>cmd. flash_fields Config_default ''fw'' = Inr cmd)
      \<and> (f_worker FlashOp_new = Active AtRunning \<or> f_worker FlashOp_new = Returned)"
proof -
  have "flash_reachable Config_default (Ready FlashOp_new)"
    unfolding flash_reachable_def using flash_run.stop by blast
  then show ?thesis by (rule flash_terminates_iff)
qed

text \<open>
  So an ordinary sequence of commands kills it: a flash that completes and is not polled,
  followed by another flash (any valid arguments, any output and exit status of the script).
\<close>

theorem second_flash_terminates:
  assumes "flash_fields cfg arg = Inr cmd" "flash_fields cfg arg' = Inr cmd'"
  shows "flash_run cfg (Ready FlashOp_new) (Submit arg # job t lines status @ [Submit arg'])
      [''OK submitted: '' @ cmd] Terminated"
proof -
  have new: "f_worker FlashOp_new = NotJoinable" "\<not> f_running FlashOp_new"
    by (simp_all add: FlashOp_new_def)
  have "handle_flash cfg arg' (job_result cmd t lines status) = Terminate"
    using assms(2) by (simp add: handle_flash_def job_result_def)
  then have "flash_run cfg (Ready (job_result cmd t lines status)) [Submit arg'] [] Terminated"
    by (rule flash_run.silent [OF flash_step.submit_terminate flash_run.stop])
  then show ?thesis
    by (rule run_submit [OF assms(1) new run_job])
qed

theorem second_flash_terminates_witness:
  "flash_run Config_default (Ready FlashOp_new) (Submit ''a'' # job 0 [''ok''] 0 @ [Submit ''b,PARTIAL''])
      [''OK submitted: '' @ ''/sbin/flash_full.sh a''] Terminated"
  by (rule second_flash_terminates [where cmd' = "''/sbin/flash_partial.sh b''"])
     (simp_all add: flash_fields_def FLASH_SCRIPTS_def substr_def Config_default_def)

section \<open>Polling\<close>

text \<open>
  A poll that overtakes the worker's first statement denies the job that was just
  acknowledged.
\<close>

theorem early_poll_denies_job:
  assumes "flash_fields cfg arg = Inr cmd"
  shows "\<exists>op. flash_run cfg (Ready FlashOp_new) [Submit arg, Poll now]
      [''OK submitted: '' @ cmd, ''ERROR: no pending flash operation''] (Ready op)
    \<and> f_worker op = Active AtRunning"
proof -
  have new: "f_worker FlashOp_new = NotJoinable" "\<not> f_running FlashOp_new"
    by (simp_all add: FlashOp_new_def)
  let ?op = "\<lparr>f_worker = Active AtRunning, f_running = False, f_done = False, f_exit_code = - 1,
      f_output = [], f_cmd = cmd, f_start_time = f_start_time FlashOp_new\<rparr>"
  have "handle_flashdone now ?op = Reply ''ERROR: no pending flash operation'' ?op"
    by (simp add: handle_flashdone_def)
  then have "flash_run cfg (Ready ?op) [Poll now] [''ERROR: no pending flash operation''] (Ready ?op)"
    by (rule flash_run.reply [OF flash_step.poll_reply flash_run.stop])
  then show ?thesis
    by (intro exI [of _ ?op] conjI run_submit [OF assms new]) simp_all
qed

theorem early_poll_denies_job_witness:
  "\<exists>op. flash_run Config_default (Ready FlashOp_new) [Submit ''fw'', Poll 0]
      [''OK submitted: '' @ ''/sbin/flash_full.sh fw'', ''ERROR: no pending flash operation''] (Ready op)
    \<and> f_worker op = Active AtRunning"
  by (rule early_poll_denies_job) (simp add: flash_fields_def FLASH_SCRIPTS_def Config_default_def)

text \<open>
  The timeout does not stop anything. The reply TIMEOUT is given only after the worker has
  returned (until then the command thread waits in \<open>join\<close>), so at that moment the job the reply
  says did not complete is complete, and the next poll returns its result.
\<close>

theorem timeout_reply_after_completion:
  assumes "flash_reachable cfg (Waiting TimeoutJoin op)"
    and "flash_step cfg (Waiting TimeoutJoin op) Joined (Some r) (Ready op')"
  shows "take 7 r = ''TIMEOUT'' \<and> f_worker op = Returned \<and> f_done op
    \<and> flash_run cfg (Ready op') [Poll now, Joined] [flash_result_text op]
        (Ready (op'\<lparr>f_worker := NotJoinable, f_running := False, f_done := False\<rparr>))"
proof -
  have inv: "flash_inv op" "f_worker op \<noteq> NotJoinable"
    using proc_inv_reachable [OF assms(1)] by simp_all
  from assms(2) have j: "can_join op" "flashdone_joined TimeoutJoin op = (r, op')"
    by (auto elim: flash_stepE)
  then have w: "f_worker op = Returned" using inv(2) by (simp add: can_join_def)
  have op': "op' = cancel_joined op" "take 7 r = ''TIMEOUT''"
    using j(2) by (auto simp: flashdone_joined_def)
  have "f_done op'" "can_join op'" "flash_result_text op' = flash_result_text op"
    by (simp_all add: op' cancel_joined_def can_join_def flash_result_text_def)
  then have "flash_run cfg (Ready op') [Poll now, Joined] [flash_result_text op]
        (Ready (op'\<lparr>f_worker := NotJoinable, f_running := False, f_done := False\<rparr>))"
    using run_poll_done [OF _ _ flash_run.stop, of op'] by simp
  with w op' inv(1) show ?thesis by (simp add: flash_inv_def)
qed

theorem timeout_reply_after_completion_witness:
  "\<exists>op r op'. take 7 r = ''TIMEOUT'' \<and> f_worker op = Returned \<and> f_done op
    \<and> flash_run Config_default (Ready op') [Poll 99, Joined] [flash_result_text op]
        (Ready (op'\<lparr>f_worker := NotJoinable, f_running := False, f_done := False\<rparr>))"
proof -
  let ?cmd = "''/sbin/flash_full.sh fw''"
  let ?op = "\<lparr>f_worker = Active AtPopen, f_running = True, f_done = False, f_exit_code = - 1,
      f_output = [], f_cmd = ?cmd, f_start_time = 0\<rparr>"
  let ?fin = "?op\<lparr>f_worker := Returned, f_running := False, f_done := True\<rparr>"
  have args: "flash_fields Config_default ''fw'' = Inr ?cmd"
    by (simp add: flash_fields_def FLASH_SCRIPTS_def Config_default_def)
  have new: "f_worker FlashOp_new = NotJoinable" "\<not> f_running FlashOp_new"
    by (simp_all add: FlashOp_new_def)
  have "handle_flashdone 60 ?op = Wait TimeoutJoin ?op"
    by (simp add: handle_flashdone_def ASYNC_TIMEOUT_SEC_def)
  then have poll: "flash_step Config_default (Ready ?op) (Poll 60) None (Waiting TimeoutJoin ?op)"
    by (rule flash_step.poll_wait)
  have wait: "flash_run Config_default (Waiting TimeoutJoin ?op) [Work PopenFails, Work Step, Work Step] []
      (Waiting TimeoutJoin ?fin)"
    by (rule flash_run.silent [OF flash_step.work_waiting], simp,
        rule flash_run.silent [OF flash_step.work_waiting], simp,
        rule flash_run.silent [OF flash_step.work_waiting], simp, simp, rule flash_run.stop)
  have "flash_run Config_default (Ready FlashOp_new)
      (Submit ''fw'' # Work Step # Work (Clock 0) # Poll 60 # [Work PopenFails, Work Step, Work Step])
      [''OK submitted: '' @ ?cmd] (Waiting TimeoutJoin ?fin)"
    by (rule run_submit [OF args new], rule run_work, simp, rule run_work, simp,
        use flash_run.silent [OF poll wait] in simp)
  then have reach: "flash_reachable Config_default (Waiting TimeoutJoin ?fin)"
    unfolding flash_reachable_def by blast
  obtain r op' where j: "flashdone_joined TimeoutJoin ?fin = (r, op')" by fastforce
  have "can_join ?fin" by (simp add: can_join_def)
  from timeout_reply_after_completion [OF reach flash_step.joined [OF this j], of 99]
  show ?thesis by blast
qed

end
