(* ===== verification/AtCommand.thy ===== *)
theory AtCommand
  imports Upload_Props Handlers Session Flash_Props
begin

text \<open>
  The command processor, \<open>AtCommand::process\<close> of \<open>src/at_command.cpp\<close>: one command line, its
  caller, and everything the commands act on (the session lock, the upload session, the flash
  operation, the files).

  A command either returns a reply, or waits in \<open>join\<close> for the flash worker (only
  \<open>AT+TRYFLASHDONE\<close>; \<open>process_joined\<close> is the rest of the call), or ends the process (only
  \<open>AT+FLASH\<close>).
\<close>

section \<open>The code\<close>

record daemon =
  d_owner :: Owner
  d_upload :: UploadState
  d_flash :: FlashOp
  d_fs :: fs

definition daemon_new :: "fs \<Rightarrow> daemon" where
  "daemon_new fs = \<lparr>d_owner = NONE, d_upload = UploadState_new, d_flash = FlashOp_new, d_fs = fs\<rparr>"

datatype outcome = Replies string daemon | Joins flash_wait daemon | Dies

definition with_upload :: "daemon \<Rightarrow> string \<times> UploadState \<times> fs \<Rightarrow> outcome" where
  "with_upload d = (\<lambda>(r, u, fs). Replies r (d\<lparr>d_upload := u, d_fs := fs\<rparr>))"

definition with_owner :: "daemon \<Rightarrow> string \<times> Owner \<Rightarrow> outcome" where
  "with_owner d = (\<lambda>(r, owner). Replies r (d\<lparr>d_owner := owner\<rparr>))"

definition with_flash :: "daemon \<Rightarrow> flash_result \<Rightarrow> outcome" where
  "with_flash d res =
     (case res of Reply r op \<Rightarrow> Replies r (d\<lparr>d_flash := op\<rparr>)
                | Wait w op \<Rightarrow> Joins w (d\<lparr>d_flash := op\<rparr>)
                | Terminate \<Rightarrow> Dies)"

definition run_action :: "env \<Rightarrow> Config \<Rightarrow> Owner \<Rightarrow> string \<Rightarrow> string \<Rightarrow> daemon \<Rightarrow> outcome" where
  "run_action env cfg caller action arg d =
     (if action = ''STATUS'' then Replies (handle_status env cfg (d_owner d)) d
      else if action = ''VERSION'' then Replies (handle_version env) d
      else if action = ''RESET'' then with_owner d (handle_reset caller (d_owner d))
      else if action = ''FORCERESET'' then with_owner d (handle_forcereset (d_owner d))
      else if action = ''HELP'' then Replies handle_help d
      else if action = ''FLASH'' then with_flash d (handle_flash cfg arg (d_flash d))
      else if action = ''TRYFLASHDONE'' then with_flash d (handle_flashdone (e_now env) (d_flash d))
      else if action = ''EXEC'' then Replies (handle_exec env arg) d
      else if action = ''REBOOT'' then Replies (handle_reboot env) d
      else if action = ''VERIFY'' then Replies (handle_verify (e_io env) cfg arg (d_fs d)) d
      else if action = ''PREUPLOAD'' then
        with_upload d (handle_preupload (e_io env) cfg arg (d_upload d, d_fs d))
      else if action = ''UPLOAD'' then
        with_upload d (handle_upload_frame (e_io env) arg (d_upload d, d_fs d))
      else if action = ''UPLOADDONE'' then
        with_upload d (handle_uploaddone (e_io env) cfg (d_upload d, d_fs d))
      else if action = ''UPLOADCANCEL'' then
        with_upload d (handle_uploadcancel (e_io env) (d_upload d, d_fs d))
      else Replies (''ERROR: unknown command '' @ [CHR 0x27] @ ''AT+'' @ action @ [CHR 0x27]) d)"

definition process :: "env \<Rightarrow> Config \<Rightarrow> string \<Rightarrow> Owner \<Rightarrow> daemon \<Rightarrow> outcome" where
  "process env cfg raw_cmd caller d =
     (case at_request raw_cmd of
        Inl err \<Rightarrow> Replies err d
      | Inr (action, arg) \<Rightarrow> run_action env cfg caller action arg d)"

definition process_joined :: "flash_wait \<Rightarrow> daemon \<Rightarrow> string \<times> daemon" where
  "process_joined w d = (let (r, op) = flashdone_joined w (d_flash d) in (r, d\<lparr>d_flash := op\<rparr>))"

section \<open>Which command can change what\<close>

lemmas outcome_wrappers = with_upload_def with_owner_def with_flash_def

lemma run_action_simps:
  "run_action env cfg caller ''RESET'' arg d = with_owner d (handle_reset caller (d_owner d))"
  "run_action env cfg caller ''FORCERESET'' arg d = with_owner d (handle_forcereset (d_owner d))"
  "run_action env cfg caller ''FLASH'' arg d = with_flash d (handle_flash cfg arg (d_flash d))"
  "run_action env cfg caller ''TRYFLASHDONE'' arg d = with_flash d (handle_flashdone (e_now env) (d_flash d))"
  "run_action env cfg caller ''VERIFY'' arg d = Replies (handle_verify (e_io env) cfg arg (d_fs d)) d"
  "run_action env cfg caller ''PREUPLOAD'' arg d =
     with_upload d (upload_call cfg (e_io env, PreUpload arg) (d_upload d, d_fs d))"
  "run_action env cfg caller ''UPLOAD'' arg d =
     with_upload d (upload_call cfg (e_io env, UploadFrame arg) (d_upload d, d_fs d))"
  "run_action env cfg caller ''UPLOADDONE'' arg d =
     with_upload d (upload_call cfg (e_io env, UploadDone) (d_upload d, d_fs d))"
  "run_action env cfg caller ''UPLOADCANCEL'' arg d =
     with_upload d (upload_call cfg (e_io env, UploadCancel) (d_upload d, d_fs d))"
  by (simp_all add: run_action_def)

lemma run_action_other:
  "action \<notin> {''PREUPLOAD'', ''UPLOAD'', ''UPLOADDONE'', ''UPLOADCANCEL'', ''FLASH'', ''TRYFLASHDONE'',
     ''RESET'', ''FORCERESET''} \<Longrightarrow> \<exists>r. run_action env cfg caller action arg d = Replies r d"
  by (simp add: run_action_def)

lemma process_action:
  "process env cfg raw caller d = Replies r d' \<Longrightarrow> at_action raw = action \<Longrightarrow>
     (action = [] \<and> d' = d) \<or> (\<exists>arg. run_action env cfg caller action arg d = Replies r d')"
  by (auto simp: process_def at_action_def split: sum.splits)

text \<open>What a command with a reply leaves alone, by the name of the command.\<close>

definition frame_of :: "string \<Rightarrow> Owner \<Rightarrow> daemon \<Rightarrow> daemon \<Rightarrow> bool" where
  "frame_of action caller d d' \<longleftrightarrow>
     (d_owner d' = d_owner d \<or> action \<in> {''RESET'', ''FORCERESET''} \<and> d_owner d' = NONE)
   \<and> (d_upload d' = d_upload d \<or> action \<in> {''PREUPLOAD'', ''UPLOAD'', ''UPLOADDONE'', ''UPLOADCANCEL''})
   \<and> (d_fs d' = d_fs d \<or> action \<in> {''PREUPLOAD'', ''UPLOAD'', ''UPLOADDONE'', ''UPLOADCANCEL'', ''EXEC'', ''REBOOT''})
   \<and> (d_flash d' = d_flash d \<or> action \<in> {''FLASH'', ''TRYFLASHDONE''})
   \<and> (d' = d \<or> action \<noteq> ''RESET'' \<or> d_owner d = caller)"

lemma frame_of_refl [simp]: "frame_of action caller d d"
  by (simp add: frame_of_def)

lemma handle_flash_not_waiting: "handle_flash cfg arg op \<noteq> Wait w op'"
  by (auto simp: handle_flash_def Let_def split: sum.splits worker.splits if_splits)

lemma handle_flashdone_not_terminating: "handle_flashdone now op \<noteq> Terminate"
  by (auto simp: handle_flashdone_def Let_def split: if_splits)

lemma run_action_frame:
  "case run_action env cfg caller action arg d of
     Replies r d' \<Rightarrow> frame_of action caller d d'
   | Joins w d' \<Rightarrow> action = ''TRYFLASHDONE'' \<and> d' = d\<lparr>d_flash := d_flash d'\<rparr>
   | Dies \<Rightarrow> action = ''FLASH''"
proof -
  consider (upload) "action \<in> {''PREUPLOAD'', ''UPLOAD'', ''UPLOADDONE'', ''UPLOADCANCEL''}"
    | (flash) "action = ''FLASH''" | (poll) "action = ''TRYFLASHDONE''" | (reset) "action = ''RESET''"
    | (force) "action = ''FORCERESET''"
    | (other) "action \<notin> {''PREUPLOAD'', ''UPLOAD'', ''UPLOADDONE'', ''UPLOADCANCEL'', ''FLASH'', ''TRYFLASHDONE'',
         ''RESET'', ''FORCERESET''}" unfolding insert_iff empty_iff by argo
  then show ?thesis
  proof cases
    case upload
    then have "\<exists>res. run_action env cfg caller action arg d = with_upload d res"
      using run_action_simps(6-9) [of env cfg caller arg d] by blast
    then obtain res where "run_action env cfg caller action arg d = with_upload d res" by blast
    moreover obtain r u fs where "res = (r, u, fs)" by (rule prod_cases3)
    ultimately show ?thesis using upload by (auto simp: with_upload_def frame_of_def)
  next
    case flash
    then show ?thesis
      using handle_flash_not_waiting by (auto simp: run_action_simps with_flash_def frame_of_def split: flash_result.split)
  next
    case poll
    then show ?thesis
      using handle_flashdone_not_terminating by (auto simp: run_action_simps with_flash_def frame_of_def split: flash_result.split)
  next
    case reset
    then show ?thesis
      by (auto simp: run_action_simps with_owner_def handle_reset_def release_def frame_of_def)
  next
    case force
    then show ?thesis by (simp add: run_action_simps with_owner_def handle_forcereset_def force_release_def frame_of_def)
  next
    case other
    from run_action_other [OF this, of env cfg caller arg d] show ?thesis by auto
  qed
qed

text \<open>
  C29: every command stays in its own part of the daemon's state, whoever sends the line and whatever
  it contains. If the command returns, the session lock has changed only by RESET or FORCERESET (and is
  then free), the upload session only by the four upload commands, the files only by these (or by the
  shell that EXEC and REBOOT start, of which nothing is claimed), the flash operation only by FLASH and
  TRYFLASHDONE; and RESET from a side that does not own the lock has changed nothing. Only TRYFLASHDONE
  waits (for the worker), and neither before nor after the wait does it change anything but the flash
  operation; only FLASH ends the process.
\<close>

theorem command_frame:
  "(case process env cfg raw caller d of
      Replies r d' \<Rightarrow> frame_of (at_action raw) caller d d'
    | Joins w d' \<Rightarrow> at_action raw = ''TRYFLASHDONE'' \<and> d' = d\<lparr>d_flash := d_flash d'\<rparr>
    | Dies \<Rightarrow> at_action raw = ''FLASH'')
   \<and> snd (process_joined w d) = d\<lparr>d_flash := d_flash (snd (process_joined w d))\<rparr>"
proof
  show "case process env cfg raw caller d of
      Replies r d' \<Rightarrow> frame_of (at_action raw) caller d d'
    | Joins w d' \<Rightarrow> at_action raw = ''TRYFLASHDONE'' \<and> d' = d\<lparr>d_flash := d_flash d'\<rparr>
    | Dies \<Rightarrow> at_action raw = ''FLASH''"
    using run_action_frame [where action = "at_action raw" and d = d and caller = caller]
    by (auto simp: process_def at_action_def split: sum.split)
  show "snd (process_joined w d) = d\<lparr>d_flash := d_flash (snd (process_joined w d))\<rparr>"
    by (simp add: process_joined_def Let_def split: prod.split)
qed

text \<open>An environment in which everything succeeds, for concrete runs.\<close>

definition env_ok :: env where
  "env_ok =
     \<lparr>e_io = io_all_ok, e_now = 0, e_uptime = 0, e_serial_open = True, e_popen = (\<lambda>_. Some ([], 0)),
      e_system = (\<lambda>_. 0), e_allow_rce = False, e_allow_reboot = False, e_version = ''0.1.0-dev'',
      e_arch = ''aarch64'', e_build = ''Jan  1 2025 00:00:00''\<rparr>"

lemma at_request_plain:
  assumes "act \<noteq> []" "CHR ''='' \<notin> set act" "last act \<notin> {CHR 0x0D, CHR 0x0A, CHR '' ''}"
  shows "at_request (''AT+'' @ act) = Inr (map to_upper act, [])"
proof -
  have "at_trim (''AT+'' @ act) = ''AT+'' @ act"
    by (rule at_trim_id) (use assms in auto)
  then show ?thesis
    using parse_at_join(2) [OF assms(1,2)] by (simp add: at_request_def)
qed

lemma upper_names:
  "map to_upper ''PREUPLOAD'' = ''PREUPLOAD''" "map to_upper ''UPLOAD'' = ''UPLOAD''"
  "map to_upper ''UPLOADDONE'' = ''UPLOADDONE''" "map to_upper ''VERIFY'' = ''VERIFY''"
  "map to_upper ''RESET'' = ''RESET''" "map to_upper ''HELP'' = ''HELP''"
  by (simp_all add: to_upper_def)

section \<open>Lines of text\<close>

text \<open>Feeding lines to the processor one after the other, until one of them does not return.\<close>

fun run_lines :: "env \<Rightarrow> Config \<Rightarrow> Owner \<Rightarrow> string list \<Rightarrow> daemon \<Rightarrow> (string list \<times> daemon) option" where
  "run_lines env cfg caller [] d = Some ([], d)"
| "run_lines env cfg caller (line # lines) d =
     (case process env cfg line caller d of
        Replies r d' \<Rightarrow> map_option (\<lambda>(rs, d''). (r # rs, d'')) (run_lines env cfg caller lines d')
      | Joins w d' \<Rightarrow> None
      | Dies \<Rightarrow> None)"

definition upload_lines :: "string \<Rightarrow> byte list list \<Rightarrow> string list" where
  "upload_lines name frames =
     (''AT+PREUPLOAD='' @ client_begin name (length (concat frames)) (md5_compute (concat frames)))
       # map (\<lambda>bs. ''AT+UPLOAD='' @ client_frame bs) frames @ [''AT+UPLOADDONE'']"

text \<open>The acknowledgements of the frames: the running total.\<close>

fun frame_acks :: "nat \<Rightarrow> byte list list \<Rightarrow> string list" where
  "frame_acks n [] = []"
| "frame_acks n (bs # frames) = (''OK '' @ dec_str (n + length bs)) # frame_acks (n + length bs) frames"

lemma digit_not_blank: "is_digit c \<Longrightarrow> c \<notin> {CHR 0x0D, CHR 0x0A, CHR '' ''}"
  by (auto simp: is_digit_def)

lemma xdigit_not_blank: "is_xdigit c \<Longrightarrow> c \<notin> {CHR 0x0D, CHR 0x0A, CHR '' ''}"
  by (auto simp: is_xdigit_def)

lemma last_frame: "last (client_frame bs) \<notin> {CHR 0x0D, CHR 0x0A, CHR '' ''}"
proof -
  have "dec_str (length bs) \<noteq> []" by (cases "dec_str (length bs)") (auto simp: dec_str.simps [of "length bs"] split: if_splits)
  then have "last (client_frame bs) \<in> set (dec_str (length bs))"
    by (simp add: client_frame_def frame_text_def)
  then show ?thesis using dec_str_digits digit_not_blank by blast
qed

lemma last_begin:
  assumes "md5_text md5"
  shows "last (client_begin name n md5) \<notin> {CHR 0x0D, CHR 0x0A, CHR '' ''}"
proof -
  have "md5 \<noteq> []" using assms by (auto simp: md5_text_def)
  then have "last (client_begin name n md5) \<in> set md5" by (simp add: client_begin_def)
  then show ?thesis
    using assms xdigit_not_blank by (auto simp: md5_text_def list_all_iff)
qed

lemma process_upload:
  "process env cfg (''AT+UPLOAD='' @ client_frame bs) caller d =
     with_upload d (handle_upload_frame (e_io env) (client_frame bs) (d_upload d, d_fs d))"
  using at_request_join [of "''UPLOAD''" "client_frame bs" "[]"] last_frame upper_names
  by (simp add: process_def run_action_simps)

lemma process_begin:
  "md5_text md5 \<Longrightarrow> process env cfg (''AT+PREUPLOAD='' @ client_begin name n md5) caller d =
     with_upload d (handle_preupload (e_io env) cfg (client_begin name n md5) (d_upload d, d_fs d))"
  using at_request_join [of "''PREUPLOAD''" "client_begin name n md5" "[]"] last_begin upper_names
  by (simp add: process_def run_action_simps)

lemma process_done:
  "process env cfg ''AT+UPLOADDONE'' caller d =
     with_upload d (handle_uploaddone (e_io env) cfg (d_upload d, d_fs d))"
  using at_request_plain [of "''UPLOADDONE''"] upper_names
  by (simp add: process_def run_action_simps)

lemma process_verify:
  assumes "arg = [] \<or> last arg \<notin> {CHR 0x0D, CHR 0x0A, CHR '' ''}"
  shows "process env cfg (''AT+VERIFY='' @ arg) caller d = Replies (handle_verify (e_io env) cfg arg (d_fs d)) d"
  using at_request_join [of "''VERIFY''" arg "[]"] assms upper_names
  by (simp add: process_def run_action_simps)

end
