(* ===== verification/AtUpload.thy ===== *)
theory AtUpload
  imports AtCommand
begin

text \<open>
  The upload protocol and \<open>AT+VERIFY\<close> as a client sees them: lines of text in, lines of text out,
  through the parser, the dispatcher, the session and the files.
\<close>

lemma run_lines_append:
  "run_lines env cfg caller (ls @ ms) d =
     (case run_lines env cfg caller ls d of
        None \<Rightarrow> None
      | Some (rs, d') \<Rightarrow> map_option (\<lambda>(rs', d''). (rs @ rs', d'')) (run_lines env cfg caller ms d'))"
  by (induction ls arbitrary: d)
     (auto split: outcome.splits option.splits simp: option.map_comp comp_def case_prod_unfold option.map_ident)

lemma run_frames:
  assumes "upload_inv cfg (d_upload d, d_fs d)" "session_of (d_upload d, d_fs d) = Receiving name n md5 bs"
    and "io_writes_ok (e_io env)" "\<forall>xs\<in>set frames. length xs < 2 ^ 32"
    and "length bs + length (concat frames) < 2 ^ 64"
  shows "\<exists>d'. run_lines env cfg caller (map (\<lambda>bs. ''AT+UPLOAD='' @ client_frame bs) frames) d
      = Some (frame_acks (length bs) frames, d')
    \<and> upload_inv cfg (d_upload d', d_fs d')
    \<and> session_of (d_upload d', d_fs d') = Receiving name n md5 (bs @ concat frames)"
  using assms
proof (induction frames arbitrary: d bs)
  case Nil
  then show ?case by simp
next
  case (Cons xs frames)
  obtain f where f: "u_file (d_upload d) = Some f"
    using Cons.prems(2) by (cases "u_file (d_upload d)") auto
  have buf: "st_buf f = bs" using Cons.prems(2) f by simp
  note o = upload_inv_open [OF Cons.prems(1) f]
  have len: "length xs < 2 ^ 32" using Cons.prems(4) by simp
  obtain u' f' where h: "handle_upload_frame (e_io env) (client_frame xs) (d_upload d, d_fs d) =
       (''OK '' @ dec_str (unat (u_received (d_upload d) + of_nat (length xs))), u', d_fs d)"
    and u': "u' = (d_upload d)\<lparr>u_file := Some f', u_md5_ctx := MD5_update (u_md5_ctx (d_upload d)) xs,
        u_received := u_received (d_upload d) + of_nat (length xs),
        u_frame_count := u_frame_count (d_upload d) + 1\<rparr>" "st_buf f' = st_buf f @ xs"
    by (rule frame_accepted [OF o(1) f len Cons.prems(3)])
  let ?d = "d\<lparr>d_upload := u', d_fs := d_fs d\<rparr>"
  have "length bs + length xs < 2 ^ 64" using Cons.prems(5) by simp
  then have "unat (u_received (d_upload d) + of_nat (length xs)) = length bs + length xs"
    using o(7) buf unat_of_nat [of "length bs + length xs", where 'a = 64] by simp
  then have p: "process env cfg (''AT+UPLOAD='' @ client_frame xs) caller d =
      Replies (''OK '' @ dec_str (length bs + length xs)) ?d"
    using h by (simp only: process_upload with_upload_def split_conv)
  have inv: "upload_inv cfg (d_upload ?d, d_fs ?d)"
    using upload_inv_frame [OF Cons.prems(1,3), of "client_frame xs"] h by simp
  have ses: "session_of (d_upload ?d, d_fs ?d) = Receiving name n md5 (bs @ xs)"
    using Cons.prems(2) f u' buf by simp
  have "\<forall>xs\<in>set frames. length xs < 2 ^ 32" "length (bs @ xs) + length (concat frames) < 2 ^ 64"
    using Cons.prems(4,5) by simp_all
  from Cons.IH [OF inv ses Cons.prems(3) this] p show ?case by (auto simp: add.assoc)
qed

end
