(* ===== verification/HttpCommand.thy ===== *)
theory HttpCommand
  imports AtCommand
begin

text \<open>
  The two ways a command reaches the processor: \<open>POST /api/command\<close>
  (\<open>src/http_handler/handler_command.cpp\<close>, with \<open>handler_reset.cpp\<close> and \<open>handler_status.cpp\<close>) and the
  serial reader loop (\<open>src/serial_daemon.cpp\<close>). Here the calls run one at a time; their interleaving
  at the session lock is the subject of theory \<open>Session\<close>.

  The JSON library (nlohmann) is not part of the repository. Parsing is the argument \<open>parse\<close>, which
  gives the message of a parse error, or says whether the text has a string member \<open>cmd\<close>. Printing
  is the argument \<open>dumpable\<close>: \<open>dump()\<close> throws on a string that is not UTF-8; the exception is not
  a \<open>parse_error\<close>, so nothing catches it and the process ends.
\<close>

section \<open>The code\<close>

datatype json_request = ParseError string | NoCmd | Cmd string

text \<open>
  \<open>JRaw\<close>: a string the code puts between the quotes of a JSON text as it is, without the library and
  without escaping anything in it.
\<close>

datatype json_value = JStr string | JRaw string | JNum int | JBool bool | JNull

type_synonym json_object = "(string \<times> json_value) list"

text \<open>
  What one call of a request handler does: ask for more of the body (with what was kept of it),
  queue a response, wait for the flash worker, or end the process.
\<close>

datatype http_result =
    More string daemon
  | Response nat json_object daemon
  | HttpJoins flash_wait daemon
  | HttpDies

definition send_json :: "(string \<Rightarrow> bool) \<Rightarrow> nat \<Rightarrow> json_object \<Rightarrow> daemon \<Rightarrow> http_result" where
  "send_json dumpable code resp d =
     (if list_all (\<lambda>(k, v). case v of JStr s \<Rightarrow> dumpable s | _ \<Rightarrow> True) resp then Response code resp d
      else HttpDies)"

definition busy_response :: json_object where
  "busy_response =
     [(''status'', JStr ''busy''), (''message'', JStr ''serial daemon is busy, wait for AT+RESET'')]"

text \<open>The session lock of lines 53 to 71: whether the command may proceed, and the owner.\<close>

definition http_lock :: "string \<Rightarrow> Owner \<Rightarrow> bool \<times> Owner" where
  "http_lock cmd owner =
     (if \<not> bypass_lock cmd then
        (if \<not> is_busy owner then try_acquire HTTP owner
         else if owner \<noteq> HTTP then (False, owner)
         else (True, owner))
      else (True, owner))"

definition command_response :: "(string \<Rightarrow> bool) \<Rightarrow> outcome \<Rightarrow> http_result" where
  "command_response dumpable out =
     (case out of
        Replies response d \<Rightarrow>
          send_json dumpable 200 [(''status'', JStr ''ok''), (''response'', JStr response)] d
      | Joins w d \<Rightarrow> HttpJoins w d
      | Dies \<Rightarrow> HttpDies)"

definition handle_command ::
    "(string \<Rightarrow> json_request) \<Rightarrow> (string \<Rightarrow> bool) \<Rightarrow> env \<Rightarrow> Config \<Rightarrow> string \<Rightarrow> string \<Rightarrow> daemon \<Rightarrow> http_result"
  where
  "handle_command parse dumpable env cfg upload_data cmd_body d =
     (if upload_data \<noteq> [] then More (cmd_body @ upload_data) d
      else if cmd_body = [] then More cmd_body d
      else case parse cmd_body of
        ParseError what \<Rightarrow>
          send_json dumpable 400 [(''status'', JStr ''error''), (''message'', JStr (''Invalid JSON: '' @ what))] d
      | NoCmd \<Rightarrow>
          Response 400 [(''status'', JStr ''error''),
            (''message'', JStr (''Missing '' @ [CHR 0x27] @ ''cmd'' @ [CHR 0x27] @ '' field''))] d
      | Cmd cmd \<Rightarrow>
          (let (proceed, owner) = http_lock cmd (d_owner d); d = d\<lparr>d_owner := owner\<rparr>
           in if \<not> proceed then send_json dumpable 503 busy_response d
              else command_response dumpable (process env cfg cmd HTTP d)))"

text \<open>The rest of the call after a wait for the worker.\<close>

definition http_joined :: "(string \<Rightarrow> bool) \<Rightarrow> flash_wait \<Rightarrow> daemon \<Rightarrow> http_result" where
  "http_joined dumpable w d =
     command_response dumpable (case process_joined w d of (r, d) \<Rightarrow> Replies r d)"

definition handle_http_reset :: "daemon \<Rightarrow> http_result" where
  "handle_http_reset d = Response 200 [(''status'', JStr ''ok'')] (d\<lparr>d_owner := force_release (d_owner d)\<rparr>)"

definition handle_http_status :: "(string \<Rightarrow> bool) \<Rightarrow> env \<Rightarrow> Config \<Rightarrow> daemon \<Rightarrow> http_result" where
  "handle_http_status dumpable env cfg d =
     send_json dumpable 200
       [(''status'', JStr ''ok''), (''version'', JStr ''0.1.0''), (''uptime_seconds'', JNum (e_uptime env)),
        (''serial_port'', JStr (cfg_serial_device cfg)), (''serial_connected'', JBool (e_serial_open env)),
        (''daemon_busy'', JBool (is_busy (d_owner d))),
        (''lock_owner'', if is_busy (d_owner d)
           then JStr (if d_owner d = HTTP then ''HTTP'' else ''SERIAL'') else JNull),
        (''port'', JNum (uint (cfg_port cfg))), (''upload_dir'', JStr (cfg_upload_dir cfg))] d"

text \<open>
  One turn of the serial reader loop with a line in hand: what is written back (nothing for an empty
  response) and the daemon afterwards.
\<close>

datatype serial_result = Writes "string list" daemon | SerialJoins flash_wait daemon | SerialDies

definition serial_turn :: "env \<Rightarrow> Config \<Rightarrow> string \<Rightarrow> daemon \<Rightarrow> serial_result" where
  "serial_turn env cfg line d =
     (let (acquired, owner) = try_acquire SERIAL (d_owner d); d = d\<lparr>d_owner := owner\<rparr>
      in if \<not> acquired \<and> d_owner d \<noteq> SERIAL then Writes [''BUSY''] d
      else case process env cfg line SERIAL d of
        Replies response d \<Rightarrow> Writes (if response \<noteq> [] then [response] else []) d
      | Joins w d \<Rightarrow> SerialJoins w d
      | Dies \<Rightarrow> SerialDies)"

text \<open>A whole request: the pieces of the body as they arrive, then the call without data.\<close>

fun command_request ::
    "(string \<Rightarrow> json_request) \<Rightarrow> (string \<Rightarrow> bool) \<Rightarrow> env \<Rightarrow> Config \<Rightarrow> string list \<Rightarrow> string \<Rightarrow> daemon \<Rightarrow> http_result"
  where
  "command_request parse dumpable env cfg [] cmd_body d = handle_command parse dumpable env cfg [] cmd_body d"
| "command_request parse dumpable env cfg (chunk # chunks) cmd_body d =
     (case handle_command parse dumpable env cfg chunk cmd_body d of
        More cmd_body d \<Rightarrow> command_request parse dumpable env cfg chunks cmd_body d
      | res \<Rightarrow> res)"

section \<open>Lemmas\<close>

lemma command_request_chunks:
  "[] \<notin> set chunks \<Longrightarrow>
     command_request parse dumpable env cfg chunks cmd_body d =
     handle_command parse dumpable env cfg [] (cmd_body @ concat chunks) d"
  by (induction chunks arbitrary: cmd_body) (auto simp: handle_command_def)

lemma http_lock_denied: "\<not> bypass_lock cmd \<Longrightarrow> http_lock cmd SERIAL = (False, SERIAL)"
  by (simp add: http_lock_def owner_ops)

lemma http_lock_granted: "\<not> bypass_lock cmd \<Longrightarrow> owner \<noteq> SERIAL \<Longrightarrow> http_lock cmd owner = (True, HTTP)"
  by (cases owner) (simp_all add: http_lock_def owner_ops)



lemma process_owner:
  assumes "process env cfg raw caller d = Replies r d'" "at_action raw \<notin> {''RESET'', ''FORCERESET''}"
  shows "d_owner d' = d_owner d"
proof -
  from process_action [OF assms(1) refl] consider "d' = d"
    | arg where "run_action env cfg caller (at_action raw) arg d = Replies r d'" by blast
  then show ?thesis
  proof cases
    case 2
    show ?thesis
    proof (cases "at_action raw \<in> {''PREUPLOAD'', ''UPLOAD'', ''UPLOADDONE'', ''UPLOADCANCEL'', ''FLASH'', ''TRYFLASHDONE''}")
      case True
      with 2 show ?thesis
        by (auto simp: run_action_simps outcome_wrappers split: prod.splits flash_result.splits)
    next
      case False
      with 2 assms(2) run_action_other [of "at_action raw" env cfg caller arg d] show ?thesis by auto
    qed
  qed simp
qed

lemma command_response_owner:
  assumes "command_response dumpable (process env cfg cmd HTTP d) = Response code resp d'"
    and "at_action cmd \<notin> {''RESET'', ''FORCERESET''}"
  shows "d_owner d' = d_owner d"
  using assms process_owner [of env cfg cmd HTTP d]
  by (cases "process env cfg cmd HTTP d") (auto simp: command_response_def send_json_def split: if_splits)

text \<open>
  A session excludes the other side until it is reset. Once HTTP has been given the response
  200 to a command that needs the lock and is not a reset, HTTP owns the lock, and as long as it
  does every line from the serial side is answered BUSY and changes nothing in the daemon.
\<close>

theorem http_session_excludes_serial:
  assumes "command_request parse dumpable env cfg chunks [] d = Response 200 resp d'"
    and "concat chunks \<noteq> []" "[] \<notin> set chunks"
    and "parse (concat chunks) = Cmd cmd" "\<not> bypass_lock cmd" "at_action cmd \<notin> {''RESET'', ''FORCERESET''}"
  shows "d_owner d' = HTTP \<and> serial_turn env' cfg line d' = Writes [''BUSY''] d'"
proof -
  have h: "handle_command parse dumpable env cfg [] (concat chunks) d = Response 200 resp d'"
    using assms(1) by (simp only: command_request_chunks [OF assms(3)] append_Nil)
  have owner: "d_owner d \<noteq> SERIAL"
  proof
    assume "d_owner d = SERIAL"
    with h assms(2,4,5) show False
      by (auto simp: handle_command_def http_lock_denied send_json_def simp del: concat_eq_Nil_conv
          split: if_splits)
  qed
  with h assms(2,4,5) have "command_response dumpable (process env cfg cmd HTTP (d\<lparr>d_owner := HTTP\<rparr>)) = Response 200 resp d'"
    by (simp add: handle_command_def http_lock_granted del: concat_eq_Nil_conv)
  then have "d_owner d' = HTTP"
    using command_response_owner [OF _ assms(6)] by fastforce
  then show ?thesis by (simp add: serial_turn_def owner_ops)
qed

theorem http_session_excludes_serial_witness:
  "\<exists>resp d'. command_request (\<lambda>_. Cmd ''AT+HELP'') (\<lambda>_. True) env_ok Config_default [''x''] [] (daemon_new fs_empty)
      = Response 200 resp d'
    \<and> d_owner d' = HTTP \<and> serial_turn env_ok Config_default ''AT+FORCERESET'' d' = Writes [''BUSY''] d'"
proof -
  have act: "at_request ''AT+HELP'' = Inr (''HELP'', [])"
    using at_request_plain [of "''HELP''"] upper_names by simp
  have byp: "\<not> bypass_lock ''AT+HELP''"
    by (simp add: bypass_lock_def find_char_from_def)
  have "run_action env_ok Config_default HTTP ''HELP'' [] d = Replies handle_help d" for d
    by (simp add: run_action_def)
  then have h: "command_request (\<lambda>_. Cmd ''AT+HELP'') (\<lambda>_. True) env_ok Config_default [''x''] [] (daemon_new fs_empty)
      = Response 200 [(''status'', JStr ''ok''), (''response'', JStr handle_help)] (daemon_new fs_empty\<lparr>d_owner := HTTP\<rparr>)"
    using http_lock_granted [OF byp, of NONE]
    by (simp add: handle_command_def process_def act command_response_def send_json_def daemon_new_def)
  show ?thesis
    using http_session_excludes_serial [OF h, of "''AT+HELP''" env_ok "''AT+FORCERESET''"] h byp act
    by (simp add: at_action_def)
qed

end
