(* ===== verification/HttpUpload.thy ===== *)
theory HttpUpload
  imports HttpCommand
begin

text \<open>
  \<open>POST /api/upload\<close> and the routing of requests: \<open>ConnectionState\<close> of \<open>include/http_server.h\<close>, the
  callback of the multipart parser and \<open>accessHandler\<close> of \<open>src/http_server.cpp\<close>, and
  \<open>src/http_handler/handler_upload.cpp\<close>.

  The multipart parser belongs to libmicrohttpd: which callbacks it makes for a piece of the body is
  an argument (a list of \<open>part\<close>s: field name, file name, data), and it stops at the first callback
  that returns \<open>MHD_NO\<close>. The upload directory is taken to be UTF-8 text, so that the final response
  can be printed.
\<close>

section \<open>The code\<close>

datatype RequestType = RT_NONE | RT_UPLOAD | RT_COMMAND | RT_STATUS | RT_RESET

record ConnectionState =
  c_type :: RequestType
  c_pp :: bool
  c_upload_filename :: string
  c_upload_tmp_path :: string
  c_upload_file :: "stream option"
  c_upload_size :: "64 word"
  c_cmd_body :: string
  c_upload_dir :: string
  c_upload_data_received :: bool
  c_upload_error :: string

definition ConnectionState_new :: ConnectionState where
  "ConnectionState_new =
     \<lparr>c_type = RT_NONE, c_pp = False, c_upload_filename = [], c_upload_tmp_path = [], c_upload_file = None,
      c_upload_size = 0, c_cmd_body = [], c_upload_dir = [], c_upload_data_received = False,
      c_upload_error = []\<rparr>"

definition validate_filename :: "string \<Rightarrow> bool" where
  "validate_filename name =
     (if name = [] \<or> 255 < length name then False
      else if name = ''.'' \<or> name = ''..'' then False
      else if find_char CHR ''/'' name \<noteq> None then False
      else if find_char CHR 0x5C name \<noteq> None then False
      else if str_contains ''..'' name then False
      else list_all (\<lambda>c. is_alnum c \<or> c = CHR ''-'' \<or> c = CHR ''_'' \<or> c = CHR ''.'') name)"

record part =
  p_key :: "string option"
  p_filename :: "string option"
  p_data :: "byte list"

text \<open>The callback, once per piece of a field; the result is whether the parser goes on.\<close>

definition post_field ::
    "io \<Rightarrow> int \<Rightarrow> part \<Rightarrow> ConnectionState \<times> fs \<Rightarrow> bool \<times> ConnectionState \<times> fs" where
  "post_field io now p = (\<lambda>(c, fs).
     let append = (\<lambda>(c, fs).
           case c_upload_file c of
             Some f \<Rightarrow>
               if p_data p \<noteq> [] then
                 (True, c\<lparr>c_upload_file := Some (snd (fwrite io f (p_data p))),
                          c_upload_size := c_upload_size c + of_nat (length (p_data p))\<rparr>, fs)
               else (True, c, fs)
           | None \<Rightarrow> (True, c, fs))
     in if p_key p \<noteq> None \<and> the (p_key p) \<noteq> ''firmware'' then
          (True, c\<lparr>c_upload_error := ''unexpected field '' @ [CHR 0x27] @ the (p_key p)
                     @ [CHR 0x27] @ '' (expected '' @ [CHR 0x27] @ ''firmware'' @ [CHR 0x27] @ '')''\<rparr>, fs)
        else case (p_filename p, p_key p) of
          (Some filename, Some key) \<Rightarrow>
            if \<not> validate_filename filename then
              (True, c\<lparr>c_upload_error := ''rejected filename '' @ [CHR 0x27] @ filename @ [CHR 0x27]\<rparr>, fs)
            else if c_upload_tmp_path c = [] then
              (let tmp_name = dec_str_int now @ ''_'' @ filename;
                   tmp_path = c_upload_dir c @ ''/'' @ tmp_name;
                   (file, fs) = fopen_wb io fs tmp_path;
                   c = c\<lparr>c_upload_filename := filename, c_upload_tmp_path := tmp_path, c_upload_file := file\<rparr>
               in if file = None then (False, c, fs) else append (c, fs))
            else append (c, fs)
        | _ \<Rightarrow> append (c, fs))"

fun post_process :: "io \<Rightarrow> int \<Rightarrow> part list \<Rightarrow> ConnectionState \<times> fs \<Rightarrow> ConnectionState \<times> fs" where
  "post_process io now [] s = s"
| "post_process io now (p # ps) s =
     (let (continue, s) = post_field io now p s in if continue then post_process io now ps s else s)"

datatype upload_result = Waits ConnectionState fs | Answers nat json_object ConnectionState fs

definition error_json :: "string \<Rightarrow> json_object" where
  "error_json msg = [(''status'', JStr ''error''), (''message'', JStr msg)]"

text \<open>
  One call of \<open>handleUpload\<close>: with a piece of the body (the callbacks it gives rise to), or without
  data.
\<close>

definition handle_upload ::
    "io \<Rightarrow> Config \<Rightarrow> int \<Rightarrow> part list option \<Rightarrow> ConnectionState \<times> fs \<Rightarrow> upload_result" where
  "handle_upload io cfg now upload_data = (\<lambda>(c, fs).
     if \<not> c_pp c then Answers 400 (error_json ''No multipart data'') c fs
     else case upload_data of
       Some parts \<Rightarrow>
         (let (c, fs) = post_process io now parts (c\<lparr>c_upload_data_received := True\<rparr>, fs) in Waits c fs)
     | None \<Rightarrow>
       if c_upload_size c = 0 \<and> c_upload_file c = None then
         (if \<not> c_upload_data_received c then Waits c fs
          else Answers 400 [(''status'', JStr ''error''), (''message'', JRaw (''Upload failed: ''
                 @ (if c_upload_error c = [] then ''no firmware data'' else c_upload_error c)))] c fs)
       else case c_upload_file c of
         Some f \<Rightarrow>
           (let fs = fclose io fs f;
                c = c\<lparr>c_upload_file := None\<rparr>
            in if \<not> validate_filename (c_upload_filename c) then
                 Answers 400 (error_json ''invalid filename'') c (unlink io fs (c_upload_tmp_path c))
            else let final_name = c_upload_filename c;
                     final_path = cfg_upload_dir cfg @ ''/'' @ final_name;
                     (moved, fs) = (if fs_lookup fs (c_upload_tmp_path c) \<noteq> None
                                    then rename io fs (c_upload_tmp_path c) final_path else (True, fs))
            in if \<not> moved then Answers 500 (error_json ''Failed to save file'') c fs
               else Answers 200 [(''status'', JStr ''ok''), (''filename'', JStr final_name),
                      (''path'', JStr final_path), (''size'', JNum (uint (c_upload_size c)))] c fs)
       | None \<Rightarrow>
           if 0 < c_upload_size c \<or> c_upload_filename c \<noteq> [] then
             Answers 400 (error_json ''filename rejected by validator'') c fs
           else Answers 400 (error_json ''Upload failed'') c fs)"

text \<open>\<open>ConnectionState::~ConnectionState\<close>\<close>

definition ConnectionState_destroy :: "io \<Rightarrow> ConnectionState \<times> fs \<Rightarrow> fs" where
  "ConnectionState_destroy io = (\<lambda>(c, fs).
     case c_upload_file c of
       None \<Rightarrow> fs
     | Some f \<Rightarrow>
         (let fs = fclose io fs f
          in if c_upload_size c = 0 \<and> c_upload_tmp_path c \<noteq> [] then unlink io fs (c_upload_tmp_path c) else fs))"

text \<open>
  The first call of \<open>accessHandler\<close> for a request: the connection state, or in a debug build the
  response of the lock endpoint. \<open>multipart\<close>: \<open>MHD_create_post_processor\<close> accepted the request.
\<close>

datatype first_call = Accepts ConnectionState | Debug nat json_object Owner

definition access_first ::
    "bool \<Rightarrow> bool \<Rightarrow> Config \<Rightarrow> string \<Rightarrow> string \<Rightarrow> Owner \<Rightarrow> first_call" where
  "access_first debug multipart cfg url meth owner =
     (let state = ConnectionState_new\<lparr>c_upload_dir := cfg_upload_dir cfg\<rparr>
      in if url = ''/api/upload'' \<and> meth = ''POST'' then
           Accepts (state\<lparr>c_type := RT_UPLOAD, c_pp := multipart\<rparr>)
         else if url = ''/api/command'' \<and> meth = ''POST'' then Accepts (state\<lparr>c_type := RT_COMMAND\<rparr>)
         else if url = ''/api/status'' \<and> meth = ''GET'' then Accepts (state\<lparr>c_type := RT_STATUS\<rparr>)
         else if url = ''/api/reset'' \<and> meth = ''POST'' then Accepts (state\<lparr>c_type := RT_RESET\<rparr>)
         else if debug \<and> url = ''/api/debug/lock-serial'' \<and> meth = ''POST'' then
           (let (ok, owner) = try_acquire SERIAL owner
            in if ok then Debug 200 [(''status'', JStr ''ok''), (''message'', JStr ''Lock acquired for SERIAL'')] owner
               else Debug 409 (error_json ''Lock is already held'') owner)
         else Accepts state)"

text \<open>
  A later call: the handler of the request's type, with what its calls put into the connection state
  and the daemon. \<open>upload_data\<close> is the piece of the body, \<open>parts\<close> what the multipart parser makes of
  it.
\<close>

datatype access_result = Yes ConnectionState daemon | Queues nat json_object ConnectionState daemon
  | AccessJoins flash_wait daemon | AccessDies

definition access_handler ::
    "(string \<Rightarrow> json_request) \<Rightarrow> (string \<Rightarrow> bool) \<Rightarrow> env \<Rightarrow> Config \<Rightarrow> string \<Rightarrow> part list
       \<Rightarrow> ConnectionState \<Rightarrow> daemon \<Rightarrow> access_result" where
  "access_handler parse dumpable env cfg upload_data parts c d =
     (let of_http = (\<lambda>res. case res of
            More body d \<Rightarrow> Yes (c\<lparr>c_cmd_body := body\<rparr>) d
          | Response code json d \<Rightarrow> Queues code json c d
          | HttpJoins w d \<Rightarrow> AccessJoins w d
          | HttpDies \<Rightarrow> AccessDies)
      in case c_type c of
        RT_UPLOAD \<Rightarrow>
          (case handle_upload (e_io env) cfg (e_now env) (if upload_data \<noteq> [] then Some parts else None) (c, d_fs d) of
             Waits c fs \<Rightarrow> Yes c (d\<lparr>d_fs := fs\<rparr>)
           | Answers code json c fs \<Rightarrow> Queues code json c (d\<lparr>d_fs := fs\<rparr>))
      | RT_COMMAND \<Rightarrow> of_http (handle_command parse dumpable env cfg upload_data (c_cmd_body c) d)
      | RT_STATUS \<Rightarrow> of_http (handle_http_status dumpable env cfg d)
      | RT_RESET \<Rightarrow> of_http (handle_http_reset d)
      | RT_NONE \<Rightarrow> Queues 404 (error_json ''Not found'') c d)"

end
