(* ===== verification/HttpUpload_Props.thy ===== *)
theory HttpUpload_Props
  imports HttpUpload
begin

text \<open>
  What the file name validator accepts, the complete multipart upload, and what becomes of it when a
  write falls short.
\<close>

section \<open>File names\<close>

lemma find_char_in: "find_char c s \<noteq> None \<longleftrightarrow> c \<in> set s"
  by (simp only: find_char_None not_not)

lemma alnum_chars: "is_alnum c \<or> c = CHR ''-'' \<or> c = CHR ''_'' \<or> c = CHR ''.'' \<Longrightarrow>
    c \<noteq> CHR ''/'' \<and> c \<noteq> CHR 0x5C \<and> c \<noteq> CHR 0x00 \<and> c \<noteq> CHR '','' \<and> c \<noteq> CHR '' ''"
  by (auto simp: is_alnum_def)

lemma validate_chars:
  assumes "list_all (\<lambda>c. is_alnum c \<or> c = CHR ''-'' \<or> c = CHR ''_'' \<or> c = CHR ''.'') name"
  shows "CHR ''/'' \<notin> set name" "CHR 0x5C \<notin> set name" "CHR 0x00 \<notin> set name" "CHR '','' \<notin> set name"
  using assms alnum_chars by (auto simp: list_all_iff)

text \<open>
  The validator accepts exactly the names that consist of letters, digits, dashes, underscores
  and dots, are not a single dot, and are acceptable to \<open>AT+PREUPLOAD\<close> (1 to 255 characters, no
  slash, no two dots in a row); they hold no comma and are passed whole to the C library (no NUL).
\<close>

theorem validate_filename_iff:
  "validate_filename name \<longleftrightarrow>
     safe_filename name \<and> name \<noteq> ''.'' \<and> CHR '','' \<notin> set name \<and> c_str name = name
     \<and> list_all (\<lambda>c. is_alnum c \<or> c \<in> set ''-_.'') name"
proof -
  have dots: "str_contains ''..'' ''..''" by simp
  have chars: "list_all (\<lambda>c. is_alnum c \<or> c \<in> set ''-_.'') name \<longleftrightarrow>
      list_all (\<lambda>c. is_alnum c \<or> c = CHR ''-'' \<or> c = CHR ''_'' \<or> c = CHR ''.'') name"
    by (simp add: list_all_iff)
  have "validate_filename name \<longleftrightarrow>
      name \<noteq> [] \<and> length name \<le> 255 \<and> name \<noteq> ''.'' \<and> \<not> str_contains ''..'' name
      \<and> list_all (\<lambda>c. is_alnum c \<or> c = CHR ''-'' \<or> c = CHR ''_'' \<or> c = CHR ''.'') name"
    unfolding validate_filename_def find_char_in using validate_chars [of name] dots
    by (auto simp: not_less)
  then show ?thesis
    unfolding chars using validate_chars [of name] c_str_id [of name] by (auto simp: safe_filename_def)
qed

lemma name_chars:
  assumes "validate_filename name"
  shows "CHR 0x00 \<notin> set name"
  using assms validate_chars(3) [of name] by (auto simp: validate_filename_def split: if_splits)

lemma dec_str_int_chars: "CHR 0x00 \<notin> set (dec_str_int z)"
proof -
  have "CHR 0x00 \<notin> set (dec_str n)" for n
    using dec_str_digits [of "CHR 0x00" n] by (auto simp: is_digit_def)
  then show ?thesis by (simp add: dec_str_int_def)
qed

lemma validate_not_empty: "validate_filename name \<Longrightarrow> name \<noteq> []"
  by (auto simp: validate_filename_def)

section \<open>The callbacks of one firmware part\<close>

definition firmware_part :: "string \<Rightarrow> byte list \<Rightarrow> part" where
  "firmware_part name bs = \<lparr>p_key = Some ''firmware'', p_filename = Some name, p_data = bs\<rparr>"

definition http_tmp_path :: "string \<Rightarrow> int \<Rightarrow> string \<Rightarrow> string" where
  "http_tmp_path dir now name = dir @ ''/'' @ dec_str_int now @ ''_'' @ name"

text \<open>A connection that has opened its file and taken \<open>bs\<close> so far.\<close>

definition receiving :: "string \<Rightarrow> string \<Rightarrow> byte list \<Rightarrow> ConnectionState \<Rightarrow> fs \<Rightarrow> bool" where
  "receiving name tmp bs c fs \<longleftrightarrow>
     c_pp c \<and> c_upload_filename c = name \<and> c_upload_tmp_path c = tmp
     \<and> c_upload_size c = of_nat (length bs)
     \<and> (\<exists>f. c_upload_file c = Some f \<and> fs_staged fs tmp f bs)"

lemma post_field_open:
  assumes "validate_filename name" "c_upload_tmp_path c = []" "c_upload_size c = 0" "c_pp c"
    and "io_create io (c_str (http_tmp_path (c_upload_dir c) now name))" "io_writes_ok io"
  obtains c' fs' where "post_field io now (firmware_part name bs) (c, fs) = (True, c', fs')"
    "receiving name (http_tmp_path (c_upload_dir c) now name) bs c' fs'"
proof -
  let ?tmp = "http_tmp_path (c_upload_dir c) now name"
  obtain f fs' where o: "fopen_wb io fs ?tmp = (Some f, fs')"
    using fopen_wb_ok [OF assms(5)] by blast
  have st: "fs_staged fs' ?tmp f []" by (rule fs_store.op_staged [OF o])
  then have wr: "fs_staged fs' ?tmp (snd (fwrite io f bs)) bs"
    using fs_store.wr_good_staged [OF assms(6) st, of bs] by simp
  show ?thesis
  proof (cases "bs = []")
    case True
    show ?thesis
      by (rule that [of "c\<lparr>c_upload_filename := name, c_upload_tmp_path := ?tmp, c_upload_file := Some f\<rparr>" fs'])
         (use assms(1-4) o st True in \<open>simp_all add: post_field_def firmware_part_def receiving_def
           http_tmp_path_def Let_def\<close>)
  next
    case False
    show ?thesis
      by (rule that [of "c\<lparr>c_upload_filename := name, c_upload_tmp_path := ?tmp,
            c_upload_file := Some (snd (fwrite io f bs)), c_upload_size := of_nat (length bs)\<rparr>" fs'])
         (use assms(1-4) o wr False in \<open>simp_all add: post_field_def firmware_part_def receiving_def
           http_tmp_path_def Let_def\<close>)
  qed
qed

lemma post_field_more:
  assumes "receiving name tmp bs c fs" "validate_filename name" "tmp \<noteq> []" "io_writes_ok io"
  obtains c' where "post_field io now (firmware_part name xs) (c, fs) = (True, c', fs)"
    "receiving name tmp (bs @ xs) c' fs"
proof -
  obtain f where f: "c_upload_file c = Some f" "fs_staged fs tmp f bs"
    using assms(1) by (auto simp: receiving_def)
  have wr: "fs_staged fs tmp (snd (fwrite io f xs)) (bs @ xs)"
    by (rule fs_store.wr_good_staged [OF assms(4) f(2)])
  show ?thesis
  proof (cases "xs = []")
    case True
    show ?thesis
      by (rule that [of c]) (use assms f True in \<open>simp_all add: post_field_def firmware_part_def receiving_def\<close>)
  next
    case False
    show ?thesis
      by (rule that [of "c\<lparr>c_upload_file := Some (snd (fwrite io f xs)),
            c_upload_size := c_upload_size c + of_nat (length xs)\<rparr>"])
         (use assms f wr False in \<open>simp_all add: post_field_def firmware_part_def receiving_def\<close>)
  qed
qed

lemma post_process_more:
  assumes "receiving name tmp bs c fs" "validate_filename name" "tmp \<noteq> []" "io_writes_ok io"
  obtains c' where "post_process io now (map (firmware_part name) xss) (c, fs) = (c', fs)"
    "receiving name tmp (bs @ concat xss) c' fs"
  using assms
proof (induction xss arbitrary: c bs thesis)
  case Nil
  then show ?case by simp
next
  case (Cons xs xss)
  obtain c1 where c1: "post_field io now (firmware_part name xs) (c, fs) = (True, c1, fs)"
    "receiving name tmp (bs @ xs) c1 fs"
    by (rule post_field_more [OF Cons.prems(2-5)])
  obtain c2 where "post_process io now (map (firmware_part name) xss) (c1, fs) = (c2, fs)"
    "receiving name tmp ((bs @ xs) @ concat xss) c2 fs"
    by (rule Cons.IH [OF _ c1(2) Cons.prems(3-5)])
  with c1 show ?case by (intro Cons.prems(1) [of c2]) simp_all
qed

section \<open>The whole request\<close>

text \<open>The calls of one request: the pieces of the body, then the call without data.\<close>

fun upload_request ::
    "io \<Rightarrow> Config \<Rightarrow> int \<Rightarrow> part list list \<Rightarrow> ConnectionState \<times> fs \<Rightarrow> upload_result" where
  "upload_request io cfg now [] s = handle_upload io cfg now None s"
| "upload_request io cfg now (ps # pss) s =
     (case handle_upload io cfg now (Some ps) s of
        Waits c fs \<Rightarrow> upload_request io cfg now pss (c, fs)
      | res \<Rightarrow> res)"

lemma receiving_received: "receiving name tmp bs c fs \<Longrightarrow> receiving name tmp bs (c\<lparr>c_upload_data_received := True\<rparr>) fs"
  by (simp add: receiving_def)

lemma upload_calls_more:
  assumes "receiving name tmp bs c fs" "validate_filename name" "tmp \<noteq> []" "io_writes_ok io"
  obtains c' where "upload_request io cfg now (map (map (firmware_part name)) xsss) (c, fs)
      = handle_upload io cfg now None (c', fs)"
    "receiving name tmp (bs @ concat (concat xsss)) c' fs"
  using assms
proof (induction xsss arbitrary: c bs thesis)
  case Nil
  then show ?case by simp
next
  case (Cons xss xsss)
  have rec: "receiving name tmp bs (c\<lparr>c_upload_data_received := True\<rparr>) fs"
    by (rule receiving_received [OF Cons.prems(2)])
  obtain c1 where c1: "post_process io now (map (firmware_part name) xss) (c\<lparr>c_upload_data_received := True\<rparr>, fs) = (c1, fs)"
    "receiving name tmp (bs @ concat xss) c1 fs"
    by (rule post_process_more [OF rec Cons.prems(3-5)])
  obtain c2 where "upload_request io cfg now (map (map (firmware_part name)) xsss) (c1, fs)
      = handle_upload io cfg now None (c2, fs)"
    "receiving name tmp ((bs @ concat xss) @ concat (concat xsss)) c2 fs"
    by (rule Cons.IH [OF _ c1(2) Cons.prems(3-5)])
  with c1 Cons.prems(2) show ?case
    by (intro Cons.prems(1) [of c2]) (simp_all add: handle_upload_def receiving_def)
qed

lemma handle_upload_saves:
  assumes "c_pp c" "c_upload_filename c = name" "c_upload_tmp_path c = tmp" "c_upload_file c = Some f"
    and "fs_staged fs tmp f bs" "validate_filename name" "\<forall>n. n \<le> io_flush io n" "\<forall>p q. io_rename io p q"
    and "c_str tmp \<noteq> c_str (cfg_upload_dir cfg @ ''/'' @ name)"
  obtains c' fs' where "handle_upload io cfg now None (c, fs) =
      Answers 200 [(''status'', JStr ''ok''), (''filename'', JStr name),
        (''path'', JStr (cfg_upload_dir cfg @ ''/'' @ name)), (''size'', JNum (uint (c_upload_size c)))] c' fs'"
    "fs_lookup fs' (cfg_upload_dir cfg @ ''/'' @ name) = Some bs" "fs_lookup fs' tmp = None"
proof -
  let ?final = "cfg_upload_dir cfg @ ''/'' @ name"
  have names: "fs_names (fclose io fs f) (c_str tmp) = Some (st_inode f)"
    using assms(5) by (simp add: fs_staged_def)
  then obtain fs' where mv: "rename io (fclose io fs f) tmp ?final = (True, fs')"
    using assms(8) by (simp add: rename_def)
  have closed: "fs_lookup (fclose io fs f) tmp = Some bs" by (rule fclose_staged [OF assms(7,5)])
  then have "fs_lookup fs' ?final = Some bs" using fs_store.mv_look [OF mv] by (rule trans [rotated])
  then show ?thesis
    using assms(1-6) closed mv rename_source_gone [OF mv assms(9)]
    by (intro that [of "c\<lparr>c_upload_file := None\<rparr>" fs']) (auto simp: handle_upload_def)
qed

lemma handle_upload_final:
  assumes "receiving name tmp bs c fs" "validate_filename name" "io_writes_ok io" "\<forall>p q. io_rename io p q"
    and "c_str tmp \<noteq> c_str (cfg_upload_dir cfg @ ''/'' @ name)"
  obtains c' fs' where "handle_upload io cfg now None (c, fs) =
      Answers 200 [(''status'', JStr ''ok''), (''filename'', JStr name),
        (''path'', JStr (cfg_upload_dir cfg @ ''/'' @ name)), (''size'', JNum (uint (of_nat (length bs) :: 64 word)))] c' fs'"
    "fs_lookup fs' (cfg_upload_dir cfg @ ''/'' @ name) = Some bs" "fs_lookup fs' tmp = None"
proof -
  obtain f where f: "c_upload_file c = Some f" "fs_staged fs tmp f bs"
    using assms(1) by (auto simp: receiving_def)
  have c: "c_pp c" "c_upload_filename c = name" "c_upload_tmp_path c = tmp" "c_upload_size c = of_nat (length bs)"
    using assms(1) by (simp_all add: receiving_def)
  have flush: "\<forall>n. n \<le> io_flush io n" using assms(3) by (simp add: io_writes_ok_def)
  show ?thesis
    by (rule handle_upload_saves [OF c(1-3) f assms(2) flush assms(4,5), of now]) (use that c(4) in simp)
qed

lemma http_paths_differ:
  assumes "validate_filename name" "CHR 0x00 \<notin> set dir"
  shows "c_str (http_tmp_path dir now name) \<noteq> c_str (dir @ ''/'' @ name)"
proof -
  have "length (http_tmp_path dir now name) \<noteq> length (dir @ ''/'' @ name)"
    by (simp add: http_tmp_path_def)
  moreover have "CHR 0x00 \<notin> set (http_tmp_path dir now name)" "CHR 0x00 \<notin> set (dir @ ''/'' @ name)"
    using assms name_chars dec_str_int_chars by (auto simp: http_tmp_path_def)
  ultimately show ?thesis by (metis c_str_id)
qed

text \<open>
  C30: a complete multipart upload works. From a fresh connection, for every accepted file name and
  every way the parser cuts the firmware part into callbacks and the server into calls, the response
  is 200 with the name, the path and the size, the file under its final name holds exactly the data,
  and the temporary name is gone.
\<close>

theorem http_upload_complete:
  assumes c: "c_pp c" "c_upload_tmp_path c = []" "c_upload_size c = 0" "c_upload_dir c = cfg_upload_dir cfg"
    and name: "validate_filename name"
    and io: "io_writes_ok io" "\<forall>p. io_create io p" "\<forall>p q. io_rename io p q"
    and nul: "CHR 0x00 \<notin> set (cfg_upload_dir cfg)"
  shows "\<exists>c' fs'. upload_request io cfg now (map (map (firmware_part name)) ((bs # xss) # xsss)) (c, fs) =
      Answers 200 [(''status'', JStr ''ok''), (''filename'', JStr name),
        (''path'', JStr (cfg_upload_dir cfg @ ''/'' @ name)),
        (''size'', JNum (uint (of_nat (length (concat (concat ((bs # xss) # xsss)))) :: 64 word)))] c' fs'
    \<and> fs_lookup fs' (cfg_upload_dir cfg @ ''/'' @ name) = Some (concat (concat ((bs # xss) # xsss)))
    \<and> fs_lookup fs' (http_tmp_path (cfg_upload_dir cfg) now name) = None"
proof -
  let ?tmp = "http_tmp_path (cfg_upload_dir cfg) now name"
  have tmp: "?tmp \<noteq> []" by (simp add: http_tmp_path_def)
  note differ = http_paths_differ [OF name nul, of now]
  let ?c = "c\<lparr>c_upload_data_received := True\<rparr>"
  have c0: "c_upload_tmp_path ?c = []" "c_upload_size ?c = 0" "c_pp ?c" using c by simp_all
  have create: "io_create io (c_str (http_tmp_path (c_upload_dir ?c) now name))" using io(2) by simp
  obtain c1 fs1 where c1: "post_field io now (firmware_part name bs) (?c, fs) = (True, c1, fs1)"
    "receiving name ?tmp bs c1 fs1"
    by (rule post_field_open [OF name c0 create io(1)]) (use c(4) in simp)
  obtain c2 where c2: "post_process io now (map (firmware_part name) xss) (c1, fs1) = (c2, fs1)"
    "receiving name ?tmp (bs @ concat xss) c2 fs1"
    by (rule post_process_more [OF c1(2) name tmp io(1)])
  obtain c3 where c3: "upload_request io cfg now (map (map (firmware_part name)) xsss) (c2, fs1)
      = handle_upload io cfg now None (c3, fs1)"
    "receiving name ?tmp ((bs @ concat xss) @ concat (concat xsss)) c3 fs1"
    by (rule upload_calls_more [OF c2(2) name tmp io(1)])
  have "upload_request io cfg now (map (map (firmware_part name)) ((bs # xss) # xsss)) (c, fs) =
      handle_upload io cfg now None (c3, fs1)"
    using c1 c2 c3 c(1) by (simp add: handle_upload_def)
  moreover obtain c' fs' where "handle_upload io cfg now None (c3, fs1) =
      Answers 200 [(''status'', JStr ''ok''), (''filename'', JStr name),
        (''path'', JStr (cfg_upload_dir cfg @ ''/'' @ name)),
        (''size'', JNum (uint (of_nat (length ((bs @ concat xss) @ concat (concat xsss))) :: 64 word)))] c' fs'"
    "fs_lookup fs' (cfg_upload_dir cfg @ ''/'' @ name) = Some ((bs @ concat xss) @ concat (concat xsss))"
    "fs_lookup fs' ?tmp = None"
    by (rule handle_upload_final [OF c3(2) name io(1,3) differ])
  ultimately show ?thesis by (intro exI [of _ c'] exI [of _ fs']) simp
qed

theorem http_upload_complete_witness:
  "\<exists>c' fs'. upload_request io_all_ok Config_default 7
        (map (map (firmware_part ''fw.bin'')) (([1] # [[2]]) # [[[3]]]))
        (ConnectionState_new\<lparr>c_pp := True, c_upload_dir := cfg_upload_dir Config_default\<rparr>, fs_empty) =
      Answers 200 [(''status'', JStr ''ok''), (''filename'', JStr ''fw.bin''),
        (''path'', JStr (cfg_upload_dir Config_default @ ''/'' @ ''fw.bin'')),
        (''size'', JNum (uint (of_nat (length (concat (concat (([1] # [[2]]) # [[[3 :: byte]]])))) :: 64 word)))] c' fs'
    \<and> fs_lookup fs' (cfg_upload_dir Config_default @ ''/'' @ ''fw.bin'') = Some (concat (concat (([1] # [[2]]) # [[[3]]])))
    \<and> fs_lookup fs' (http_tmp_path (cfg_upload_dir Config_default) 7 ''fw.bin'') = None"
  by (rule http_upload_complete)
     (simp_all add: ConnectionState_new_def validate_filename_def is_alnum_def Config_default_def)

text \<open>
  A write that falls short goes unnoticed: the callback ignores the result of \<open>fwrite\<close>. When the
  data of an upload arrives in one piece and the stream takes only \<open>k\<close> of its bytes, the response
  is still 200 with the full size, and the file under its final name holds the first \<open>k\<close> bytes.
\<close>

theorem http_short_write_unnoticed:
  assumes c: "c_pp c" "c_upload_tmp_path c = []" "c_upload_size c = 0" "c_upload_dir c = cfg_upload_dir cfg"
    and name: "validate_filename name"
    and io: "\<forall>n. n \<le> io_flush io n" "\<forall>p. io_create io p" "\<forall>p q. io_rename io p q"
    and short: "io_write io (length bs) = k" "k < length bs"
    and nul: "CHR 0x00 \<notin> set (cfg_upload_dir cfg)"
  shows "\<exists>c' fs'. upload_request io cfg now [[firmware_part name bs]] (c, fs) =
      Answers 200 [(''status'', JStr ''ok''), (''filename'', JStr name),
        (''path'', JStr (cfg_upload_dir cfg @ ''/'' @ name)), (''size'', JNum (uint (of_nat (length bs) :: 64 word)))] c' fs'
    \<and> fs_lookup fs' (cfg_upload_dir cfg @ ''/'' @ name) = Some (take k bs)"
proof -
  let ?tmp = "http_tmp_path (cfg_upload_dir cfg) now name"
  have "io_create io (c_str ?tmp)" using io(2) by simp
  then obtain f fs1 where o: "fopen_wb io fs ?tmp = (Some f, fs1)" using fopen_wb_ok by blast
  have st: "fs_staged fs1 ?tmp f []" by (rule fs_store.op_staged [OF o])
  have w: "fwrite io f bs = (k, f\<lparr>st_buf := take k bs\<rparr>)"
    using short st by (simp add: fwrite_def fs_staged_def)
  let ?f = "f\<lparr>st_buf := take k bs\<rparr>"
  let ?c = "c\<lparr>c_upload_data_received := True, c_upload_filename := name, c_upload_tmp_path := ?tmp,
      c_upload_file := Some ?f, c_upload_size := of_nat (length bs)\<rparr>"
  have st': "fs_staged fs1 ?tmp ?f (take k bs)" using st by (simp add: fs_staged_def)
  have "bs \<noteq> []" using short(2) by auto
  then have "post_field io now (firmware_part name bs) (c\<lparr>c_upload_data_received := True\<rparr>, fs) = (True, ?c, fs1)"
    using c name o w by (simp add: post_field_def firmware_part_def http_tmp_path_def Let_def)
  then have run: "upload_request io cfg now [[firmware_part name bs]] (c, fs) = handle_upload io cfg now None (?c, fs1)"
    using c(1) by (simp add: handle_upload_def)
  have pp: "c_pp ?c" "c_upload_filename ?c = name" "c_upload_tmp_path ?c = ?tmp" "c_upload_file ?c = Some ?f"
    using c(1) by simp_all
  show ?thesis
    unfolding run
    by (rule handle_upload_saves [OF pp st' name io(1,3) http_paths_differ [OF name nul], of now]) auto
qed

theorem http_short_write_unnoticed_witness:
  "\<exists>c' fs'. upload_request (io_all_ok\<lparr>io_write := \<lambda>_. 2\<rparr>) Config_default 7 [[firmware_part ''fw'' [1, 2, 3]]]
        (ConnectionState_new\<lparr>c_pp := True, c_upload_dir := cfg_upload_dir Config_default\<rparr>, fs_empty) =
      Answers 200 [(''status'', JStr ''ok''), (''filename'', JStr ''fw''),
        (''path'', JStr (cfg_upload_dir Config_default @ ''/'' @ ''fw'')),
        (''size'', JNum (uint (of_nat (length [1, 2, 3 :: byte]) :: 64 word)))] c' fs'
    \<and> fs_lookup fs' (cfg_upload_dir Config_default @ ''/'' @ ''fw'') = Some (take 2 [1, 2, 3])"
  by (rule http_short_write_unnoticed)
     (simp_all add: ConnectionState_new_def validate_filename_def is_alnum_def Config_default_def)

end
