(* ===== verification/Upload_Clash.thy ===== *)
theory Upload_Clash
  imports HttpUpload_Props
begin

text \<open>
  The two ways of uploading meet: \<open>POST /api/upload\<close> does not ask for the session lock, and the
  temporary file of an AT upload lies under a name the HTTP validator accepts. An HTTP upload of that
  name takes the file away from under the AT session.
\<close>

lemma upload_tmp_is_http_final:
  "cfg_upload_dir cfg @ ''/'' @ ''upload_'' @ name @ ''.tmp'' = upload_tmp_path cfg name"
  by (simp add: upload_tmp_path_def)

lemma fclose_at: "fs_inodes (fclose io fs f) i = (if i = st_inode f then
    (let w = take (io_flush io (length (st_buf f))) (st_buf f) in w @ drop (length w) (fs_inodes fs i)) else fs_inodes fs i)"
  by (simp add: fclose_def Let_def)

text \<open>The final call of the HTTP upload, with the store it leaves.\<close>

lemma http_takes_name:
  assumes "receiving name tmp bs c fs" "validate_filename name" "io_writes_ok io" "\<forall>p q. io_rename io p q"
    and "c_str tmp \<noteq> c_str (cfg_upload_dir cfg @ ''/'' @ name)"
  obtains c' fs' i where "handle_upload io cfg now None (c, fs) =
      Answers 200 [(''status'', JStr ''ok''), (''filename'', JStr name),
        (''path'', JStr (cfg_upload_dir cfg @ ''/'' @ name)), (''size'', JNum (uint (of_nat (length bs) :: 64 word)))] c' fs'"
    and "fs_names fs (c_str tmp) = Some i"
    and "fs_names fs' (c_str (cfg_upload_dir cfg @ ''/'' @ name)) = Some i" "fs_inodes fs' i = bs"
proof -
  let ?final = "cfg_upload_dir cfg @ ''/'' @ name"
  obtain g where g: "c_upload_file c = Some g" "fs_staged fs tmp g bs" and c: "c_pp c" "c_upload_filename c = name"
      "c_upload_tmp_path c = tmp" "c_upload_size c = of_nat (length bs)"
    using assms(1) by (auto simp: receiving_def)
  have names: "fs_names (fclose io fs g) (c_str tmp) = Some (st_inode g)"
    using g(2) by (simp add: fs_staged_def)
  have bs: "fs_inodes (fclose io fs g) (st_inode g) = bs"
    using g(2) assms(3) by (simp add: fclose_at fs_staged_def io_writes_ok_def)
  let ?fs = "(fclose io fs g)\<lparr>fs_names := (fs_names fs)(c_str tmp := None, c_str ?final \<mapsto> st_inode g)\<rparr>"
  have mv: "rename io (fclose io fs g) tmp ?final = (True, ?fs)"
    using assms(4) names by (simp add: rename_def)
  show ?thesis
  proof (rule that [of "c\<lparr>c_upload_file := None\<rparr>" ?fs "st_inode g"])
    show "handle_upload io cfg now None (c, fs) = Answers 200 [(''status'', JStr ''ok''), (''filename'', JStr name),
        (''path'', JStr ?final), (''size'', JNum (uint (of_nat (length bs) :: 64 word)))] (c\<lparr>c_upload_file := None\<rparr>) ?fs"
      using g c assms(2) mv names by (simp add: handle_upload_def fs_lookup_def Let_def)
  qed (use names bs in \<open>simp_all\<close>)
qed

text \<open>
  C24: an HTTP upload can replace the data of an AT upload that the MD5 was checked for. While an AT
  session of any name has received all its data, an HTTP upload of the file \<open>upload_<name>.tmp\<close> (of
  any content) is answered 200, although the session lock is held; \<open>AT+UPLOADDONE\<close> then still answers
  OK with the name, the size and the MD5 of the announced data, but the stored file holds the content
  of the HTTP upload.
\<close>

theorem http_upload_replaces_at_upload:
  assumes at: "upload_inv cfg (u, fs)" "session_of (u, fs) = Receiving name (length data) (md5_compute data) data"
      "length data < 2 ^ 64"
    and http: "receiving (''upload_'' @ name @ ''.tmp'') tmp evil c fs" "validate_filename (''upload_'' @ name @ ''.tmp'')"
      "c_str tmp \<noteq> c_str (upload_tmp_path cfg name)"
    and env: "fs_wf fs" "io_writes_ok io" "\<forall>p q. io_rename io p q"
  shows "\<exists>json c' fs1 u' fs2. handle_upload io cfg now None (c, fs) = Answers 200 json c' fs1
    \<and> handle_uploaddone io cfg (u, fs1) =
        (''OK '' @ name @ '' '' @ dec_str (length data) @ '' '' @ md5_compute data, u', fs2)
    \<and> fs_lookup fs2 (cfg_upload_dir cfg @ ''/'' @ name) = Some evil"
proof -
  let ?at = "upload_tmp_path cfg name" and ?final = "cfg_upload_dir cfg @ ''/'' @ name"
  obtain f where f: "u_file u = Some f" using at(2) by (cases "u_file u") auto
  have u: "u_filename u = name" "unat (u_expected_size u) = length data" "u_expected_md5 u = md5_compute data"
    "st_buf f = data" using at(2) f by auto
  note o = upload_inv_open [OF at(1) f] and dig = upload_inv_digest [OF at(1) f]
  have "u_expected_size u = of_nat (length data)" using u(2) by (metis of_nat_unat ucast_id)
  then have rec: "u_received u = u_expected_size u" using o(7) u(4) by simp
  have tmp: "u_tmp_path u = ?at" using o(3) u(1) by simp
  have fat: "fs_names fs (c_str ?at) = Some (st_inode f)" using o(8) tmp by (simp add: fs_staged_def)
  obtain c' fs1 i where h: "handle_upload io cfg now None (c, fs) = Answers 200 [(''status'', JStr ''ok''),
        (''filename'', JStr (''upload_'' @ name @ ''.tmp'')), (''path'', JStr ?at),
        (''size'', JNum (uint (of_nat (length evil) :: 64 word)))] c' fs1"
    and g: "fs_names fs (c_str tmp) = Some i" "fs_names fs1 (c_str ?at) = Some i" "fs_inodes fs1 i = evil"
    using http_takes_name [OF http(1,2) env(2,3), of cfg now] http(3) unfolding upload_tmp_is_http_final by blast
  have "i \<noteq> st_inode f" using fs_wf_inj [OF env(1)] g(1) fat http(3) by metis
  then have "fs_lookup (fclose io fs1 f) ?at = Some evil"
    using g(2,3) by (simp add: fs_lookup_def fclose_at)
  moreover obtain fs2 where mv: "rename io (fclose io fs1 f) ?at ?final = (True, fs2)"
    using g(2) env(3) by (simp add: rename_def)
  ultimately have "fs_lookup fs2 ?final = Some evil" using fs_store.mv_look [OF mv] by simp
  moreover have "\<exists>u'. handle_uploaddone io cfg (u, fs1) =
      (''OK '' @ name @ '' '' @ dec_str (length data) @ '' '' @ md5_compute data, u', fs2)"
    using f o(1) u tmp rec dig mv by (simp add: handle_uploaddone_def Let_def del: split_paired_Ex)
  ultimately show ?thesis using h by blast
qed

text \<open>A session of three bytes, all received, and an upload of one byte under the temporary name.\<close>

definition clash_fs :: fs where
  "clash_fs = \<lparr>fs_names = [''/up/upload_fw.tmp'' \<mapsto> 0, ''/up/7_upload_fw.tmp'' \<mapsto> 1], fs_inodes = (\<lambda>_. []), fs_next = 2\<rparr>"

definition clash_upload :: UploadState where
  "clash_upload = UploadState_new\<lparr>u_active := True, u_filename := ''fw'', u_tmp_path := ''/up/upload_fw.tmp'',
     u_expected_size := 3, u_received := 3, u_file := Some \<lparr>st_inode = 0, st_buf = [1, 2, 3]\<rparr>,
     u_expected_md5 := md5_compute [1, 2, 3], u_md5_ctx := MD5_update MD5_new [1, 2, 3]\<rparr>"

definition clash_connection :: ConnectionState where
  "clash_connection = ConnectionState_new\<lparr>c_type := RT_UPLOAD, c_pp := True, c_upload_dir := ''/up'',
     c_upload_filename := ''upload_fw.tmp'', c_upload_tmp_path := ''/up/7_upload_fw.tmp'',
     c_upload_file := Some \<lparr>st_inode = 1, st_buf = [9]\<rparr>, c_upload_size := 1, c_upload_data_received := True\<rparr>"

theorem http_upload_replaces_at_upload_witness:
  "\<exists>json c' fs1 u' fs2. handle_upload io_all_ok (Config_default\<lparr>cfg_upload_dir := ''/up''\<rparr>) 7 None (clash_connection, clash_fs)
      = Answers 200 json c' fs1
    \<and> handle_uploaddone io_all_ok (Config_default\<lparr>cfg_upload_dir := ''/up''\<rparr>) (clash_upload, fs1) =
        (''OK '' @ ''fw'' @ '' '' @ dec_str (length [1, 2, 3 :: byte]) @ '' '' @ md5_compute [1, 2, 3], u', fs2)
    \<and> fs_lookup fs2 (cfg_upload_dir (Config_default\<lparr>cfg_upload_dir := ''/up''\<rparr>) @ ''/'' @ ''fw'') = Some [9]"
proof (rule http_upload_replaces_at_upload)
  let ?cfg = "Config_default\<lparr>cfg_upload_dir := ''/up''\<rparr>"
  have "md5_wf (MD5_update MD5_new [1, 2, 3])" by (simp add: MD5_update_wf)
  then show "upload_inv ?cfg (clash_upload, clash_fs)"
    by (simp add: upload_inv_def upload_shape_def upload_sync_def clash_upload_def clash_fs_def upload_tmp_path_def
        safe_filename_def md5_text_compute fs_staged_def cstr_simps md5_eqv_def)
  show "session_of (clash_upload, clash_fs) = Receiving ''fw'' (length [1, 2, 3 :: byte]) (md5_compute [1, 2, 3]) [1, 2, 3]"
    by (simp add: session_of_def clash_upload_def)
  show "receiving (''upload_'' @ ''fw'' @ ''.tmp'') ''/up/7_upload_fw.tmp'' [9] clash_connection clash_fs"
    by (simp add: receiving_def clash_connection_def clash_fs_def fs_staged_def cstr_simps)
  show "validate_filename (''upload_'' @ ''fw'' @ ''.tmp'')"
    by (simp add: validate_filename_def is_alnum_def)
  show "c_str ''/up/7_upload_fw.tmp'' \<noteq> c_str (upload_tmp_path ?cfg ''fw'')"
    by (simp add: upload_tmp_path_def cstr_simps)
  show "fs_wf clash_fs"
    by (auto simp: fs_wf_def clash_fs_def split: if_splits)
qed simp_all

end
