(* ===== verification/Upload_Store.thy ===== *)
theory Upload_Store
  imports Upload_Props
begin

text \<open>
  What the upload directory can hold. Along any run of the upload commands (any texts, well-formed
  or not, any failures to create, open or move files) the files that do not have the name of a
  temporary file are either as they were or hold exactly what some \<open>AT+PREUPLOAD\<close> of the run
  announced. The property is one more instance of \<open>invariant_machine\<close>, beside \<open>upload_inv\<close> and
  \<open>confined\<close>.
\<close>

section \<open>Announcements\<close>

text \<open>What an accepted announcement says: the name, the size modulo \<open>2^64\<close>, and the MD5.\<close>

fun announcement :: "upload_cmd \<Rightarrow> (string \<times> 64 word \<times> string) option" where
  "announcement (PreUpload arg) = (case preupload_fields arg of Inr a \<Rightarrow> Some a | Inl err \<Rightarrow> None)"
| "announcement c = None"

definition announced :: "(io \<times> upload_cmd) list \<Rightarrow> (string \<times> 64 word \<times> string) set" where
  "announced ls = {a. \<exists>l \<in> set ls. announcement (snd l) = Some a}"

definition temporary :: "Config \<Rightarrow> string \<Rightarrow> bool" where
  "temporary cfg q \<longleftrightarrow> (\<exists>name. safe_filename name \<and> c_str q = c_str (upload_tmp_path cfg name))"

text \<open>The file \<open>q\<close> holds what one of the announcements \<open>A\<close> said.\<close>

definition holds_announced :: "Config \<Rightarrow> (string \<times> 64 word \<times> string) set \<Rightarrow> fs \<Rightarrow> string \<Rightarrow> bool" where
  "holds_announced cfg A fs q \<longleftrightarrow>
     (\<exists>name data. c_str q = c_str (cfg_upload_dir cfg @ ''/'' @ name) \<and> fs_lookup fs q = Some data
        \<and> (name, of_nat (length data), md5_compute data) \<in> A)"

definition vouched :: "Config \<Rightarrow> (string \<times> 64 word \<times> string) set \<Rightarrow> fs \<Rightarrow> UploadState \<times> fs \<Rightarrow> bool" where
  "vouched cfg A fs0 = (\<lambda>(u, fs).
     upload_inv cfg (u, fs) \<and> confined cfg fs0 (u, fs)
     \<and> (u_file u \<noteq> None \<longrightarrow> (u_filename u, u_expected_size u, u_expected_md5 u) \<in> A)
     \<and> (\<forall>q. \<not> temporary cfg q \<longrightarrow> fs_lookup fs q = fs_lookup fs0 q \<or> holds_announced cfg A fs q))"

section \<open>Every command keeps it\<close>

lemma holds_announced_cong: "fs_lookup fs' q = fs_lookup fs q \<Longrightarrow> holds_announced cfg A fs' q = holds_announced cfg A fs q"
  by (simp add: holds_announced_def)

text \<open>A step that leaves the other files alone, with or without a session open after it.\<close>

lemma vouched_frame:
  assumes "vouched cfg A fs0 (u, fs)" "upload_inv cfg (u', fs')" "confined cfg fs0 (u', fs')"
    and "u_file u' \<noteq> None \<Longrightarrow> (u_filename u', u_expected_size u', u_expected_md5 u') \<in> A"
    and "\<And>q. \<not> temporary cfg q \<Longrightarrow> fs_lookup fs' q = fs_lookup fs q \<or> holds_announced cfg A fs' q"
  shows "vouched cfg A fs0 (u', fs')"
proof -
  have "fs_lookup fs' q = fs_lookup fs0 q \<or> holds_announced cfg A fs' q" if "\<not> temporary cfg q" for q
    using assms(1,5) that holds_announced_cong [of fs' q fs cfg A] by (fastforce simp: vouched_def)
  then show ?thesis using assms(2-4) by (simp add: vouched_def)
qed

lemma temporary_tmp: "safe_filename name \<Longrightarrow> \<not> temporary cfg q \<Longrightarrow> c_str q \<noteq> c_str (upload_tmp_path cfg name)"
  by (auto simp: temporary_def)

lemma vouched_preupload:
  assumes "vouched cfg A fs0 (u, fs)" "handle_preupload io cfg arg (u, fs) = (reply, u', fs')"
    and "\<And>a. preupload_fields arg = Inr a \<Longrightarrow> a \<in> A"
  shows "vouched cfg A fs0 (u', fs')"
  using assms(2)
proof (cases rule: handle_preupload_cases)
  case refused
  with assms(1) show ?thesis by simp
next
  case (opened name n md5 f)
  have inv: "upload_inv cfg (u, fs)" "confined cfg fs0 (u, fs)" using assms(1) by (simp_all add: vouched_def)
  have wf: "fs_wf fs" using inv(2) by (simp add: confined_def)
  have name: "safe_filename name" using opened(3) by (auto simp: preupload_fields_Inr)
  show ?thesis
  proof (rule vouched_frame [OF assms(1)])
    show "upload_inv cfg (u', fs')" using upload_inv_preupload [OF inv(1), of io arg] assms(2) by simp
    show "confined cfg fs0 (u', fs')" by (rule confined_preupload [OF inv(2) assms(2)])
    show "(u_filename u', u_expected_size u', u_expected_md5 u') \<in> A" using assms(3) [OF opened(3)] opened(5) by simp
    show "fs_lookup fs' q = fs_lookup fs q \<or> holds_announced cfg A fs' q" if "\<not> temporary cfg q" for q
      using fopen_wb_other [OF wf opened(4) temporary_tmp [OF name that]] by simp
  qed
qed

lemma vouched_upload_frame:
  assumes "vouched cfg A fs0 (u, fs)" "handle_upload_frame io arg (u, fs) = (reply, u', fs')" "io_writes_ok io"
  shows "vouched cfg A fs0 (u', fs')"
proof -
  have inv: "upload_inv cfg (u, fs)" "confined cfg fs0 (u, fs)" using assms(1) by (simp_all add: vouched_def)
  have "fs' = fs \<and> (u_file u' \<noteq> None \<longrightarrow> u_file u \<noteq> None) \<and> u_filename u' = u_filename u
      \<and> u_expected_size u' = u_expected_size u \<and> u_expected_md5 u' = u_expected_md5 u"
    using assms(2)
  proof (cases rule: handle_upload_frame_cases)
    case (stored f crc bin)
    from stored(3) show ?thesis by (cases rule: store_frame_cases) (use stored in auto)
  qed simp
  then show ?thesis
    using assms(1) upload_inv_frame [OF inv(1) assms(3), of arg] confined_frame [OF inv(2) assms(2)] assms(2)
    by (intro vouched_frame [OF assms(1)]) (auto simp: vouched_def)
qed

lemma vouched_removed:
  assumes "vouched cfg A fs0 (u, fs)" "upload_inv cfg (u', fs')" "confined cfg fs0 (u', fs')"
    and "u_file u = Some f" "u_file u' = None" "fs' = unlink io (fclose io fs f) (u_tmp_path u)"
  shows "vouched cfg A fs0 (u', fs')"
proof (rule vouched_frame [OF assms(1-3)])
  note o = upload_inv_open [of cfg u fs f]
  have c: "fs_wf fs" "fs_names fs (c_str (u_tmp_path u)) = Some (st_inode f)"
    using assms(1,4) by (auto simp: vouched_def confined_def)
  show "fs_lookup fs' q = fs_lookup fs q \<or> holds_announced cfg A fs' q" if "\<not> temporary cfg q" for q
  proof -
    have "c_str q \<noteq> c_str (u_tmp_path u)"
      using temporary_tmp [OF o(4) that] o(3) assms(1,4) by (simp add: vouched_def)
    then show ?thesis using fclose_other [OF c] assms(6) by (simp add: fs_lookup_unlink)
  qed
qed (use assms(5) in simp)

lemma vouched_done:
  assumes "vouched cfg A fs0 (u, fs)" "handle_uploaddone io cfg (u, fs) = (reply, u', fs')" "io_writes_ok io"
  shows "vouched cfg A fs0 (u', fs')"
proof -
  have inv: "upload_inv cfg (u, fs)" "confined cfg fs0 (u, fs)" using assms(1) by (simp_all add: vouched_def)
  have inv': "upload_inv cfg (u', fs')" "confined cfg fs0 (u', fs')"
    using upload_inv_done [OF inv(1), of io] confined_done [OF inv(2) assms(2)] assms(2) by simp_all
  from assms(2) show ?thesis
  proof (cases rule: handle_uploaddone_cases)
    case idle
    with assms(1) show ?thesis by simp
  next
    case (failed f)
    show ?thesis by (rule vouched_removed [OF assms(1) inv' failed(2,5,7)])
  next
    case (saved f)
    note o = upload_inv_open [OF inv(1) saved(2)]
    let ?final = "cfg_upload_dir cfg @ ''/'' @ u_filename u"
    have wf: "fs_wf fs" using inv(2) by (simp add: confined_def)
    have at: "fs_names fs (c_str (u_tmp_path u)) = Some (st_inode f)" using o(8) by (simp add: fs_staged_def)
    have look: "fs_lookup fs' ?final = Some (st_buf f)" by (rule fs_store.commit [OF assms(3) o(8) saved(6)])
    have "(u_filename u, of_nat (length (st_buf f)), md5_compute (st_buf f)) \<in> A"
      using assms(1) saved(2,4,5) o(7) upload_inv_digest [OF inv(1) saved(2)] by (simp add: vouched_def)
    then have final: "holds_announced cfg A fs' q" if "c_str q = c_str ?final" for q
      using that look unfolding holds_announced_def by (metis fs_lookup_def)
    show ?thesis
    proof (rule vouched_frame [OF assms(1) inv'])
      show "fs_lookup fs' q = fs_lookup fs q \<or> holds_announced cfg A fs' q" if "\<not> temporary cfg q" for q
      proof (cases "c_str q = c_str ?final")
        case False
        have "c_str q \<noteq> c_str (u_tmp_path u)" using temporary_tmp [OF o(4) that] o(3) by simp
        then show ?thesis using rename_other [OF saved(6)] fclose_other [OF wf at] False by simp
      qed (use final in simp)
    qed (use saved(8) in simp)
  qed
qed

lemma vouched_cancel:
  assumes "vouched cfg A fs0 (u, fs)" "handle_uploadcancel io (u, fs) = (reply, u', fs')"
  shows "vouched cfg A fs0 (u', fs')"
proof (cases "u_active u")
  case False
  with assms show ?thesis by (simp add: handle_uploadcancel_def)
next
  case True
  have inv: "upload_inv cfg (u, fs)" "confined cfg fs0 (u, fs)" using assms(1) by (simp_all add: vouched_def)
  obtain f where f: "u_file u = Some f" using True inv(2) by (auto simp: confined_def)
  show ?thesis
    by (rule vouched_removed [OF assms(1) _ _ f])
       (use upload_inv_cancel [OF inv(1), of io] confined_cancel [OF inv(2) assms(2)] assms(2) True f
         in \<open>auto simp: handle_uploadcancel_def Let_def\<close>)
qed

lemma vouched_call:
  assumes "io_writes_ok (fst l) \<and> (\<forall>a. announcement (snd l) = Some a \<longrightarrow> a \<in> A)" "vouched cfg A fs0 s"
  shows "vouched cfg A fs0 (snd (upload_call cfg l s))"
proof -
  obtain io c u fs where l: "l = (io, c)" and s: "s = (u, fs)" by (cases l; cases s)
  obtain reply u' fs' where r: "upload_call cfg l s = (reply, u', fs')" by (rule prod_cases3)
  note inv = assms(2) [unfolded s] and io = assms(1) [unfolded l]
  have "vouched cfg A fs0 (u', fs')"
  proof (cases c)
    case (PreUpload arg)
    with r l s io show ?thesis by (intro vouched_preupload [OF inv]) auto
  next
    case (UploadFrame arg)
    with r l s io show ?thesis by (intro vouched_upload_frame [OF inv]) simp_all
  next
    case UploadDone
    with r l s io show ?thesis by (intro vouched_done [OF inv]) simp_all
  next
    case UploadCancel
    with r l s show ?thesis by (intro vouched_cancel [OF inv]) simp
  qed
  with r show ?thesis by simp
qed

interpretation upload_store: invariant_machine
    "\<lambda>l. io_writes_ok (fst l) \<and> (\<forall>a. announcement (snd l) = Some a \<longrightarrow> a \<in> A)"
    "\<lambda>l s. snd (upload_call cfg l s)" "vouched cfg A fs0" for cfg A fs0
  by unfold_locales (rule vouched_call)

lemma vouched_new: "fs_wf fs \<Longrightarrow> vouched cfg A fs (UploadState_new, fs)"
  using confined_new [of fs cfg] by (simp add: vouched_def UploadState_new_def [THEN arg_cong [where f = u_file]])

section \<open>The store\<close>

text \<open>
  The upload directory only ever holds firmware that was announced. After any sequence of upload
  commands with any texts, interrupted anywhere (every prefix is such a sequence), each file that
  does not have the name of a temporary file either has the content it had before, or lies in the
  upload directory under a name an \<open>AT+PREUPLOAD\<close> of the sequence announced, with exactly the MD5 and
  (modulo \<open>2^64\<close>) the size announced with it: a final file is never seen half written. Theory
  \<open>Upload_Race\<close> has the same for two threads.
\<close>

lemma store_integrity:
  assumes "fs_wf fs0" "list_all (\<lambda>l. io_writes_ok (fst l)) ls"
    and "upload_run cfg ls (UploadState_new, fs0) = (u, fs)"
    and "\<not> temporary cfg q" "fs_lookup fs q \<noteq> fs_lookup fs0 q"
  shows "\<exists>name data. c_str q = c_str (cfg_upload_dir cfg @ ''/'' @ name) \<and> safe_filename name
    \<and> fs_lookup fs q = Some data \<and> (name, of_nat (length data), md5_compute data) \<in> announced ls"
proof -
  have "list_all (\<lambda>l. io_writes_ok (fst l) \<and> (\<forall>a. announcement (snd l) = Some a \<longrightarrow> a \<in> announced ls)) ls"
    using assms(2) by (auto simp: list_all_iff announced_def)
  from upload_store.inv_run [OF this vouched_new [OF assms(1)], where cfg = cfg] assms(3)
  have "vouched cfg (announced ls) fs0 (u, fs)" by (simp add: upload_run_def)
  then have "holds_announced cfg (announced ls) fs q" using assms(4,5) unfolding vouched_def by blast
  moreover have "safe_filename (fst a)" if mem: "a \<in> announced ls" for a
  proof -
    obtain io c where "(io, c) \<in> set ls" "announcement c = Some a" using mem by (fastforce simp: announced_def)
    then show ?thesis
      by (cases c; cases a) (auto simp: preupload_fields_Inr split: sum.splits)
  qed
  ultimately show ?thesis unfolding holds_announced_def by fastforce
qed

text \<open>Three bytes, announced, sent and finished, for concrete runs.\<close>

lemma three_bytes_stored:
  obtains u fs where "upload_run Config_default (three_bytes @ [(io_all_ok, UploadDone)]) (UploadState_new, fs_empty) = (u, fs)"
    "fs_lookup fs ''/tmp/rk_flashd_uploads/fw'' = Some [1, 2, 3]"
proof -
  obtain u fs f where run: "upload_run Config_default three_bytes (UploadState_new, fs_empty) = (u, fs)"
    and inv: "upload_inv Config_default (u, fs)" and f: "u_file u = Some f"
    and ses: "session_of (u, fs) = Receiving ''fw'' (length [1, 2, 3 :: byte]) (md5_compute [1, 2, 3]) [1, 2, 3]"
    by (rule three_bytes_received)
  obtain u' fs' where d: "handle_uploaddone io_all_ok Config_default (u, fs) =
      (''OK '' @ ''fw'' @ '' '' @ dec_str (length [1, 2, 3 :: byte]) @ '' '' @ md5_compute [1, 2, 3], u', fs')"
    and look: "fs_lookup fs' (cfg_upload_dir Config_default @ ''/'' @ ''fw'') = Some [1, 2, 3]"
    by (rule finish_complete [OF inv io_all_ok_writes _ ses refl]) simp_all
  have "upload_run Config_default (three_bytes @ [(io_all_ok, UploadDone)]) (UploadState_new, fs_empty) = (u', fs')"
    using run d by (simp add: upload_run_def)
  then show ?thesis using that look by (simp add: Config_default_def)
qed

lemma not_temporary_fw: "\<not> temporary Config_default ''/tmp/rk_flashd_uploads/fw''"
  by (simp add: temporary_def upload_tmp_path_def Config_default_def cstr_simps)

end
