(* ===== verification/Upload_Steps.thy ===== *)
theory Upload_Steps
  imports Upload_Store
begin

text \<open>
  The handlers of \<open>src/at_handler/handler_upload.cpp\<close> statement by statement, on the one \<open>UploadState\<close>
  that all threads share (\<open>upload_state()\<close>). Every statement that reads or writes it, and every call of
  the C library, is a step; what only works on the command's own text goes with the statement before.
  A step with no result (None) is undefined behaviour: a call on a stream that was closed, or on the
  null pointer. Theory \<open>Upload_Race\<close> runs two threads of these statements; here one thread alone is
  shown to compute the handlers of theory \<open>Upload\<close>.
\<close>

section \<open>The statements\<close>

text \<open>
  The shared state: \<open>h_live\<close> says that the stream \<open>u.file\<close> points to is open. Between \<open>fclose(u.file)\<close>
  and \<open>u.file = nullptr\<close> the pointer dangles.
\<close>

record shared =
  h_u :: UploadState
  h_fs :: fs
  h_live :: bool

text \<open>Where a thread is; the names follow the handlers, the numbers of \<open>UPreSet\<close> and \<open>UReset\<close> the
  assignments.\<close>

datatype upload_pc =
    URet string
  | UPre string | UPreOpen string "64 word" string | UPreSet nat stream string "64 word" string
  | UFrame string | UFrameStore string "byte list" | UFrameMismatch string "16 word" | UFrameBad string "16 word"
  | UFrameWrite "byte list" | UFrameMd5 "byte list" | UFrameReceived "byte list" | UFrameCount | UFrameReply
  | UDone | UDoneClose | UDoneNull | UDoneSize | UDoneHash | UDoneCompare string | UDoneRename string | UDoneReply string
  | UCancel | UCancelFile | UCancelClose | UCancelNull
  | UUnlink string | UReset nat string

text \<open>The assignments of lines 99 to 107, and of \<open>UploadState::reset\<close>.\<close>

definition pre_assign :: "Config \<Rightarrow> nat \<Rightarrow> stream \<Rightarrow> string \<Rightarrow> 64 word \<Rightarrow> string \<Rightarrow> UploadState \<Rightarrow> UploadState" where
  "pre_assign cfg k f filename total_size md5_hex u =
     [u\<lparr>u_active := True\<rparr>, u\<lparr>u_filename := filename\<rparr>, u\<lparr>u_tmp_path := upload_tmp_path cfg filename\<rparr>,
      u\<lparr>u_expected_size := total_size\<rparr>, u\<lparr>u_received := 0\<rparr>, u\<lparr>u_frame_count := 0\<rparr>,
      u\<lparr>u_file := Some f\<rparr>, u\<lparr>u_expected_md5 := md5_hex\<rparr>, u\<lparr>u_md5_ctx := MD5_reset (u_md5_ctx u)\<rparr>] ! k"

definition reset_assign :: "nat \<Rightarrow> UploadState \<Rightarrow> UploadState" where
  "reset_assign k u =
     [u\<lparr>u_active := False\<rparr>, u\<lparr>u_filename := []\<rparr>, u\<lparr>u_tmp_path := []\<rparr>, u\<lparr>u_expected_size := 0\<rparr>,
      u\<lparr>u_received := 0\<rparr>, u\<lparr>u_frame_count := 0\<rparr>, u\<lparr>u_expected_md5 := []\<rparr>,
      u\<lparr>u_md5_ctx := MD5_reset (u_md5_ctx u)\<rparr>] ! k"

definition set_u :: "shared \<Rightarrow> UploadState \<Rightarrow> shared" where
  "set_u s u = s\<lparr>h_u := u\<rparr>"

text \<open>\<open>fclose(u.file)\<close>; the pointer stays.\<close>

definition close_shared :: "io \<Rightarrow> shared \<Rightarrow> shared option" where
  "close_shared io s =
     (case u_file (h_u s) of
        None \<Rightarrow> None
      | Some f \<Rightarrow> if h_live s then Some (s\<lparr>h_fs := fclose io (h_fs s) f, h_live := False\<rparr>) else None)"

text \<open>\<open>fwrite(..., u.file)\<close>\<close>

definition write_shared :: "io \<Rightarrow> byte list \<Rightarrow> shared \<Rightarrow> (nat \<times> shared) option" where
  "write_shared io bs s =
     (case u_file (h_u s) of
        None \<Rightarrow> None
      | Some f \<Rightarrow> if h_live s
          then (let (written, f) = fwrite io f bs in Some (written, set_u s ((h_u s)\<lparr>u_file := Some f\<rparr>)))
          else None)"

fun upload_start :: "upload_cmd \<Rightarrow> upload_pc" where
  "upload_start (PreUpload arg) = UPre arg"
| "upload_start (UploadFrame arg) = UFrame arg"
| "upload_start UploadDone = UDone"
| "upload_start UploadCancel = UCancel"

fun upload_step :: "io \<Rightarrow> Config \<Rightarrow> upload_pc \<Rightarrow> shared \<Rightarrow> (upload_pc \<times> shared) option" where
  "upload_step io cfg (URet r) s = Some (URet r, s)"
| "upload_step io cfg (UPre arg) s = Some
     (if arg = [] then URet ''ERROR: AT+PREUPLOAD requires <file>,<size>,<md5>''
      else if u_active (h_u s) then
        URet (''ERROR: upload already in progress '' @ em_dash @ '' send AT+UPLOADCANCEL first'')
      else case preupload_fields arg of Inl err \<Rightarrow> URet err
        | Inr (filename, total_size, md5_hex) \<Rightarrow> UPreOpen filename total_size md5_hex, s)"
| "upload_step io cfg (UPreOpen filename total_size md5_hex) s =
     (case fopen_wb io (h_fs s) (upload_tmp_path cfg filename) of
        (None, fs) \<Rightarrow> Some (URet ''ERROR: cannot create temp file'', s\<lparr>h_fs := fs\<rparr>)
      | (Some f, fs) \<Rightarrow> Some (UPreSet 0 f filename total_size md5_hex, s\<lparr>h_fs := fs\<rparr>))"
| "upload_step io cfg (UPreSet k f filename total_size md5_hex) s =
     Some (if k < 8 then UPreSet (Suc k) f filename total_size md5_hex else URet ''OK READY'',
       (set_u s (pre_assign cfg k f filename total_size md5_hex (h_u s)))\<lparr>h_live := h_live s \<or> k = 6\<rparr>)"
| "upload_step io cfg (UFrame arg) s = Some
     (if arg = [] then URet ''ERROR: AT+UPLOAD requires arguments''
      else if \<not> u_active (h_u s) \<or> u_file (h_u s) = None then
        URet (''ERROR: no active upload '' @ em_dash @ '' send AT+PREUPLOAD first'')
      else case frame_fields arg of Inl err \<Rightarrow> URet err
        | Inr (crc16_hex, bin_data) \<Rightarrow> UFrameStore crc16_hex bin_data, s)"
| "upload_step io cfg (UFrameStore crc16_hex bin_data) s = Some
     (if crc16_compute bin_data \<noteq> ucast (strtoul_16 crc16_hex)
      then UFrameMismatch crc16_hex (crc16_compute bin_data) else UFrameWrite bin_data, s)"
| "upload_step io cfg (UFrameMismatch crc16_hex computed_crc) s =
     Some (UFrameBad crc16_hex computed_crc, set_u s ((h_u s)\<lparr>u_frame_count := u_frame_count (h_u s) + 1\<rparr>))"
| "upload_step io cfg (UFrameBad crc16_hex computed_crc) s =
     Some (URet (''ERROR CRC mismatch frame '' @ dec_str (unat (u_frame_count (h_u s) - 1))
        @ '' expected='' @ crc16_hex @ '' got='' @ fmt_04X computed_crc), s)"
| "upload_step io cfg (UFrameWrite bin_data) s =
     map_option (\<lambda>(written, s).
         (if written \<noteq> length bin_data then URet ''ERROR: write failed'' else UFrameMd5 bin_data, s))
       (write_shared io bin_data s)"
| "upload_step io cfg (UFrameMd5 bin_data) s =
     Some (UFrameReceived bin_data, set_u s ((h_u s)\<lparr>u_md5_ctx := MD5_update (u_md5_ctx (h_u s)) bin_data\<rparr>))"
| "upload_step io cfg (UFrameReceived bin_data) s =
     Some (UFrameCount, set_u s ((h_u s)\<lparr>u_received := u_received (h_u s) + of_nat (length bin_data)\<rparr>))"
| "upload_step io cfg UFrameCount s =
     Some (UFrameReply, set_u s ((h_u s)\<lparr>u_frame_count := u_frame_count (h_u s) + 1\<rparr>))"
| "upload_step io cfg UFrameReply s = Some (URet (''OK '' @ dec_str (unat (u_received (h_u s)))), s)"
| "upload_step io cfg UDone s = Some
     (if \<not> u_active (h_u s) \<or> u_file (h_u s) = None then URet ''ERROR: no active upload'' else UDoneClose, s)"
| "upload_step io cfg UDoneClose s = map_option (Pair UDoneNull) (close_shared io s)"
| "upload_step io cfg UDoneNull s = Some (UDoneSize, set_u s ((h_u s)\<lparr>u_file := None\<rparr>))"
| "upload_step io cfg UDoneSize s = Some
     (if u_received (h_u s) \<noteq> u_expected_size (h_u s) then
        UUnlink (''ERROR size mismatch expected='' @ dec_str (unat (u_expected_size (h_u s)))
          @ '' got='' @ dec_str (unat (u_received (h_u s))))
      else UDoneHash, s)"
| "upload_step io cfg UDoneHash s =
     Some (UDoneCompare (MD5_hex (u_md5_ctx (h_u s))),
       set_u s ((h_u s)\<lparr>u_md5_ctx := snd (MD5_finalize (u_md5_ctx (h_u s)))\<rparr>))"
| "upload_step io cfg (UDoneCompare actual_md5) s = Some
     (if actual_md5 \<noteq> u_expected_md5 (h_u s) then
        UUnlink (''ERROR MD5 mismatch expected='' @ u_expected_md5 (h_u s) @ '' got='' @ actual_md5)
      else UDoneRename actual_md5, s)"
| "upload_step io cfg (UDoneRename actual_md5) s =
     (let (ok, fs) = rename io (h_fs s) (u_tmp_path (h_u s)) (cfg_upload_dir cfg @ ''/'' @ u_filename (h_u s))
      in Some (if ok then UDoneReply actual_md5 else UUnlink ''ERROR: failed to save firmware file'', s\<lparr>h_fs := fs\<rparr>))"
| "upload_step io cfg (UDoneReply actual_md5) s =
     Some (UReset 0 (''OK '' @ u_filename (h_u s) @ '' '' @ dec_str (unat (u_received (h_u s))) @ '' '' @ actual_md5), s)"
| "upload_step io cfg UCancel s = Some
     (if \<not> u_active (h_u s) then URet ''OK no upload in progress'' else UCancelFile, s)"
| "upload_step io cfg UCancelFile s = Some
     (if u_file (h_u s) \<noteq> None then UCancelClose else UUnlink ''OK'', s)"
| "upload_step io cfg UCancelClose s = map_option (Pair UCancelNull) (close_shared io s)"
| "upload_step io cfg UCancelNull s = Some (UUnlink ''OK'', set_u s ((h_u s)\<lparr>u_file := None\<rparr>))"
| "upload_step io cfg (UUnlink reply) s = Some (UReset 0 reply, s\<lparr>h_fs := unlink io (h_fs s) (u_tmp_path (h_u s))\<rparr>)"
| "upload_step io cfg (UReset k reply) s =
     Some (if k < 7 then UReset (Suc k) reply else URet reply, set_u s (reset_assign k (h_u s)))"

section \<open>One thread alone\<close>

fun upload_steps :: "io \<Rightarrow> Config \<Rightarrow> nat \<Rightarrow> upload_pc \<times> shared \<Rightarrow> (upload_pc \<times> shared) option" where
  "upload_steps io cfg 0 x = Some x"
| "upload_steps io cfg (Suc n) x =
     (case upload_step io cfg (fst x) (snd x) of None \<Rightarrow> None | Some y \<Rightarrow> upload_steps io cfg n y)"

lemma upload_steps_add:
  "upload_steps io cfg (m + n) x = (case upload_steps io cfg m x of None \<Rightarrow> None | Some y \<Rightarrow> upload_steps io cfg n y)"
  by (induction m arbitrary: x) (auto split: option.splits)

lemma upload_steps_ret [simp]: "upload_steps io cfg n (URet r, s) = Some (URet r, s)"
  by (induction n) auto

text \<open>The number of statements every command is done after.\<close>

definition statements :: nat where
  "statements = 20"

lemma upload_steps_done:
  assumes "upload_steps io cfg n x = Some (URet r, s)" "n \<le> statements"
  shows "upload_steps io cfg statements x = Some (URet r, s)"
  using upload_steps_add [of io cfg n "statements - n" x] assms by simp

lemma within_statements:
  "upload_steps io cfg n x = Some y \<Longrightarrow> n \<le> statements \<Longrightarrow> \<exists>n \<le> statements. upload_steps io cfg n x = Some y"
  by blast

definition shared_of :: "UploadState \<times> fs \<Rightarrow> shared" where
  "shared_of s = \<lparr>h_u = fst s, h_fs = snd s, h_live = (u_file (fst s) \<noteq> None)\<rparr>"

lemma reset_statements:
  "upload_steps io cfg 8 (UReset 0 r, s) = Some (URet r, set_u s (UploadState_reset (h_u s)))"
  by (simp add: eval_nat_numeral set_u_def reset_assign_def UploadState_reset_def)

lemma unlink_statements:
  "upload_steps io cfg 9 (UUnlink r, s) =
     Some (URet r, s\<lparr>h_u := UploadState_reset (h_u s), h_fs := unlink io (h_fs s) (u_tmp_path (h_u s))\<rparr>)"
  using reset_statements [of io cfg r "s\<lparr>h_fs := unlink io (h_fs s) (u_tmp_path (h_u s))\<rparr>"]
  by (simp add: numeral_eq_Suc set_u_def)

lemma open_statements:
  "upload_steps io cfg 9 (UPreSet 0 f name n md5, s) = Some (URet ''OK READY'',
     s\<lparr>h_u := (h_u s)\<lparr>u_active := True, u_filename := name, u_tmp_path := upload_tmp_path cfg name,
        u_expected_size := n, u_received := 0, u_frame_count := 0, u_file := Some f, u_expected_md5 := md5,
        u_md5_ctx := MD5_reset (u_md5_ctx (h_u s))\<rparr>, h_live := True\<rparr>)"
  by (simp add: eval_nat_numeral set_u_def pre_assign_def)

text \<open>A first statement, then the rest.\<close>

lemma upload_steps_then:
  assumes "upload_step io cfg pc s = Some y" "upload_steps io cfg n y = Some z"
  shows "upload_steps io cfg (Suc n) (pc, s) = Some z"
  using assms by simp

lemma preupload_statements:
  assumes "handle_preupload io cfg arg (u, fs) = (reply, u', fs')"
  shows "\<exists>n \<le> statements. upload_steps io cfg n (UPre arg, shared_of (u, fs)) = Some (URet reply, shared_of (u', fs'))"
proof (cases "arg = [] \<or> u_active u \<or> (\<exists>err. preupload_fields arg = Inl err)")
  case True
  moreover from this have [simp]: "u' = u" "fs' = fs"
    using assms by (auto simp: handle_preupload_def split: if_splits)
  ultimately have "upload_steps io cfg 1 (UPre arg, shared_of (u, fs)) = Some (URet reply, shared_of (u', fs'))"
    using assms by (auto simp: handle_preupload_def shared_of_def split: if_splits)
  then show ?thesis by (rule within_statements) (simp add: statements_def)
next
  case False
  then obtain name n md5 where f: "preupload_fields arg = Inr (name, n, md5)" by (cases "preupload_fields arg") auto
  obtain st fs1 where o: "fopen_wb io fs (upload_tmp_path cfg name) = (st, fs1)" by fastforce
  have pre: "upload_step io cfg (UPre arg) (shared_of (u, fs)) = Some (UPreOpen name n md5, shared_of (u, fs))"
    using False f by (simp add: shared_of_def)
  show ?thesis
  proof (cases st)
    case None
    then have "upload_steps io cfg 2 (UPre arg, shared_of (u, fs)) = Some (URet reply, shared_of (u', fs'))"
      using assms False f o by (simp add: numeral_2_eq_2 handle_preupload_def shared_of_def Let_def)
    then show ?thesis by (rule within_statements) (simp add: statements_def)
  next
    case (Some g)
    have two: "upload_step io cfg (UPreOpen name n md5) (shared_of (u, fs))
        = Some (UPreSet 0 g name n md5, (shared_of (u, fs))\<lparr>h_fs := fs1\<rparr>)"
      using o Some by (simp add: shared_of_def)
    have "upload_steps io cfg (Suc (Suc 9)) (UPre arg, shared_of (u, fs)) = Some (URet reply, shared_of (u', fs'))"
      by (rule upload_steps_then [OF pre upload_steps_then [OF two]])
         (use assms False f o Some in \<open>auto simp: open_statements handle_preupload_def shared_of_def Let_def\<close>)
    then show ?thesis by (rule within_statements) (simp add: statements_def)
  qed
qed

lemma frame_statements:
  assumes "handle_upload_frame io arg (u, fs) = (reply, u', fs')"
  shows "\<exists>n \<le> statements. upload_steps io cfg n (UFrame arg, shared_of (u, fs)) = Some (URet reply, shared_of (u', fs'))"
proof (cases "arg = [] \<or> \<not> u_active u \<or> u_file u = None \<or> (\<exists>err. frame_fields arg = Inl err)")
  case True
  moreover from this have [simp]: "u' = u" "fs' = fs"
    using assms by (auto simp: handle_upload_frame_def split: if_splits option.splits)
  ultimately have "upload_steps io cfg 1 (UFrame arg, shared_of (u, fs)) = Some (URet reply, shared_of (u', fs'))"
    using assms by (auto simp: handle_upload_frame_def shared_of_def split: if_splits option.splits)
  then show ?thesis by (rule within_statements) (simp add: statements_def)
next
  case False
  then obtain crc bin f where f: "frame_fields arg = Inr (crc, bin)" "u_file u = Some f"
    by (cases "frame_fields arg") auto
  obtain k g where w: "fwrite io f bin = (k, g)" by fastforce
  have "store_frame io crc bin f u = (reply, u')" "fs' = fs"
    using assms False f by (auto simp: handle_upload_frame_def split: prod.splits)
  then have "upload_steps io cfg 7 (UFrame arg, shared_of (u, fs)) = Some (URet reply, shared_of (u', fs'))"
    using False f w
    by (auto simp: eval_nat_numeral shared_of_def set_u_def store_frame_def write_shared_def Let_def split: if_splits)
  then show ?thesis by (rule within_statements) (simp add: statements_def)
qed

lemma cancel_statements:
  assumes "handle_uploadcancel io (u, fs) = (reply, u', fs')"
  shows "\<exists>n \<le> statements. upload_steps io cfg n (UCancel, shared_of (u, fs)) = Some (URet reply, shared_of (u', fs'))"
proof (cases "u_active u")
  case False
  with assms have "reply = ''OK no upload in progress''" "u' = u" "fs' = fs" by (simp_all add: handle_uploadcancel_def)
  then have "upload_steps io cfg 1 (UCancel, shared_of (u, fs)) = Some (URet reply, shared_of (u', fs'))"
    using False by (simp add: shared_of_def)
  then show ?thesis by (rule within_statements) (simp add: statements_def)
next
  case True
  show ?thesis
  proof (cases "u_file u")
    case None
    have "upload_steps io cfg (2 + 9) (UCancel, shared_of (u, fs)) = Some (URet reply, shared_of (u', fs'))"
      unfolding upload_steps_add using assms True None
      by (auto simp: numeral_2_eq_2 shared_of_def unlink_statements handle_uploadcancel_def Let_def)
    then show ?thesis by (rule within_statements) (simp add: statements_def)
  next
    case (Some f)
    have "upload_steps io cfg (Suc (Suc (Suc (Suc 0))) + 9) (UCancel, shared_of (u, fs)) = Some (URet reply, shared_of (u', fs'))"
      unfolding upload_steps_add using assms True Some
      by (auto simp: shared_of_def set_u_def close_shared_def unlink_statements handle_uploadcancel_def Let_def)
    then show ?thesis by (rule within_statements) (simp add: statements_def)
  qed
qed

lemma done_statements:
  assumes "handle_uploaddone io cfg (u, fs) = (reply, u', fs')"
  shows "\<exists>n \<le> statements. upload_steps io cfg n (UDone, shared_of (u, fs)) = Some (URet reply, shared_of (u', fs'))"
proof (cases "\<not> u_active u \<or> u_file u = None")
  case True
  moreover from this assms have "reply = ''ERROR: no active upload''" "u' = u" "fs' = fs"
    by (auto simp: handle_uploaddone_def split: if_splits option.splits)
  ultimately have "upload_steps io cfg 1 (UDone, shared_of (u, fs)) = Some (URet reply, shared_of (u', fs'))"
    by (auto simp: shared_of_def)
  then show ?thesis by (rule within_statements) (simp add: statements_def)
next
  case False
  then obtain f where act: "u_active u" "u_file u = Some f" by auto
  let ?fs = "fclose io fs f" and ?final = "cfg_upload_dir cfg @ ''/'' @ u_filename u"
  let ?s = "\<lparr>h_u = u\<lparr>u_file := None\<rparr>, h_fs = ?fs, h_live = False\<rparr>"
  let ?v = "u\<lparr>u_file := None, u_md5_ctx := snd (MD5_finalize (u_md5_ctx u))\<rparr>"
  have first: "upload_steps io cfg (3 + n) (UDone, shared_of (u, fs)) = upload_steps io cfg n (UDoneSize, ?s)" for n
    unfolding upload_steps_add using act by (simp add: numeral_3_eq_3 shared_of_def close_shared_def set_u_def)
  obtain ok fs1 where mv: "rename io ?fs (u_tmp_path u) ?final = (ok, fs1)" by fastforce
  consider (size) "u_received u \<noteq> u_expected_size u"
    | (digest) "u_received u = u_expected_size u" "MD5_hex (u_md5_ctx u) \<noteq> u_expected_md5 u"
    | (move) "u_received u = u_expected_size u" "MD5_hex (u_md5_ctx u) = u_expected_md5 u" by blast
  then show ?thesis
  proof cases
    case size
    have "upload_steps io cfg (3 + (1 + 9)) (UDone, shared_of (u, fs)) = Some (URet reply, shared_of (u', fs'))"
      unfolding first unfolding upload_steps_add using assms act size
      by (auto simp: unlink_statements handle_uploaddone_def shared_of_def Let_def)
    then show ?thesis by (rule within_statements) (simp add: statements_def)
  next
    case digest
    have "upload_steps io cfg (3 + (3 + 9)) (UDone, shared_of (u, fs)) = Some (URet reply, shared_of (u', fs'))"
      unfolding first unfolding upload_steps_add using assms act digest
      by (auto simp: numeral_3_eq_3 set_u_def unlink_statements handle_uploaddone_def shared_of_def Let_def)
    then show ?thesis by (rule within_statements) (simp add: statements_def)
  next
    case move
    have four: "upload_steps io cfg 4 (UDoneSize, ?s) =
        Some (if ok then UDoneReply (u_expected_md5 u) else UUnlink ''ERROR: failed to save firmware file'',
          \<lparr>h_u = ?v, h_fs = fs1, h_live = False\<rparr>)"
      using move mv by (simp add: eval_nat_numeral set_u_def)
    show ?thesis
    proof (cases ok)
      case True
      have "upload_steps io cfg (3 + (4 + (1 + 8))) (UDone, shared_of (u, fs)) = Some (URet reply, shared_of (u', fs'))"
        unfolding first unfolding upload_steps_add four using assms act move mv True
        by (auto simp: reset_statements set_u_def handle_uploaddone_def shared_of_def Let_def)
      then show ?thesis by (rule within_statements) (simp add: statements_def)
    next
      case False
      have "upload_steps io cfg (3 + (4 + 9)) (UDone, shared_of (u, fs)) = Some (URet reply, shared_of (u', fs'))"
        unfolding first unfolding upload_steps_add four using assms act move mv False
        by (auto simp: unlink_statements handle_uploaddone_def shared_of_def Let_def)
      then show ?thesis by (rule within_statements) (simp add: statements_def)
    qed
  qed
qed

text \<open>
  One thread alone. The statements of an upload command, executed without another thread in
  between, end after at most twenty, never touch a closed stream, and leave the reply, the state and
  the files that the handler of theory \<open>Upload\<close> computes, for every command text, state and environment.
\<close>

lemma upload_statements:
  "upload_steps io cfg statements (upload_start c, shared_of s)
     = (case upload_call cfg (io, c) s of (reply, s') \<Rightarrow> Some (URet reply, shared_of s'))"
proof -
  obtain u fs where s: "s = (u, fs)" by (cases s)
  obtain reply u' fs' where r: "upload_call cfg (io, c) s = (reply, u', fs')" by (rule prod_cases3)
  have "\<exists>n \<le> statements. upload_steps io cfg n (upload_start c, shared_of s) = Some (URet reply, shared_of (u', fs'))"
    using r unfolding s
    by (cases c) (simp_all add: preupload_statements frame_statements done_statements cancel_statements)
  then show ?thesis using r upload_steps_done by auto
qed

end
