(* ===== verification/Transition.thy ===== *)
theory Transition
  imports Main
begin

text \<open>
  Interfaces for components whose steps are a relation, with labels. \<open>step_invariant\<close> promises that
  every step keeps an invariant, and gives it for all runs. \<open>ranked_relation\<close> promises besides that
  some step lowers a rank until a goal is met, and gives a run to the goal that is not longer than
  the rank. \<open>bounded_labels\<close> promises that steps with certain labels lower a rank that no step
  raises, and bounds their number in every run. \<open>trace_refinement\<close> promises that every step is, under
  an abstraction, a run of abstract steps over the events it causes (none for a step that only
  prepares), and gives the abstract run of every concrete one.
\<close>

inductive runs :: "('s \<Rightarrow> 'l \<Rightarrow> 's \<Rightarrow> bool) \<Rightarrow> 's \<Rightarrow> 'l list \<Rightarrow> 's \<Rightarrow> bool"
  for step :: "'s \<Rightarrow> 'l \<Rightarrow> 's \<Rightarrow> bool" where
  runs_Nil: "runs step s [] s"
| runs_Cons: "step s l t \<Longrightarrow> runs step t ls u \<Longrightarrow> runs step s (l # ls) u"

inductive_cases runs_NilE: "runs step s [] t"

inductive_cases runs_ConsE: "runs step s (l # ls) t"

lemma runs_append: "runs step s ls t \<Longrightarrow> runs step t ms u \<Longrightarrow> runs step s (ls @ ms) u"
  by (induction rule: runs.induct) (auto intro: runs.intros)

lemma runs_snoc: "runs step s ls t \<Longrightarrow> step t l u \<Longrightarrow> runs step s (ls @ [l]) u"
  by (rule runs_append) (auto intro: runs.intros)

lemma runs_mono: "runs step s ls t \<Longrightarrow> (\<And>s l t. step s l t \<Longrightarrow> l \<in> set ls \<Longrightarrow> step' s l t) \<Longrightarrow> runs step' s ls t"
  by (induction rule: runs.induct) (auto intro: runs.intros)

text \<open>The states a run passes, from the first to the last.\<close>

definition visits :: "('s \<Rightarrow> 'l \<Rightarrow> 's \<Rightarrow> bool) \<Rightarrow> 's \<Rightarrow> 'l list \<Rightarrow> 's \<Rightarrow> 's \<Rightarrow> bool" where
  "visits step s ls t u \<longleftrightarrow> (\<exists>ms ns. ls = ms @ ns \<and> runs step s ms u \<and> runs step u ns t)"

lemma visits_first: "runs step s ls t \<Longrightarrow> visits step s ls t s"
  unfolding visits_def by (intro exI [of _ "[]"] exI [of _ ls]) (simp add: runs_Nil)

lemma visits_Cons: "step s l t \<Longrightarrow> visits step t ls u v \<Longrightarrow> visits step s (l # ls) u v"
  unfolding visits_def using runs_Cons [of step s l t] by (metis append_Cons)

lemma runs_visits:
  "runs step s ls t \<Longrightarrow> runs (\<lambda>u l v. step u l v \<and> l \<in> set ls \<and> visits step s ls t v) s ls t"
proof (induction rule: runs.induct)
  case (runs_Cons s l t ls u)
  have "runs (\<lambda>v k w. step v k w \<and> k \<in> set (l # ls) \<and> visits step s (l # ls) u w) t ls u"
    by (rule runs_mono [OF runs_Cons.IH]) (use visits_Cons [where step = step, OF runs_Cons.hyps(1)] in auto)
  with runs_Cons.hyps show ?case
    by (auto intro!: runs.runs_Cons visits_Cons visits_first)
qed (rule runs_Nil)

locale step_invariant =
  fixes step :: "'s \<Rightarrow> 'l \<Rightarrow> 's \<Rightarrow> bool"
    and inv :: "'s \<Rightarrow> bool"
  assumes inv_step: "step s l t \<Longrightarrow> inv s \<Longrightarrow> inv t"
begin

lemma inv_runs: "runs step s ls t \<Longrightarrow> inv s \<Longrightarrow> inv t"
  by (induction rule: runs.induct) (auto intro: inv_step)

end

locale ranked_relation = step_invariant step inv
  for step :: "'s \<Rightarrow> 'l \<Rightarrow> 's \<Rightarrow> bool" and inv :: "'s \<Rightarrow> bool" +
  fixes goal :: "'s \<Rightarrow> bool"
    and rank :: "'s \<Rightarrow> nat"
  assumes rank_step: "inv s \<Longrightarrow> \<not> goal s \<Longrightarrow> \<exists>l t. step s l t \<and> rank t < rank s"
begin

lemma reaches_goal: "inv s \<Longrightarrow> \<exists>ls t. runs step s ls t \<and> goal t \<and> length ls \<le> rank s"
proof (induction "rank s" arbitrary: s rule: less_induct)
  case less
  show ?case
  proof (cases "goal s")
    case True
    then show ?thesis by (intro exI [of _ "[]"]) (auto intro: runs_Nil)
  next
    case False
    with less.prems obtain l t where t: "step s l t" "rank t < rank s" using rank_step by blast
    with less.prems less.hyps obtain ls u where "runs step t ls u" "goal u" "length ls \<le> rank t"
      using inv_step by blast
    with t show ?thesis by (intro exI [of _ "l # ls"]) (auto intro: runs_Cons)
  qed
qed

end

locale bounded_labels = step_invariant step inv
  for step :: "'s \<Rightarrow> 'l \<Rightarrow> 's \<Rightarrow> bool" and inv :: "'s \<Rightarrow> bool" +
  fixes counted :: "'l \<Rightarrow> bool"
    and rank :: "'s \<Rightarrow> nat"
  assumes counted_step: "step s l t \<Longrightarrow> inv s \<Longrightarrow> counted l \<Longrightarrow> rank t < rank s"
    and other_step: "step s l t \<Longrightarrow> inv s \<Longrightarrow> \<not> counted l \<Longrightarrow> rank t \<le> rank s"
begin

lemma counted_bound: "runs step s ls t \<Longrightarrow> inv s \<Longrightarrow> length (filter counted ls) + rank t \<le> rank s"
proof (induction rule: runs.induct)
  case (runs_Cons s l t ls u)
  then have "length (filter counted ls) + rank u \<le> rank t" using inv_step by blast
  with runs_Cons counted_step other_step show ?case by fastforce
qed simp

end

text \<open>Runs with the events their steps cause.\<close>

inductive traces :: "('s \<Rightarrow> 'l \<Rightarrow> 's \<Rightarrow> bool) \<Rightarrow> ('l \<Rightarrow> 's \<Rightarrow> 'e list) \<Rightarrow> 's \<Rightarrow> 'l list \<Rightarrow> 'e list \<Rightarrow> 's \<Rightarrow> bool"
  for step :: "'s \<Rightarrow> 'l \<Rightarrow> 's \<Rightarrow> bool" and events :: "'l \<Rightarrow> 's \<Rightarrow> 'e list" where
  traces_Nil: "traces step events s [] [] s"
| traces_Cons: "step s l t \<Longrightarrow> traces step events t ls es u \<Longrightarrow> traces step events s (l # ls) (events l s @ es) u"

lemma traces_runs: "traces step events s ls es t \<Longrightarrow> runs step s ls t"
  by (induction rule: traces.induct) (auto intro: runs.intros)

lemma runs_traces: "runs step s ls t \<Longrightarrow> \<exists>es. traces step events s ls es t"
  by (induction rule: runs.induct) (auto intro: traces.intros)

locale trace_refinement = step_invariant step inv
  for step :: "'s \<Rightarrow> 'l \<Rightarrow> 's \<Rightarrow> bool" and inv :: "'s \<Rightarrow> bool" +
  fixes abst :: "'s \<Rightarrow> 'a"
    and astep :: "'a \<Rightarrow> 'e \<Rightarrow> 'a \<Rightarrow> bool"
    and events :: "'l \<Rightarrow> 's \<Rightarrow> 'e list"
  assumes simulates: "step s l t \<Longrightarrow> inv s \<Longrightarrow> runs astep (abst s) (events l s) (abst t)"
begin

lemma refines: "traces step events s ls es t \<Longrightarrow> inv s \<Longrightarrow> runs astep (abst s) es (abst t)"
proof (induction rule: traces.induct)
  case (traces_Cons s l t ls es u)
  then show ?case using simulates inv_step runs_append by fast
qed (rule runs_Nil)

end

end
