(* ===== verification/Lock_Spec.thy ===== *)
theory Lock_Spec
  imports Session Transition
begin

text \<open>
  The session lock as its users think of it, and the proof that the two threads of theory \<open>Session\<close>,
  who look at the owner and act on it in separate steps, implement it (in a release build, without
  forced releases): every interleaving is a run of the atomic lock below.
\<close>

section \<open>The abstract lock\<close>

text \<open>
  A side that brought a command is told in one atomic step whether it may work on it: yes, if the lock
  is free or its own, no, if it is the other side's.
\<close>

datatype activity = AIdle | AArrived string | ARefused | AWorking

record alock =
  a_owner :: Owner
  a_act :: "Owner \<Rightarrow> activity"

datatype lock_event =
    Arrives Owner string | Granted Owner | Bypasses | Refused Owner | AnsweredBusy Owner | Ended Owner bool

definition set_act :: "Owner \<Rightarrow> activity \<Rightarrow> alock \<Rightarrow> alock" where
  "set_act w act a = a\<lparr>a_act := (a_act a)(w := act)\<rparr>"

inductive alock_step :: "alock \<Rightarrow> lock_event \<Rightarrow> alock \<Rightarrow> bool" where
  arrives: "a_act a w = AIdle \<Longrightarrow> alock_step a (Arrives w cmd) (set_act w (AArrived cmd) a)"
| granted: "a_act a w = AArrived cmd \<Longrightarrow> a_owner a = NONE \<or> a_owner a = w \<Longrightarrow> w = SERIAL \<or> \<not> bypass_lock cmd \<Longrightarrow>
    alock_step a (Granted w) (set_act w AWorking (a\<lparr>a_owner := w\<rparr>))"
| bypasses: "a_act a HTTP = AArrived cmd \<Longrightarrow> bypass_lock cmd \<Longrightarrow> alock_step a Bypasses (set_act HTTP AWorking a)"
| refused: "a_act a w = AArrived cmd \<Longrightarrow> a_owner a \<noteq> NONE \<Longrightarrow> a_owner a \<noteq> w \<Longrightarrow>
    alock_step a (Refused w) (set_act w ARefused a)"
| answered: "a_act a w = ARefused \<Longrightarrow> alock_step a (AnsweredBusy w) (set_act w AIdle a)"
| ended: "a_act a w = AWorking \<Longrightarrow> alock_step a (Ended w False) (set_act w AIdle a)"
| released: "a_act a w = AWorking \<Longrightarrow> a_owner a = w \<Longrightarrow>
    alock_step a (Ended w True) (set_act w AIdle (a\<lparr>a_owner := NONE\<rparr>))"

definition alock_start :: alock where
  "alock_start = \<lparr>a_owner = NONE, a_act = (\<lambda>_. AIdle)\<rparr>"

section \<open>How the threads represent it\<close>

text \<open>
  A thread that found the lock held (\<open>HHeld\<close>, \<open>SDenied\<close>) and has not looked at the owner yet: its fate
  is decided already.
\<close>

fun http_activity :: "http_pc \<Rightarrow> Owner \<Rightarrow> activity" where
  "http_activity HIdle owner = AIdle"
| "http_activity (HFree cmd) owner = AArrived cmd"
| "http_activity (HHeld cmd) owner = (if owner = HTTP then AWorking else ARefused)"
| "http_activity (HRun cmd) owner = AWorking"
| "http_activity HReset owner = AWorking"

fun ser_activity :: "ser_pc \<Rightarrow> Owner \<Rightarrow> activity" where
  "ser_activity SIdle owner = AIdle"
| "ser_activity (SDenied line) owner = (if owner = SERIAL then AWorking else ARefused)"
| "ser_activity (SRun line) owner = AWorking"
| "ser_activity SReset owner = AWorking"

definition alock_of :: "sess \<Rightarrow> alock" where
  "alock_of s = \<lparr>a_owner = s_owner s,
     a_act = (\<lambda>w. case w of NONE \<Rightarrow> AIdle | HTTP \<Rightarrow> http_activity (s_http s) (s_owner s)
                | SERIAL \<Rightarrow> ser_activity (s_ser s) (s_owner s))\<rparr>"

text \<open>The events a step causes.\<close>

fun http_events :: "http_pc \<Rightarrow> Owner \<Rightarrow> lock_event list" where
  "http_events HIdle owner = []"
| "http_events (HFree cmd) owner = (if owner = NONE then [Granted HTTP] else [Refused HTTP, AnsweredBusy HTTP])"
| "http_events (HHeld cmd) owner = (if owner = HTTP then [] else [AnsweredBusy HTTP])"
| "http_events (HRun cmd) owner = (if at_action cmd = ''RESET'' \<and> owner = HTTP then [] else [Ended HTTP False])"
| "http_events HReset owner = [Ended HTTP True]"

fun ser_events :: "ser_pc \<Rightarrow> Owner \<Rightarrow> lock_event list" where
  "ser_events SIdle owner = []"
| "ser_events (SDenied line) owner = (if owner = SERIAL then [] else [AnsweredBusy SERIAL])"
| "ser_events (SRun line) owner = (if at_action line = ''RESET'' \<and> owner = SERIAL then [] else [Ended SERIAL False])"
| "ser_events SReset owner = [Ended SERIAL True]"

fun sess_events :: "sess_label \<Rightarrow> sess \<Rightarrow> lock_event list" where
  "sess_events (HttpRequest cmd) s =
     Arrives HTTP cmd # (if bypass_lock cmd then [Bypasses] else if s_owner s = NONE then []
       else if s_owner s = HTTP then [Granted HTTP] else [Refused HTTP])"
| "sess_events HttpNext s = http_events (s_http s) (s_owner s)"
| "sess_events (SerialLine line) s =
     [Arrives SERIAL line, if s_owner s = HTTP then Refused SERIAL else Granted SERIAL]"
| "sess_events SerialNext s = ser_events (s_ser s) (s_owner s)"
| "sess_events ApiReset s = []"
| "sess_events DebugLock s = []"

text \<open>The steps of a release build without forced releases.\<close>

definition plain_step :: "sess \<Rightarrow> sess_label \<Rightarrow> sess \<Rightarrow> bool" where
  "plain_step s l t \<longleftrightarrow> sess_step l s t \<and> \<not> forces l s \<and> l \<noteq> DebugLock"

definition lock_inv :: "sess \<Rightarrow> bool" where
  "lock_inv s \<longleftrightarrow> sess_inv s \<and> (\<forall>cmd. s_http s = HFree cmd \<longrightarrow> s_owner s \<noteq> HTTP)"

lemma lock_inv_start: "lock_inv sess_start"
  using sess_inv_start by (simp add: lock_inv_def sess_start_def)

lemma lock_inv_step: "plain_step s l t \<Longrightarrow> lock_inv s \<Longrightarrow> lock_inv t"
  unfolding plain_step_def lock_inv_def
proof (intro conjI; elim conjE)
  assume a: "sess_step l s t" "\<not> forces l s" "l \<noteq> DebugLock" "sess_inv s" "\<forall>cmd. s_http s = HFree cmd \<longrightarrow> s_owner s \<noteq> HTTP"
  show "sess_inv t" by (rule sess_inv_step [OF a(1,4,2)])
  show "\<forall>cmd. s_http t = HFree cmd \<longrightarrow> s_owner t \<noteq> HTTP"
    using a(1)
  proof cases
    case (http_step pc owner)
    with a show ?thesis by (cases "s_http s") (auto simp: owner_ops split: if_splits)
  next
    case (serial_step pc owner)
    with a show ?thesis by (cases "s_ser s") (auto simp: owner_ops split: if_splits)
  qed (use a in \<open>auto simp: http_arrive_def ser_arrive_def owner_ops split: if_splits\<close>)
qed

lemma alock_eqI: "a_owner a = a_owner b \<Longrightarrow> (\<And>w. a_act a w = a_act b w) \<Longrightarrow> a = (b :: alock)"
  by (cases a; cases b) auto

lemma alock_of_http:
  assumes "ser_activity (s_ser s) owner = ser_activity (s_ser s) (s_owner s)"
  shows "alock_of (s\<lparr>s_http := pc, s_owner := owner\<rparr>)
    = set_act HTTP (http_activity pc owner) ((alock_of s)\<lparr>a_owner := owner\<rparr>)"
  by (rule alock_eqI) (use assms in \<open>auto simp: alock_of_def set_act_def split: Owner.split\<close>)

lemma alock_of_ser:
  assumes "http_activity (s_http s) owner = http_activity (s_http s) (s_owner s)"
  shows "alock_of (s\<lparr>s_ser := pc, s_owner := owner\<rparr>)
    = set_act SERIAL (ser_activity pc owner) ((alock_of s)\<lparr>a_owner := owner\<rparr>)"
  by (rule alock_eqI) (use assms in \<open>auto simp: alock_of_def set_act_def split: Owner.split\<close>)

lemma alock_of_simps [simp]:
  "a_owner (alock_of s) = s_owner s" "a_act (alock_of s) HTTP = http_activity (s_http s) (s_owner s)"
  "a_act (alock_of s) SERIAL = ser_activity (s_ser s) (s_owner s)"
  by (simp_all add: alock_of_def)

lemma set_act_simps [simp]:
  "a_owner (set_act w act a) = a_owner a" "a_act (set_act w act a) w = act"
  "set_act w act' (set_act w act a) = set_act w act' a" "(set_act w act a)\<lparr>a_owner := owner\<rparr> = set_act w act (a\<lparr>a_owner := owner\<rparr>)"
  "a_act a w = act \<Longrightarrow> set_act w act a = (a :: alock)"
  by (auto simp: set_act_def)

lemma alock_owner_same [simp]: "a\<lparr>a_owner := a_owner a\<rparr> = (a :: alock)" "s_owner s = owner \<Longrightarrow> (alock_of s)\<lparr>a_owner := owner\<rparr> = alock_of s"
  by (cases a; simp) (simp add: alock_of_def)

lemma runs_1: "step s l t \<Longrightarrow> runs step s [l] t"
  by (auto intro: runs.intros)

lemma runs_2: "step s l t \<Longrightarrow> step t m u \<Longrightarrow> runs step s [l, m] u"
  by (auto intro: runs.intros)

section \<open>Every step is a run of the abstract lock\<close>

lemma simulates_request:
  assumes "s_http s = HIdle"
  shows "runs alock_step (alock_of s) (sess_events (HttpRequest cmd) s) (alock_of (s\<lparr>s_http := http_arrive cmd (s_owner s)\<rparr>))"
proof -
  let ?a = "alock_of s" and ?b = "set_act HTTP (AArrived cmd) (alock_of s)"
  have t: "alock_of (s\<lparr>s_http := pc\<rparr>) = set_act HTTP (http_activity pc (s_owner s)) ?b" for pc
    using alock_of_http [of s "s_owner s" pc] by simp
  have one: "alock_step ?a (Arrives HTTP cmd) ?b" by (rule arrives) (simp add: assms)
  consider "bypass_lock cmd" | "\<not> bypass_lock cmd" "s_owner s = NONE" | "\<not> bypass_lock cmd" "s_owner s = HTTP"
    | "\<not> bypass_lock cmd" "s_owner s = SERIAL" by (cases "s_owner s") auto
  then show ?thesis
  proof cases
    case 1
    then show ?thesis
      using one alock_step.bypasses [of ?b cmd] by (auto simp: http_arrive_def t intro: runs_2)
  next
    case 2
    then show ?thesis using one by (auto simp: http_arrive_def t is_busy_def intro: runs_1)
  next
    case 3
    then show ?thesis
      using one alock_step.granted [of ?b HTTP cmd] by (auto simp: http_arrive_def t is_busy_def intro: runs_2)
  next
    case 4
    then show ?thesis
      using one alock_step.refused [of ?b HTTP cmd] by (auto simp: http_arrive_def t is_busy_def intro: runs_2)
  qed
qed

lemma simulates_http:
  assumes "lock_inv s" "s_http s \<noteq> HIdle" "\<not> forces HttpNext s" "http_next (s_http s) (s_owner s) = (pc, owner)"
  shows "runs alock_step (alock_of s) (sess_events HttpNext s) (alock_of (s\<lparr>s_http := pc, s_owner := owner\<rparr>))"
proof -
  let ?a = "alock_of s"
  have inv: "http_critical s \<Longrightarrow> s_owner s = HTTP" "s_http s = HFree cmd \<Longrightarrow> s_owner s \<noteq> HTTP \<and> \<not> bypass_lock cmd" for cmd
    using assms(1) by (auto simp: lock_inv_def sess_inv_def)
  have "ser_activity (s_ser s) owner = ser_activity (s_ser s) (s_owner s)"
    using assms(3,4) inv by (cases "s_http s"; cases "s_ser s") (auto simp: forces_def owner_ops http_critical_def split: if_splits)
  note t = alock_of_http [OF this]
  show ?thesis
  proof (cases "s_http s")
    case HIdle
    with assms(2) show ?thesis by simp
  next
    case (HFree cmd)
    consider "s_owner s = NONE" | "s_owner s = SERIAL" using inv(2) [OF HFree] by (cases "s_owner s") auto
    then show ?thesis
    proof cases
      case 1
      then show ?thesis
        unfolding t using HFree inv(2) [OF HFree] assms(4) alock_step.granted [of ?a HTTP cmd] by (auto simp: owner_ops intro: runs_1)
    next
      case 2
      then show ?thesis
        unfolding t using HFree assms(4) alock_step.refused [of ?a HTTP cmd] alock_step.answered [of "set_act HTTP ARefused ?a" HTTP]
        by (auto simp: owner_ops intro: runs_2)
    qed
  next
    case (HHeld cmd)
    then show ?thesis
      unfolding t using assms(4) alock_step.answered [of ?a HTTP] by (auto intro: runs_1 runs_Nil)
  next
    case (HRun cmd)
    then show ?thesis
      unfolding t using assms(3,4) alock_step.ended [of ?a HTTP]
      by (auto simp: forces_def intro: runs_1 runs_Nil split: if_splits)
  next
    case HReset
    then show ?thesis
      unfolding t using assms(4) inv(1) alock_step.released [of ?a HTTP]
      by (auto simp: http_critical_def owner_ops intro: runs_1)
  qed
qed

lemma simulates_line:
  assumes "s_ser s = SIdle" "ser_arrive line (s_owner s) = (pc, owner)"
  shows "runs alock_step (alock_of s) (sess_events (SerialLine line) s) (alock_of (s\<lparr>s_ser := pc, s_owner := owner\<rparr>))"
proof -
  let ?a = "alock_of s" and ?b = "set_act SERIAL (AArrived line) (alock_of s)"
  have one: "alock_step ?a (Arrives SERIAL line) ?b" by (rule arrives) (simp add: assms)
  have "http_activity (s_http s) owner = http_activity (s_http s) (s_owner s)"
    using assms(2) by (cases "s_http s") (auto simp: ser_arrive_def owner_ops split: if_splits)
  note t = alock_of_ser [OF this]
  show ?thesis
    unfolding t using one assms(2) alock_step.granted [of ?b SERIAL line] alock_step.refused [of ?b SERIAL line]
    by (cases "s_owner s") (auto simp: ser_arrive_def owner_ops intro: runs_2)
qed

lemma simulates_ser:
  assumes "lock_inv s" "s_ser s \<noteq> SIdle" "\<not> forces SerialNext s" "ser_next (s_ser s) (s_owner s) = (pc, owner)"
  shows "runs alock_step (alock_of s) (sess_events SerialNext s) (alock_of (s\<lparr>s_ser := pc, s_owner := owner\<rparr>))"
proof -
  let ?a = "alock_of s"
  have inv: "ser_critical s \<Longrightarrow> s_owner s = SERIAL"
    using assms(1) by (auto simp: lock_inv_def sess_inv_def)
  have "http_activity (s_http s) owner = http_activity (s_http s) (s_owner s)"
    using assms(3,4) inv by (cases "s_ser s"; cases "s_http s") (auto simp: forces_def owner_ops ser_critical_def split: if_splits)
  note t = alock_of_ser [OF this]
  show ?thesis
  proof (cases "s_ser s")
    case SIdle
    with assms(2) show ?thesis by simp
  next
    case (SDenied line)
    then show ?thesis
      unfolding t using assms(4) alock_step.answered [of ?a SERIAL] by (auto intro: runs_1 runs_Nil)
  next
    case (SRun line)
    then show ?thesis
      unfolding t using assms(3,4) alock_step.ended [of ?a SERIAL]
      by (auto simp: forces_def intro: runs_1 runs_Nil split: if_splits)
  next
    case SReset
    then show ?thesis
      unfolding t using assms(4) inv(1) alock_step.released [of ?a SERIAL]
      by (auto simp: ser_critical_def owner_ops intro: runs_1)
  qed
qed

lemma plain_step_simulates:
  assumes "plain_step s l t" "lock_inv s"
  shows "runs alock_step (alock_of s) (sess_events l s) (alock_of t)"
proof -
  from assms(1) have "sess_step l s t" "\<not> forces l s" "l \<noteq> DebugLock" by (simp_all add: plain_step_def)
  then show ?thesis
    using simulates_request simulates_http [OF assms(2)] simulates_line simulates_ser [OF assms(2)]
    by (cases rule: sess_step.cases) (auto simp: forces_def)
qed

interpretation atomic_lock: trace_refinement plain_step lock_inv alock_of alock_step sess_events
  by unfold_locales (fact lock_inv_step plain_step_simulates)+

section \<open>The property\<close>

lemma alock_of_start: "alock_of sess_start = alock_start"
  by (rule alock_eqI) (auto simp: alock_of_def sess_start_def alock_start_def split: Owner.split)

text \<open>
  C5: the session lock is atomic. Although both threads look at the owner and act on it in separate
  steps, every interleaving of them (release build, no forced release) is a run of a lock that
  decides in one step: a command is granted if at some moment of its request the lock was free or its
  own side's, and refused only if at some moment it was the other side's; a grant takes the lock,
  and only the reset of the owner frees it.
\<close>

theorem session_lock_atomic:
  assumes "runs plain_step sess_start ls s"
  shows "\<exists>es. traces plain_step sess_events sess_start ls es s \<and> runs alock_step alock_start es (alock_of s)"
  using runs_traces [OF assms, of sess_events] atomic_lock.refines [OF _ lock_inv_start] alock_of_start by metis

text \<open>
  An HTTP request finds the lock free, is overtaken by a serial line that takes it, and is refused.
\<close>

theorem session_lock_atomic_witness:
  "\<exists>es. traces plain_step sess_events sess_start [HttpRequest ''AT+UPLOADCANCEL'', SerialLine ''AT+HELP'', HttpNext] es
      (sess_start\<lparr>s_ser := SRun ''AT+HELP'', s_owner := SERIAL\<rparr>)
    \<and> runs alock_step alock_start es (alock_of (sess_start\<lparr>s_ser := SRun ''AT+HELP'', s_owner := SERIAL\<rparr>))"
proof (rule session_lock_atomic)
  let ?s1 = "sess_start\<lparr>s_http := HFree ''AT+UPLOADCANCEL''\<rparr>"
  let ?s2 = "?s1\<lparr>s_ser := SRun ''AT+HELP'', s_owner := SERIAL\<rparr>"
  have 1: "plain_step sess_start (HttpRequest ''AT+UPLOADCANCEL'') ?s1"
    using sess_step.http_request [of sess_start "''AT+UPLOADCANCEL''"]
    by (simp add: plain_step_def forces_def sess_start_def http_arrive_def not_bypass_cancel is_busy_def)
  have 2: "plain_step ?s1 (SerialLine ''AT+HELP'') ?s2"
    using sess_step.serial_line [of ?s1 "''AT+HELP''"]
    by (simp add: plain_step_def forces_def sess_start_def ser_arrive_def owner_ops)
  have 3: "plain_step ?s2 HttpNext (sess_start\<lparr>s_ser := SRun ''AT+HELP'', s_owner := SERIAL\<rparr>)"
    using sess_step.http_step [of ?s2] by (simp add: plain_step_def forces_def sess_start_def owner_ops)
  show "runs plain_step sess_start [HttpRequest ''AT+UPLOADCANCEL'', SerialLine ''AT+HELP'', HttpNext]
      (sess_start\<lparr>s_ser := SRun ''AT+HELP'', s_owner := SERIAL\<rparr>)"
    by (rule runs_Cons [where step = plain_step, OF 1], rule runs_Cons [where step = plain_step, OF 2],
        rule runs_Cons [where step = plain_step, OF 3], rule runs_Nil)
qed

end
