(* ===== verification/Upload_Race.thy ===== *)
theory Upload_Race
  imports Upload_Steps Lock_Spec AtCommand
begin

text \<open>
  The two threads at the session lock (theory \<open>Session\<close>) with the upload commands executed statement by
  statement (theory \<open>Upload_Steps\<close>) on the one \<open>UploadState\<close> they share. Without a forced release the
  lock makes the commands atomic; with one, a stream can be closed twice.
\<close>

section \<open>The two threads\<close>

text \<open>The upload command a line is, by the parser and the dispatcher of \<open>AtCommand::process\<close>.\<close>

definition at_upload :: "string \<Rightarrow> upload_cmd option" where
  "at_upload cmd =
     (case at_request cmd of
        Inl err \<Rightarrow> None
      | Inr (action, arg) \<Rightarrow>
          if action = ''PREUPLOAD'' then Some (PreUpload arg)
          else if action = ''UPLOAD'' then Some (UploadFrame arg)
          else if action = ''UPLOADDONE'' then Some UploadDone
          else if action = ''UPLOADCANCEL'' then Some UploadCancel
          else None)"

text \<open>For such a line, the command processor of theory \<open>AtCommand\<close> runs that handler.\<close>

lemma at_upload_process:
  "at_upload cmd = Some c \<Longrightarrow>
     process env cfg cmd caller d = with_upload d (upload_call cfg (e_io env, c) (d_upload d, d_fs d))"
  by (auto simp: at_upload_def process_def run_action_simps split: sum.splits if_splits)

text \<open>What a thread executes: an upload command, in its environment, at a statement.\<close>

datatype exec = NoExec | Exec io upload_pc

record race =
  x_sess :: sess
  x_shared :: shared
  x_http :: exec
  x_ser :: exec
  x_undefined :: bool

definition race_start :: "fs \<Rightarrow> race" where
  "race_start fs = \<lparr>x_sess = sess_start, x_shared = shared_of (UploadState_new, fs), x_http = NoExec, x_ser = NoExec,
     x_undefined = False\<rparr>"

definition begin_exec :: "io \<Rightarrow> string \<Rightarrow> exec" where
  "begin_exec io cmd = (case at_upload cmd of Some c \<Rightarrow> Exec io (upload_start c) | None \<Rightarrow> NoExec)"

fun enter :: "io \<Rightarrow> string option \<Rightarrow> exec" where
  "enter io (Some cmd) = begin_exec io cmd"
| "enter io None = NoExec"

fun exec_ended :: "exec \<Rightarrow> bool" where
  "exec_ended (Exec io (URet r)) \<longleftrightarrow> True"
| "exec_ended (Exec io pc) \<longleftrightarrow> False"
| "exec_ended NoExec \<longleftrightarrow> True"

datatype race_label = AtLock io sess_label | HttpStatement | SerStatement

text \<open>
  A thread goes on at the lock when its command has returned; a thread that enters a command is at
  its first statement.
\<close>

inductive race_step :: "Config \<Rightarrow> race \<Rightarrow> race_label \<Rightarrow> race \<Rightarrow> bool" for cfg :: Config where
  at_lock: "\<not> x_undefined x \<Longrightarrow> sess_step l (x_sess x) s \<Longrightarrow>
      (http_label l \<longrightarrow> exec_ended (x_http x)) \<Longrightarrow> (ser_label l \<longrightarrow> exec_ended (x_ser x)) \<Longrightarrow>
      race_step cfg x (AtLock io l) (x\<lparr>x_sess := s,
        x_http := (if http_label l then enter io (http_command (s_http s)) else x_http x),
        x_ser := (if ser_label l then enter io (ser_command (s_ser s)) else x_ser x)\<rparr>)"
| http_statement: "\<not> x_undefined x \<Longrightarrow> x_http x = Exec io pc \<Longrightarrow> \<not> exec_ended (x_http x) \<Longrightarrow>
      upload_step io cfg pc (x_shared x) = Some (pc', s) \<Longrightarrow>
      race_step cfg x HttpStatement (x\<lparr>x_shared := s, x_http := Exec io pc'\<rparr>)"
| http_undefined: "\<not> x_undefined x \<Longrightarrow> x_http x = Exec io pc \<Longrightarrow> upload_step io cfg pc (x_shared x) = None \<Longrightarrow>
      race_step cfg x HttpStatement (x\<lparr>x_undefined := True\<rparr>)"
| ser_statement: "\<not> x_undefined x \<Longrightarrow> x_ser x = Exec io pc \<Longrightarrow> \<not> exec_ended (x_ser x) \<Longrightarrow>
      upload_step io cfg pc (x_shared x) = Some (pc', s) \<Longrightarrow>
      race_step cfg x SerStatement (x\<lparr>x_shared := s, x_ser := Exec io pc'\<rparr>)"
| ser_undefined: "\<not> x_undefined x \<Longrightarrow> x_ser x = Exec io pc \<Longrightarrow> upload_step io cfg pc (x_shared x) = None \<Longrightarrow>
      race_step cfg x SerStatement (x\<lparr>x_undefined := True\<rparr>)"

inductive_cases race_stepE: "race_step cfg x l y"

definition unforced_step :: "Config \<Rightarrow> race \<Rightarrow> race_label \<Rightarrow> race \<Rightarrow> bool" where
  "unforced_step cfg x l y \<longleftrightarrow> race_step cfg x l y \<and> (\<forall>io k. l = AtLock io k \<longrightarrow> \<not> forces k (x_sess x))"

section \<open>The atomic upload component\<close>

text \<open>
  The abstract component executes a whole command when a side calls it, and gives the reply when the
  side returns.
\<close>

record aupload =
  a_state :: "UploadState \<times> fs"
  a_reply :: "Owner \<Rightarrow> string option"

datatype upload_event = Calls Owner io upload_cmd | Returns Owner string

inductive aupload_step :: "Config \<Rightarrow> aupload \<Rightarrow> upload_event \<Rightarrow> aupload \<Rightarrow> bool" for cfg :: Config where
  calls: "a_reply a w = None \<Longrightarrow> upload_call cfg (io, c) (a_state a) = (r, s) \<Longrightarrow>
    aupload_step cfg a (Calls w io c) (a\<lparr>a_state := s, a_reply := (a_reply a)(w := Some r)\<rparr>)"
| returns: "a_reply a w = Some r \<Longrightarrow> aupload_step cfg a (Returns w r) (a\<lparr>a_reply := (a_reply a)(w := None)\<rparr>)"

definition aupload_start :: "fs \<Rightarrow> aupload" where
  "aupload_start fs = \<lparr>a_state = (UploadState_new, fs), a_reply = (\<lambda>_. None)\<rparr>"

text \<open>Where a command in progress will end, if nobody interferes.\<close>

fun outcome_of :: "Config \<Rightarrow> exec \<Rightarrow> shared \<Rightarrow> string option \<times> shared" where
  "outcome_of cfg NoExec s = (None, s)"
| "outcome_of cfg (Exec io pc) s =
     (case upload_steps io cfg statements (pc, s) of Some (URet r, t) \<Rightarrow> (Some r, t) | _ \<Rightarrow> (None, s))"

definition aupload_of :: "Config \<Rightarrow> race \<Rightarrow> aupload" where
  "aupload_of cfg x =
     (let (hr, s) = outcome_of cfg (x_http x) (x_shared x); (sr, s) = outcome_of cfg (x_ser x) s
      in \<lparr>a_state = (h_u s, h_fs s), a_reply = (\<lambda>w. case w of NONE \<Rightarrow> None | HTTP \<Rightarrow> hr | SERIAL \<Rightarrow> sr)\<rparr>)"

text \<open>The calls and returns a step at the lock makes.\<close>

fun return_event :: "Owner \<Rightarrow> exec \<Rightarrow> upload_event list" where
  "return_event w (Exec io (URet r)) = [Returns w r]"
| "return_event w e = []"

fun call_event :: "Owner \<Rightarrow> io \<Rightarrow> string option \<Rightarrow> upload_event list" where
  "call_event w io (Some cmd) = (case at_upload cmd of Some c \<Rightarrow> [Calls w io c] | None \<Rightarrow> [])"
| "call_event w io None = []"

fun race_events :: "race_label \<Rightarrow> race \<Rightarrow> upload_event list" where
  "race_events (AtLock io l) x =
     (if http_label l then return_event HTTP (x_http x) @ call_event HTTP io (http_command (http_goes l (x_sess x)))
      else if ser_label l then return_event SERIAL (x_ser x) @ call_event SERIAL io (ser_command (ser_goes l (x_sess x)))
      else [])"
| "race_events l x = []"

section \<open>The invariant\<close>

text \<open>A command in progress will end, if nobody interferes, and leave no dangling pointer.\<close>

fun ends :: "Config \<Rightarrow> exec \<Rightarrow> shared \<Rightarrow> bool" where
  "ends cfg NoExec s \<longleftrightarrow> (\<exists>st. s = shared_of st)"
| "ends cfg (Exec io pc) s \<longleftrightarrow> (\<exists>r st. upload_steps io cfg statements (pc, s) = Some (URet r, shared_of st))"

definition race_inv :: "Config \<Rightarrow> race \<Rightarrow> bool" where
  "race_inv cfg x \<longleftrightarrow> \<not> x_undefined x \<and> sess_inv (x_sess x)
     \<and> (x_http x \<noteq> NoExec \<longrightarrow> http_critical (x_sess x)) \<and> (x_ser x \<noteq> NoExec \<longrightarrow> ser_critical (x_sess x))
     \<and> (x_ser x = NoExec \<longrightarrow> ends cfg (x_http x) (x_shared x)) \<and> (x_http x = NoExec \<longrightarrow> ends cfg (x_ser x) (x_shared x))"

lemma race_inv_start: "race_inv cfg (race_start fs)"
  unfolding race_inv_def race_start_def by (simp del: split_paired_Ex add: sess_inv_start) blast

lemma one_executes: "race_inv cfg x \<Longrightarrow> x_http x = NoExec \<or> x_ser x = NoExec"
  by (auto simp: race_inv_def sess_inv_def)

text \<open>The next statement of a command that will end.\<close>

lemma ends_step:
  assumes "ends cfg (Exec io pc) s"
  obtains pc' s' where "upload_step io cfg pc s = Some (pc', s')" "ends cfg (Exec io pc') s'"
    "outcome_of cfg (Exec io pc') s' = outcome_of cfg (Exec io pc) s"
proof -
  obtain r st where e: "upload_steps io cfg statements (pc, s) = Some (URet r, shared_of st)"
    using assms unfolding ends.simps by blast
  have "upload_steps io cfg (statements + 1) (pc, s) = Some (URet r, shared_of st)"
    unfolding upload_steps_add e by simp
  then have n: "upload_steps io cfg (Suc statements) (pc, s) = Some (URet r, shared_of st)" by simp
  then obtain pc' s' where s: "upload_step io cfg pc s = Some (pc', s')"
      "upload_steps io cfg statements (pc', s') = Some (URet r, shared_of st)"
    by (auto split: option.splits)
  have "ends cfg (Exec io pc') s'" using s(2) unfolding ends.simps by blast
  with s show ?thesis using that e by simp
qed

lemma ended_settled: "ends cfg e s \<Longrightarrow> exec_ended e \<Longrightarrow> \<exists>st. s = shared_of st"
  by (erule exec_ended.elims) (simp_all del: split_paired_Ex)

text \<open>An upload command is not let through without the lock.\<close>

lemma upload_not_bypass: "at_upload cmd \<noteq> None \<Longrightarrow> \<not> bypass_lock cmd"
  using bypass_only_resets [of cmd] by (auto simp: at_upload_def)

lemma entered_http: "enter io (http_command pc) \<noteq> NoExec \<Longrightarrow> s_http s = pc \<Longrightarrow> http_critical s"
  using upload_not_bypass by (cases pc) (auto simp: begin_exec_def http_critical_def split: option.splits)

lemma entered_ser: "enter io (ser_command pc) \<noteq> NoExec \<Longrightarrow> s_ser s = pc \<Longrightarrow> ser_critical s"
  by (cases pc) (auto simp: ser_critical_def)

section \<open>The commands are atomic\<close>

text \<open>What the abstract component is while only one side executes.\<close>

definition alone :: "Config \<Rightarrow> Owner \<Rightarrow> exec \<Rightarrow> shared \<Rightarrow> aupload" where
  "alone cfg w e s = (let (r, s) = outcome_of cfg e s in \<lparr>a_state = (h_u s, h_fs s), a_reply = (\<lambda>_. None)(w := r)\<rparr>)"

lemma aupload_of_alone:
  "x_ser x = NoExec \<Longrightarrow> aupload_of cfg x = alone cfg HTTP (x_http x) (x_shared x)"
  "x_http x = NoExec \<Longrightarrow> aupload_of cfg x = alone cfg SERIAL (x_ser x) (x_shared x)"
  by (auto simp: aupload_of_def alone_def fun_eq_iff split: prod.splits Owner.split)

lemma shared_of_inverse [simp]: "h_u (shared_of st) = fst st" "h_fs (shared_of st) = snd st"
  by (simp_all add: shared_of_def)

lemma call_event_enter: "call_event w io c = [] \<longleftrightarrow> enter io c = NoExec"
  by (cases c) (auto simp: begin_exec_def split: option.split)

text \<open>A side leaves its command, which has returned, and enters another.\<close>

lemma alone_returns:
  assumes "exec_ended e"
  shows "runs (aupload_step cfg) (alone cfg w e s) (return_event w e) (alone cfg w NoExec s)"
  using assms
proof (cases rule: exec_ended.elims(2))
  case (1 io r)
  have "aupload_step cfg (alone cfg w e s) (Returns w r) ((alone cfg w e s)\<lparr>a_reply := (a_reply (alone cfg w e s))(w := None)\<rparr>)"
    by (rule returns) (simp add: alone_def 1)
  moreover have "(alone cfg w e s)\<lparr>a_reply := (a_reply (alone cfg w e s))(w := None)\<rparr> = alone cfg w NoExec s"
    by (simp add: alone_def 1)
  ultimately show ?thesis using 1 by (simp add: runs_1)
qed (simp add: runs_Nil)

lemma alone_calls:
  "runs (aupload_step cfg) (alone cfg w NoExec (shared_of st)) (call_event w io c) (alone cfg w (enter io c) (shared_of st))
    \<and> ends cfg (enter io c) (shared_of st)"
proof (cases "enter io c = NoExec")
  case True
  then show ?thesis using call_event_enter [of w io c] by (auto simp: runs_Nil simp del: split_paired_Ex)
next
  case False
  then obtain cmd k where c: "c = Some cmd" "at_upload cmd = Some k"
    by (cases c) (auto simp: begin_exec_def split: option.splits)
  obtain r st' where r: "upload_call cfg (io, k) st = (r, st')" by (metis surj_pair)
  have e: "upload_steps io cfg statements (upload_start k, shared_of st) = Some (URet r, shared_of st')"
    using upload_statements [of io cfg k st] r by simp
  have "aupload_step cfg (alone cfg w NoExec (shared_of st)) (Calls w io k)
      ((alone cfg w NoExec (shared_of st))\<lparr>a_state := st', a_reply := (a_reply (alone cfg w NoExec (shared_of st)))(w := Some r)\<rparr>)"
    by (rule calls) (simp_all add: alone_def r)
  moreover have "(alone cfg w NoExec (shared_of st))\<lparr>a_state := st', a_reply := (a_reply (alone cfg w NoExec (shared_of st)))(w := Some r)\<rparr>
      = alone cfg w (enter io c) (shared_of st)"
    by (simp add: alone_def c begin_exec_def e)
  moreover have "ends cfg (enter io c) (shared_of st)"
    unfolding c enter.simps begin_exec_def option.case ends.simps using e by blast
  ultimately show ?thesis using c by (simp add: runs_1)
qed

lemma alone_switches:
  assumes "exec_ended e" "ends cfg e s"
  shows "runs (aupload_step cfg) (alone cfg w e s) (return_event w e @ call_event w io c) (alone cfg w (enter io c) s)"
    "ends cfg (enter io c) s"
proof -
  obtain st where s: "s = shared_of st" using ended_settled [OF assms(2,1)] by blast
  show "runs (aupload_step cfg) (alone cfg w e s) (return_event w e @ call_event w io c) (alone cfg w (enter io c) s)"
    using runs_append [OF alone_returns [OF assms(1)]] alone_calls unfolding s by metis
  show "ends cfg (enter io c) s" using alone_calls unfolding s by metis
qed

lemma http_switch:
  assumes "race_inv cfg x" "sess_step l (x_sess x) s" "sess_inv s" "http_label l" "exec_ended (x_http x)"
  shows "race_inv cfg (x\<lparr>x_sess := s, x_http := enter io (http_command (s_http s))\<rparr>)
    \<and> runs (aupload_step cfg) (aupload_of cfg x) (race_events (AtLock io l) x)
        (aupload_of cfg (x\<lparr>x_sess := s, x_http := enter io (http_command (s_http s))\<rparr>))"
proof -
  let ?e = "enter io (http_command (s_http s))"
  let ?y = "x\<lparr>x_sess := s, x_http := ?e\<rparr>"
  have s: "s_http s = http_goes l (x_sess x)" "s_ser s = s_ser (x_sess x)" using sess_step_http [OF assms(2,4)] by auto
  have crit: "?e \<noteq> NoExec \<longrightarrow> http_critical s" using entered_http by blast
  show ?thesis
  proof (cases "x_ser x = NoExec")
    case True
    then have "ends cfg (x_http x) (x_shared x)" using assms(1) by (simp add: race_inv_def)
    note sw = alone_switches(1) [OF assms(5) this, of HTTP io "http_command (s_http s)"] alone_switches(2) [OF assms(5) this, of io "http_command (s_http s)"]
    have "?e = NoExec \<Longrightarrow> ends cfg NoExec (x_shared x)" using sw(2) by metis
    then show ?thesis
      using sw True crit assms by (simp add: race_inv_def aupload_of_alone s(1) [symmetric] del: ends.simps)
  next
    case False
    then have "ser_critical s" using assms(1) critical_cong(2) [OF s(2)] by (simp add: race_inv_def)
    then have e: "?e = NoExec" using crit assms(3) by (auto simp: sess_inv_def)
    have h: "x_http x = NoExec" using one_executes [OF assms(1)] False by blast
    then have y: "?y = x\<lparr>x_sess := s\<rparr>" using e by (cases x) simp
    have "call_event HTTP io (http_command (s_http s)) = []" using e call_event_enter by blast
    then have "race_events (AtLock io l) x = []" using h assms(4) s(1) by simp
    then show ?thesis unfolding y
      using assms h \<open>ser_critical s\<close> by (auto simp: race_inv_def aupload_of_def runs_Nil)
  qed
qed

lemma ser_switch:
  assumes "race_inv cfg x" "sess_step l (x_sess x) s" "sess_inv s" "ser_label l" "exec_ended (x_ser x)"
  shows "race_inv cfg (x\<lparr>x_sess := s, x_ser := enter io (ser_command (s_ser s))\<rparr>)
    \<and> runs (aupload_step cfg) (aupload_of cfg x) (race_events (AtLock io l) x)
        (aupload_of cfg (x\<lparr>x_sess := s, x_ser := enter io (ser_command (s_ser s))\<rparr>))"
proof -
  let ?e = "enter io (ser_command (s_ser s))"
  let ?y = "x\<lparr>x_sess := s, x_ser := ?e\<rparr>"
  have s: "s_ser s = ser_goes l (x_sess x)" "s_http s = s_http (x_sess x)" using sess_step_ser [OF assms(2,4)] by auto
  have nh: "\<not> http_label l" using labels_differ assms(4) by blast
  have crit: "?e \<noteq> NoExec \<longrightarrow> ser_critical s" using entered_ser by blast
  show ?thesis
  proof (cases "x_http x = NoExec")
    case True
    then have "ends cfg (x_ser x) (x_shared x)" using assms(1) by (simp add: race_inv_def)
    note sw = alone_switches(1) [OF assms(5) this, of SERIAL io "ser_command (s_ser s)"] alone_switches(2) [OF assms(5) this, of io "ser_command (s_ser s)"]
    have "?e = NoExec \<Longrightarrow> ends cfg NoExec (x_shared x)" using sw(2) by metis
    then show ?thesis
      using sw True crit assms nh by (simp add: race_inv_def aupload_of_alone s(1) [symmetric] del: ends.simps)
  next
    case False
    then have "http_critical s" using assms(1) critical_cong(1) [OF s(2)] by (simp add: race_inv_def)
    then have e: "?e = NoExec" using crit assms(3) by (auto simp: sess_inv_def)
    have h: "x_ser x = NoExec" using one_executes [OF assms(1)] False by blast
    then have y: "?y = x\<lparr>x_sess := s\<rparr>" using e by (cases x) simp
    have "call_event SERIAL io (ser_command (s_ser s)) = []" using e call_event_enter by blast
    then have "race_events (AtLock io l) x = []" using h assms(4) nh s(1) by simp
    then show ?thesis unfolding y
      using assms h \<open>http_critical s\<close> by (auto simp: race_inv_def aupload_of_def runs_Nil)
  qed
qed

lemma other_switch:
  assumes "race_inv cfg x" "sess_step l (x_sess x) s" "sess_inv s" "\<not> http_label l" "\<not> ser_label l"
  shows "race_inv cfg (x\<lparr>x_sess := s\<rparr>)" "aupload_of cfg (x\<lparr>x_sess := s\<rparr>) = aupload_of cfg x"
proof -
  have "http_critical s = http_critical (x_sess x)" "ser_critical s = ser_critical (x_sess x)"
    using sess_step_other [OF assms(2,4,5)] by (simp_all add: http_critical_def ser_critical_def)
  then show "race_inv cfg (x\<lparr>x_sess := s\<rparr>)" using assms(1,3) by (simp add: race_inv_def)
  show "aupload_of cfg (x\<lparr>x_sess := s\<rparr>) = aupload_of cfg x" by (simp add: aupload_of_def)
qed

text \<open>The statements of a command do not show.\<close>

lemma http_statement_hidden:
  assumes "race_inv cfg x" "x_http x = Exec io pc"
  obtains pc' s where "upload_step io cfg pc (x_shared x) = Some (pc', s)"
    "race_inv cfg (x\<lparr>x_shared := s, x_http := Exec io pc'\<rparr>)"
    "aupload_of cfg (x\<lparr>x_shared := s, x_http := Exec io pc'\<rparr>) = aupload_of cfg x"
proof -
  have o: "x_ser x = NoExec" using one_executes [OF assms(1)] assms(2) by simp
  have "ends cfg (Exec io pc) (x_shared x)" using assms o unfolding race_inv_def by metis
  then obtain pc' s where s: "upload_step io cfg pc (x_shared x) = Some (pc', s)" "ends cfg (Exec io pc') s"
      "outcome_of cfg (Exec io pc') s = outcome_of cfg (Exec io pc) (x_shared x)" by (rule ends_step)
  have "race_inv cfg (x\<lparr>x_shared := s, x_http := Exec io pc'\<rparr>)"
    using assms o s(2) by (simp add: race_inv_def del: ends.simps)
  moreover have "aupload_of cfg (x\<lparr>x_shared := s, x_http := Exec io pc'\<rparr>) = aupload_of cfg x"
    using o assms(2) s(3) by (simp add: aupload_of_alone alone_def del: outcome_of.simps)
  ultimately show ?thesis using that s(1) by blast
qed

lemma ser_statement_hidden:
  assumes "race_inv cfg x" "x_ser x = Exec io pc"
  obtains pc' s where "upload_step io cfg pc (x_shared x) = Some (pc', s)"
    "race_inv cfg (x\<lparr>x_shared := s, x_ser := Exec io pc'\<rparr>)"
    "aupload_of cfg (x\<lparr>x_shared := s, x_ser := Exec io pc'\<rparr>) = aupload_of cfg x"
proof -
  have o: "x_http x = NoExec" using one_executes [OF assms(1)] assms(2) by simp
  have "ends cfg (Exec io pc) (x_shared x)" using assms o unfolding race_inv_def by metis
  then obtain pc' s where s: "upload_step io cfg pc (x_shared x) = Some (pc', s)" "ends cfg (Exec io pc') s"
      "outcome_of cfg (Exec io pc') s = outcome_of cfg (Exec io pc) (x_shared x)" by (rule ends_step)
  have "race_inv cfg (x\<lparr>x_shared := s, x_ser := Exec io pc'\<rparr>)"
    using assms o s(2) by (simp add: race_inv_def del: ends.simps)
  moreover have "aupload_of cfg (x\<lparr>x_shared := s, x_ser := Exec io pc'\<rparr>) = aupload_of cfg x"
    using o assms(2) s(3) by (simp add: aupload_of_alone alone_def del: outcome_of.simps)
  ultimately show ?thesis using that s(1) by blast
qed

lemma statement_step:
  assumes "race_inv cfg x" "race_step cfg x l y" "l = HttpStatement \<or> l = SerStatement"
  shows "race_inv cfg y \<and> aupload_of cfg y = aupload_of cfg x"
  using assms(2)
proof (cases rule: race_step.cases)
  case (http_statement io pc pc' s)
  show ?thesis by (rule http_statement_hidden [OF assms(1) http_statement(4)]) (use http_statement in simp)
next
  case (http_undefined io pc)
  show ?thesis by (rule http_statement_hidden [OF assms(1) http_undefined(4)]) (use http_undefined in simp)
next
  case (ser_statement io pc pc' s)
  show ?thesis by (rule ser_statement_hidden [OF assms(1) ser_statement(4)]) (use ser_statement in simp)
next
  case (ser_undefined io pc)
  show ?thesis by (rule ser_statement_hidden [OF assms(1) ser_undefined(4)]) (use ser_undefined in simp)
qed (use assms(3) in simp)

lemma unforced_step_simulates:
  assumes "unforced_step cfg x l y" "race_inv cfg x"
  shows "race_inv cfg y" "runs (aupload_step cfg) (aupload_of cfg x) (race_events l x) (aupload_of cfg y)"
proof -
  have st: "race_step cfg x l y" and nf: "l = AtLock io k \<Longrightarrow> \<not> forces k (x_sess x)" for io k
    using assms(1) by (simp_all add: unforced_step_def)
  have "race_inv cfg y \<and> runs (aupload_step cfg) (aupload_of cfg x) (race_events l x) (aupload_of cfg y)"
  proof (cases l)
    case (AtLock io k)
    with st obtain s where s: "sess_step k (x_sess x) s" "http_label k \<longrightarrow> exec_ended (x_http x)" "ser_label k \<longrightarrow> exec_ended (x_ser x)"
        "y = x\<lparr>x_sess := s,
          x_http := (if http_label k then enter io (http_command (s_http s)) else x_http x),
          x_ser := (if ser_label k then enter io (ser_command (s_ser s)) else x_ser x)\<rparr>"
      by (auto elim: race_stepE)
    have inv: "sess_inv s" using sess_inv_step [OF s(1)] nf [OF AtLock] assms(2) by (simp add: race_inv_def)
    consider "http_label k" | "ser_label k" "\<not> http_label k" | "\<not> http_label k" "\<not> ser_label k" by blast
    then show ?thesis
    proof cases
      case 1
      with labels_differ s(2,4) show ?thesis unfolding AtLock using http_switch [OF assms(2) s(1) inv] by auto
    next
      case 2
      with s(3,4) show ?thesis unfolding AtLock using ser_switch [OF assms(2) s(1) inv] by simp
    next
      case 3
      with s(4) show ?thesis unfolding AtLock using other_switch [OF assms(2) s(1) inv] by (auto simp: runs_Nil)
    qed
  qed (use statement_step [OF assms(2) st] in \<open>auto simp: runs_Nil\<close>)
  then show "race_inv cfg y" "runs (aupload_step cfg) (aupload_of cfg x) (race_events l x) (aupload_of cfg y)" by auto
qed

interpretation atomic_upload: trace_refinement "unforced_step cfg" "race_inv cfg" "aupload_of cfg" "aupload_step cfg" race_events
  for cfg
  by unfold_locales (fact unforced_step_simulates)+

text \<open>The commands that were called, in order; the abstract state is what they compute.\<close>

fun called :: "upload_event list \<Rightarrow> (io \<times> upload_cmd) list" where
  "called [] = []"
| "called (Calls w io c # es) = (io, c) # called es"
| "called (Returns w r # es) = called es"

lemma aupload_called: "runs (aupload_step cfg) a es b \<Longrightarrow> a_state b = upload_run cfg (called es) (a_state a)"
proof (induction rule: runs.induct)
  case (runs_Cons a e b es c)
  then show ?case by (cases rule: aupload_step.cases) (auto simp: upload_run_def)
qed (simp add: upload_run_def)

lemma called_append: "called (es @ fs) = called es @ called fs"
  by (induction es rule: called.induct) auto

lemma called_event: "(io, c) \<in> set (called (race_events l x)) \<Longrightarrow> \<exists>k. l = AtLock io k"
proof (cases l)
  case (AtLock io' k)
  have r: "called (return_event w e) = []" for w e by (cases "(w, e)" rule: return_event.cases) auto
  have c: "(io, c) \<in> set (called (call_event w io' cmd)) \<Longrightarrow> io = io'" for w cmd
    by (cases cmd) (auto split: option.splits)
  show "(io, c) \<in> set (called (race_events l x)) \<Longrightarrow> ?thesis"
    using c by (auto simp: AtLock called_append r split: if_splits)
qed simp_all

lemma called_ios:
  "traces step race_events x ls es y \<Longrightarrow> (io, c) \<in> set (called es) \<Longrightarrow> \<exists>k. AtLock io k \<in> set ls"
  by (induction rule: traces.induct) (auto simp: called_append dest: called_event)

lemma aupload_of_start: "aupload_of cfg (race_start fs) = aupload_start fs"
  by (simp add: aupload_of_alone alone_def race_start_def aupload_start_def)

lemma at_upload_close: "at_upload ''AT+UPLOADDONE'' = Some UploadDone" "at_upload ''AT+UPLOADCANCEL'' = Some UploadCancel"
  using at_request_plain [of "''UPLOADDONE''"] at_request_plain [of "''UPLOADCANCEL''"]
  by (simp_all add: at_upload_def to_upper_def)

text \<open>The steps, with their results given.\<close>

lemma lock_goes:
  "sess_step l (x_sess x) s \<Longrightarrow> \<not> x_undefined x \<Longrightarrow> (http_label l \<longrightarrow> exec_ended (x_http x)) \<Longrightarrow>
     (ser_label l \<longrightarrow> exec_ended (x_ser x)) \<Longrightarrow>
     y = x\<lparr>x_sess := s, x_http := (if http_label l then enter io (http_command (s_http s)) else x_http x),
       x_ser := (if ser_label l then enter io (ser_command (s_ser s)) else x_ser x)\<rparr> \<Longrightarrow>
     race_step cfg x (AtLock io l) y"
  using race_step.at_lock by blast

lemma http_goes_on:
  "x_http x = Exec io pc \<Longrightarrow> upload_step io cfg pc (x_shared x) = Some z \<Longrightarrow> \<not> exec_ended (x_http x) \<Longrightarrow>
     \<not> x_undefined x \<Longrightarrow> y = x\<lparr>x_shared := snd z, x_http := Exec io (fst z)\<rparr> \<Longrightarrow> race_step cfg x HttpStatement y"
  using race_step.http_statement by (cases z) auto

lemma ser_goes_on:
  "x_ser x = Exec io pc \<Longrightarrow> upload_step io cfg pc (x_shared x) = Some z \<Longrightarrow> \<not> exec_ended (x_ser x) \<Longrightarrow>
     \<not> x_undefined x \<Longrightarrow> y = x\<lparr>x_shared := snd z, x_ser := Exec io (fst z)\<rparr> \<Longrightarrow> race_step cfg x SerStatement y"
  using race_step.ser_statement by (cases z) auto

text \<open>An upload of the serial side is in progress, and nobody executes a command.\<close>

definition serial_session :: "race \<Rightarrow> bool" where
  "serial_session x \<longleftrightarrow> x_sess x = sess_start\<lparr>s_owner := SERIAL\<rparr> \<and> x_http x = NoExec \<and> x_ser x = NoExec
     \<and> \<not> x_undefined x \<and> (\<exists>u fs. x_shared x = shared_of (u, fs) \<and> u_active u \<and> u_file u \<noteq> None)"

text \<open>The state and the files, when nobody is executing, are those of the called commands.\<close>

lemma commands_atomic:
  assumes "traces (unforced_step cfg) race_events (race_start fs) ls es x"
  shows "\<not> x_undefined x \<and> runs (aupload_step cfg) (aupload_start fs) es (aupload_of cfg x)
    \<and> (x_http x = NoExec \<and> x_ser x = NoExec \<longrightarrow> x_shared x = shared_of (upload_run cfg (called es) (UploadState_new, fs)))"
proof -
  have inv: "race_inv cfg x"
    using atomic_upload.inv_runs [OF traces_runs [OF assms]] race_inv_start by blast
  have r: "runs (aupload_step cfg) (aupload_start fs) es (aupload_of cfg x)"
    using atomic_upload.refines [OF assms race_inv_start] by (simp add: aupload_of_start)
  have "x_shared x = shared_of (upload_run cfg (called es) (UploadState_new, fs))" if "x_http x = NoExec" "x_ser x = NoExec"
  proof -
    have "ends cfg NoExec (x_shared x)" using inv that unfolding race_inv_def by metis
    then obtain st where st: "x_shared x = shared_of st" unfolding ends.simps by blast
    have "a_state (aupload_of cfg x) = st" by (simp add: aupload_of_alone that alone_def st)
    then show ?thesis using aupload_called [OF r] st by (simp add: aupload_start_def)
  qed
  with inv r show ?thesis by (simp add: race_inv_def)
qed

section \<open>Concrete runs\<close>

lemma unforcedI:
  "race_step cfg x l y \<Longrightarrow> (\<And>io k. l = AtLock io k \<Longrightarrow> \<not> forces k (x_sess x)) \<Longrightarrow> unforced_step cfg x l y"
  by (simp add: unforced_step_def)

text \<open>The serial side executes a command to its end.\<close>

lemma ser_executes:
  assumes "upload_steps io cfg n (pc, x_shared x) = Some (URet r, s)" "x_ser x = Exec io pc" "\<not> x_undefined x"
  shows "\<exists>k. runs (unforced_step cfg) x (replicate k SerStatement) (x\<lparr>x_shared := s, x_ser := Exec io (URet r)\<rparr>)"
  using assms
proof (induction n arbitrary: pc x)
  case 0
  then have "x\<lparr>x_shared := s, x_ser := Exec io (URet r)\<rparr> = x" by (cases x) auto
  then show ?case by (intro exI [of _ 0]) (simp add: runs_Nil)
next
  case (Suc n)
  show ?case
  proof (cases "exec_ended (Exec io pc)")
    case True
    then obtain r' where "pc = URet r'" by (cases pc) auto
    with Suc.prems have "x\<lparr>x_shared := s, x_ser := Exec io (URet r)\<rparr> = x" by (cases x) auto
    then show ?thesis by (intro exI [of _ 0]) (simp add: runs_Nil)
  next
    case False
    obtain z where z: "upload_step io cfg pc (x_shared x) = Some z" "upload_steps io cfg n z = Some (URet r, s)"
      using Suc.prems(1) by (auto split: option.splits)
    let ?y = "x\<lparr>x_shared := snd z, x_ser := Exec io (fst z)\<rparr>"
    have 1: "unforced_step cfg x SerStatement ?y"
      by (rule unforcedI [OF ser_goes_on]) (use False Suc.prems z in auto)
    have "\<exists>k. runs (unforced_step cfg) ?y (replicate k SerStatement) (?y\<lparr>x_shared := s, x_ser := Exec io (URet r)\<rparr>)"
      by (rule Suc.IH) (use z(2) Suc.prems in simp_all)
    then obtain k where "runs (unforced_step cfg) ?y (replicate k SerStatement) (x\<lparr>x_shared := s, x_ser := Exec io (URet r)\<rparr>)"
      by auto
    from runs_Cons [where step = "unforced_step cfg", OF 1 this] show ?thesis
      by (intro exI [of _ "Suc k"]) simp
  qed
qed

lemma at_upload_action: "at_upload cmd = Some c \<Longrightarrow> at_action cmd \<noteq> ''RESET'' \<and> at_action cmd \<noteq> ''FORCERESET''"
  by (auto simp: at_upload_def at_action_def split: sum.splits if_splits)

text \<open>The serial side, or nobody, owns the lock, and nobody executes a command.\<close>

definition serial_idle :: "UploadState \<times> fs \<Rightarrow> race \<Rightarrow> bool" where
  "serial_idle st x \<longleftrightarrow> x_sess x \<in> {sess_start, sess_start\<lparr>s_owner := SERIAL\<rparr>} \<and> x_shared x = shared_of st
     \<and> x_http x = NoExec \<and> x_ser x = NoExec \<and> \<not> x_undefined x"

definition uses_io :: "io \<Rightarrow> race_label list \<Rightarrow> bool" where
  "uses_io io ls \<longleftrightarrow> (\<forall>io' l. AtLock io' l \<in> set ls \<longrightarrow> io' = io)"

lemma uses_io_simps [simp]:
  "uses_io io []" "uses_io io (AtLock io' l # ls) \<longleftrightarrow> io' = io \<and> uses_io io ls" "uses_io io (SerStatement # ls) = uses_io io ls"
  "uses_io io (ls @ ms) \<longleftrightarrow> uses_io io ls \<and> uses_io io ms"
  by (auto simp: uses_io_def)

text \<open>The serial side enters a command: at once, or after it has found that the lock is its own.\<close>

lemma serial_enters:
  assumes "at_upload line = Some c" "serial_idle st x"
  shows "\<exists>ls. runs (unforced_step cfg) x ls
      (x\<lparr>x_sess := sess_start\<lparr>s_owner := SERIAL, s_ser := SRun line\<rparr>, x_ser := Exec io (upload_start c)\<rparr>) \<and> uses_io io ls"
proof -
  let ?x1 = "x\<lparr>x_sess := sess_start\<lparr>s_owner := SERIAL, s_ser := SRun line\<rparr>, x_ser := Exec io (upload_start c)\<rparr>"
  let ?x0 = "x\<lparr>x_sess := sess_start\<lparr>s_owner := SERIAL, s_ser := SDenied line\<rparr>\<rparr>"
  from assms(2) have "x_sess x = sess_start \<or> x_sess x = sess_start\<lparr>s_owner := SERIAL\<rparr>" by (simp add: serial_idle_def)
  then show ?thesis
  proof
    assume s: "x_sess x = sess_start"
    have "race_step cfg x (AtLock io (SerialLine line)) ?x1"
      by (rule lock_goes [OF sess_step.serial_line [where pc = "SRun line" and owner = SERIAL]])
         (use assms in \<open>simp_all add: s serial_idle_def sess_start_def ser_arrive_def owner_ops begin_exec_def\<close>)
    then have "unforced_step cfg x (AtLock io (SerialLine line)) ?x1" by (rule unforcedI) (simp add: forces_def)
    from runs_1 [where step = "unforced_step cfg", OF this] show ?thesis by (intro exI [of _ "[AtLock io (SerialLine line)]"]) simp
  next
    assume s: "x_sess x = sess_start\<lparr>s_owner := SERIAL\<rparr>"
    have x: "x\<lparr>x_ser := NoExec\<rparr> = x" using assms(2) by (cases x) (simp add: serial_idle_def)
    have "race_step cfg x (AtLock io (SerialLine line)) ?x0"
      by (rule lock_goes [OF sess_step.serial_line [where pc = "SDenied line" and owner = SERIAL]])
         (use assms x in \<open>simp_all add: s serial_idle_def sess_start_def ser_arrive_def owner_ops\<close>)
    then have 1: "unforced_step cfg x (AtLock io (SerialLine line)) ?x0" by (rule unforcedI) (simp add: forces_def)
    have "race_step cfg ?x0 (AtLock io SerialNext) ?x1"
      by (rule lock_goes [OF sess_step.serial_step [where pc = "SRun line" and owner = SERIAL]])
         (use assms in \<open>simp_all add: serial_idle_def sess_start_def begin_exec_def\<close>)
    then have "unforced_step cfg ?x0 (AtLock io SerialNext) ?x1" by (rule unforcedI) (simp add: forces_def sess_start_def)
    from runs_2 [where step = "unforced_step cfg", OF 1 this] show ?thesis by (intro exI [of _ "[AtLock io (SerialLine line), AtLock io SerialNext]"]) simp
  qed
qed

lemma serial_command_runs:
  assumes "at_upload line = Some c" "serial_idle st x" "upload_call cfg (io, c) st = (r, st')"
  shows "\<exists>ls y. runs (unforced_step cfg) x ls y \<and> uses_io io ls \<and> serial_idle st' y \<and> s_owner (x_sess y) = SERIAL"
proof -
  let ?x1 = "x\<lparr>x_sess := sess_start\<lparr>s_owner := SERIAL, s_ser := SRun line\<rparr>, x_ser := Exec io (upload_start c)\<rparr>"
  let ?x2 = "?x1\<lparr>x_shared := shared_of st', x_ser := Exec io (URet r)\<rparr>"
  let ?y = "?x2\<lparr>x_sess := sess_start\<lparr>s_owner := SERIAL\<rparr>, x_ser := NoExec\<rparr>"
  obtain ls where ls: "runs (unforced_step cfg) x ls ?x1" "uses_io io ls" using serial_enters [OF assms(1,2)] by blast
  have "upload_steps io cfg statements (upload_start c, x_shared ?x1) = Some (URet r, shared_of st')"
    using upload_statements [of io cfg c st] assms(2,3) by (simp add: serial_idle_def)
  then obtain n where n: "runs (unforced_step cfg) ?x1 (replicate n SerStatement) ?x2"
    using ser_executes [of io cfg statements "upload_start c" ?x1 r "shared_of st'"] assms(2) by (auto simp: serial_idle_def)
  have "race_step cfg ?x2 (AtLock io SerialNext) ?y"
    by (rule lock_goes [OF sess_step.serial_step [where pc = SIdle and owner = SERIAL]])
       (use assms(2) in \<open>simp_all add: serial_idle_def sess_start_def at_upload_action [OF assms(1)]\<close>)
  then have "unforced_step cfg ?x2 (AtLock io SerialNext) ?y"
    by (rule unforcedI) (simp add: forces_def at_upload_action [OF assms(1)])
  from runs_append [OF ls(1) runs_snoc [where step = "unforced_step cfg", OF n this]]
  have "runs (unforced_step cfg) x (ls @ replicate n SerStatement @ [AtLock io SerialNext]) ?y" .
  moreover have "uses_io io (ls @ replicate n SerStatement @ [AtLock io SerialNext])" using ls(2) by (simp add: uses_io_def)
  moreover have "serial_idle st' ?y" using assms(2) by (simp add: serial_idle_def)
  ultimately show ?thesis by (intro exI conjI) (assumption, assumption, assumption, simp)
qed

text \<open>The lines of a whole session.\<close>

lemma serial_commands_run:
  assumes "list_all2 (\<lambda>line c. at_upload line = Some c) lines cs" "serial_idle st x"
  shows "\<exists>ls y. runs (unforced_step cfg) x ls y \<and> uses_io io ls \<and> serial_idle (upload_run cfg (map (Pair io) cs) st) y
    \<and> (lines \<noteq> [] \<or> s_owner (x_sess x) = SERIAL \<longrightarrow> s_owner (x_sess y) = SERIAL)"
  using assms
proof (induction lines cs arbitrary: st x rule: list_all2_induct)
  case Nil
  then show ?case by (intro exI [of _ "[]"] exI [of _ x]) (simp add: runs_Nil upload_run_def)
next
  case (Cons line lines c cs)
  obtain r st' where r: "upload_call cfg (io, c) st = (r, st')" by (metis surj_pair)
  obtain ls y where y: "runs (unforced_step cfg) x ls y" "uses_io io ls" "serial_idle st' y" "s_owner (x_sess y) = SERIAL"
    using serial_command_runs [OF Cons.hyps(1) Cons.prems r] by blast
  obtain ms z where z: "runs (unforced_step cfg) y ms z" "uses_io io ms" "serial_idle (upload_run cfg (map (Pair io) cs) st') z"
      "s_owner (x_sess z) = SERIAL"
    using Cons.IH [OF y(3)] y(4) by blast
  then show ?case
    using runs_append [OF y(1) z(1)] y(2) r
    by (intro exI [of _ "ls @ ms"] exI [of _ z]) (simp add: upload_run_def)
qed

lemma at_upload_lines:
  "md5_text md5 \<Longrightarrow> at_upload (''AT+PREUPLOAD='' @ client_begin name n md5) = Some (PreUpload (client_begin name n md5))"
  "at_upload (''AT+UPLOAD='' @ client_frame bs) = Some (UploadFrame (client_frame bs))"
  using at_request_join [of "''PREUPLOAD''" "client_begin name n md5" "[]"] last_begin [of md5 name n]
    at_request_join [of "''UPLOAD''" "client_frame bs" "[]"] last_frame [of bs] upper_names
  by (simp_all add: at_upload_def)

lemma serial_idle_start: "serial_idle (UploadState_new, fs) (race_start fs)"
  by (simp add: serial_idle_def race_start_def)

text \<open>An upload of three bytes over the serial line: received, and stored.\<close>

lemma three_bytes_run:
  assumes "cs = [PreUpload (client_begin ''fw'' (length [1, 2, 3 :: byte]) (md5_compute [1, 2, 3])), UploadFrame (client_frame [1, 2, 3])]
      @ (if finished then [UploadDone] else [])"
  obtains ls x where "runs (unforced_step Config_default) (race_start fs_empty) ls x" "uses_io io_all_ok ls"
    "serial_idle (upload_run Config_default (map (Pair io_all_ok) cs) (UploadState_new, fs_empty)) x" "s_owner (x_sess x) = SERIAL"
proof -
  let ?lines = "[''AT+PREUPLOAD='' @ client_begin ''fw'' (length [1, 2, 3 :: byte]) (md5_compute [1, 2, 3]),
      ''AT+UPLOAD='' @ client_frame [1, 2, 3]] @ (if finished then [''AT+UPLOADDONE''] else [])"
  have "list_all2 (\<lambda>line c. at_upload line = Some c) ?lines cs"
    using at_upload_lines(1) [OF md5_text_compute, of "''fw''"] at_upload_lines(2) at_upload_close(1) by (simp add: assms)
  from serial_commands_run [OF this serial_idle_start [of fs_empty], where cfg = Config_default and io = io_all_ok] show ?thesis
    using that by auto
qed

lemma serial_session_reached:
  obtains ls x where "runs (unforced_step Config_default) (race_start fs_empty) ls x" "serial_session x"
proof -
  obtain u fs f where u: "upload_run Config_default three_bytes (UploadState_new, fs_empty) = (u, fs)"
      "upload_inv Config_default (u, fs)" "u_file u = Some f"
    by (rule three_bytes_received)
  obtain ls x where x: "runs (unforced_step Config_default) (race_start fs_empty) ls x" "uses_io io_all_ok ls"
      "serial_idle (upload_run Config_default three_bytes (UploadState_new, fs_empty)) x" "s_owner (x_sess x) = SERIAL"
    by (rule three_bytes_run [where finished = False, OF refl]) (simp add: three_bytes_def)
  have "u_active u" "u_file u \<noteq> None" using upload_inv_open(1) [OF u(2,3)] u(3) by simp_all
  then have "\<exists>v fs'. x_shared x = shared_of (v, fs') \<and> u_active v \<and> u_file v \<noteq> None"
    using x(3) u(1) by (auto simp: serial_idle_def)
  moreover have "x_sess x = sess_start\<lparr>s_owner := SERIAL\<rparr>" using x(3,4) by (auto simp: serial_idle_def sess_start_def)
  ultimately have "serial_session x" using x(3) by (simp add: serial_session_def serial_idle_def)
  then show ?thesis using that x(1) by blast
qed

section \<open>Properties\<close>

text \<open>
  C6: without a forced release the upload commands of the two threads are atomic. The statements of
  the handlers are interleaved at will on the one \<open>UploadState\<close>, yet no run calls the C library on a
  closed or null stream, every run is one of a component that executes each command at once when its
  side enters it (so each reply is what the handler computes on the state the previous command left),
  and whenever no command is being executed the state and the files are what the called commands
  compute one after the other.
\<close>

theorem upload_commands_atomic:
  assumes "traces (unforced_step cfg) race_events (race_start fs) ls es x"
  shows "\<not> x_undefined x \<and> runs (aupload_step cfg) (aupload_start fs) es (aupload_of cfg x)
    \<and> (x_http x = NoExec \<and> x_ser x = NoExec \<longrightarrow> x_shared x = shared_of (upload_run cfg (called es) (UploadState_new, fs)))"
  using commands_atomic [OF assms] .

theorem upload_commands_atomic_witness:
  "\<exists>ls es x. u_active (h_u (x_shared x)) \<and> \<not> x_undefined x
    \<and> runs (aupload_step Config_default) (aupload_start fs_empty) es (aupload_of Config_default x)
    \<and> x_shared x = shared_of (upload_run Config_default (called es) (UploadState_new, fs_empty))
    \<and> traces (unforced_step Config_default) race_events (race_start fs_empty) ls es x"
proof -
  obtain ls x where x: "runs (unforced_step Config_default) (race_start fs_empty) ls x" "serial_session x"
    by (rule serial_session_reached)
  obtain es where tr: "traces (unforced_step Config_default) race_events (race_start fs_empty) ls es x"
    using runs_traces [OF x(1)] by blast
  have "u_active (h_u (x_shared x))" using x(2) by (auto simp: serial_session_def)
  moreover have "x_http x = NoExec \<and> x_ser x = NoExec" using x(2) by (simp add: serial_session_def)
  ultimately show ?thesis using upload_commands_atomic [OF tr] tr by blast
qed

text \<open>
  C3: as long as nobody force-releases the lock and no write falls short, the upload directory only
  ever holds firmware that was announced, whichever thread sent it. After any interleaving of the two
  threads' statements without a forced release (no \<open>AT+FORCERESET\<close>, no \<open>/api/reset\<close>), with any command
  texts, in which the C library takes and flushes every byte (other calls may fail), whenever neither
  thread is inside an upload command, each file that does not have the name of a temporary file either has the content it had at
  the start, or lies in the upload directory under a name that an \<open>AT+PREUPLOAD\<close> announced, with
  exactly the MD5 and (modulo \<open>2^64\<close>) the size announced with it: no final file is half written.
\<close>

theorem upload_store_integrity:
  assumes "traces (unforced_step cfg) race_events (race_start fs0) ls es x" "fs_wf fs0"
    and "\<forall>io l. AtLock io l \<in> set ls \<longrightarrow> io_writes_ok io" "x_http x = NoExec" "x_ser x = NoExec"
    and "\<not> temporary cfg q" "fs_lookup (h_fs (x_shared x)) q \<noteq> fs_lookup fs0 q"
  shows "\<exists>name data. c_str q = c_str (cfg_upload_dir cfg @ ''/'' @ name) \<and> safe_filename name
    \<and> fs_lookup (h_fs (x_shared x)) q = Some data \<and> (name, of_nat (length data), md5_compute data) \<in> announced (called es)"
proof -
  obtain u fs where run: "upload_run cfg (called es) (UploadState_new, fs0) = (u, fs)" by (metis surj_pair)
  have x: "x_shared x = shared_of (u, fs)" using commands_atomic [OF assms(1)] assms(4,5) run by simp
  have "list_all (\<lambda>l. io_writes_ok (fst l)) (called es)"
    using called_ios [OF assms(1)] assms(3) by (fastforce simp: list_all_iff)
  from store_integrity [OF assms(2) this run assms(6)] assms(7) show ?thesis by (simp add: x)
qed

theorem upload_store_integrity_witness:
  "\<exists>name data (x :: race). c_str ''/tmp/rk_flashd_uploads/fw'' = c_str (cfg_upload_dir Config_default @ ''/'' @ name)
    \<and> safe_filename name \<and> fs_lookup (h_fs (x_shared x)) ''/tmp/rk_flashd_uploads/fw'' = Some data"
proof -
  let ?q = "''/tmp/rk_flashd_uploads/fw''"
  obtain u fs where u: "upload_run Config_default (three_bytes @ [(io_all_ok, UploadDone)]) (UploadState_new, fs_empty) = (u, fs)"
      "fs_lookup fs ?q = Some [1, 2, 3]"
    by (rule three_bytes_stored)
  obtain ls x where x: "runs (unforced_step Config_default) (race_start fs_empty) ls x" "uses_io io_all_ok ls"
      "serial_idle (upload_run Config_default (three_bytes @ [(io_all_ok, UploadDone)]) (UploadState_new, fs_empty)) x"
    by (rule three_bytes_run [where finished = True, OF refl]) (simp add: three_bytes_def)
  obtain es where tr: "traces (unforced_step Config_default) race_events (race_start fs_empty) ls es x"
    using runs_traces [OF x(1)] by blast
  have io: "\<forall>io l. AtLock io l \<in> set ls \<longrightarrow> io_writes_ok io" using x(2) io_all_ok_writes by (auto simp: uses_io_def)
  have at: "x_http x = NoExec" "x_ser x = NoExec" "h_fs (x_shared x) = fs" using x(3) u(1) by (simp_all add: serial_idle_def)
  have "fs_lookup (h_fs (x_shared x)) ?q \<noteq> fs_lookup fs_empty ?q" using u(2) at(3) by (auto simp: fs_lookup_def fs_empty_def)
  from upload_store_integrity [OF tr fs_wf_empty io at(1,2) not_temporary_fw this] show ?thesis by blast
qed

text \<open>The state after a forced release between \<open>fclose(u.file)\<close> and \<open>u.file = nullptr\<close> of the serial side.\<close>

definition released_closing :: "io \<Rightarrow> UploadState \<Rightarrow> fs \<Rightarrow> stream \<Rightarrow> race" where
  "released_closing io u fs f =
     \<lparr>x_sess = sess_start\<lparr>s_ser := SRun ''AT+UPLOADDONE''\<rparr>,
      x_shared = (shared_of (u, fs))\<lparr>h_fs := fclose io fs f, h_live := False\<rparr>,
      x_http = NoExec, x_ser = Exec io UDoneNull, x_undefined = False\<rparr>"

lemma serial_closes_and_is_released:
  assumes "serial_session x"
  obtains u fs f where "u_active u" "u_file u = Some f"
    "runs (race_step cfg) x [AtLock io (SerialLine ''AT+UPLOADDONE''), AtLock io SerialNext, SerStatement, SerStatement, AtLock io ApiReset]
      (released_closing io u fs f)"
proof -
  obtain u fs f where x: "x = \<lparr>x_sess = sess_start\<lparr>s_owner := SERIAL\<rparr>, x_shared = shared_of (u, fs),
      x_http = NoExec, x_ser = NoExec, x_undefined = False\<rparr>" and u: "u_active u" "u_file u = Some f"
    using assms by (cases x) (auto simp: serial_session_def)
  let ?run = "SRun ''AT+UPLOADDONE''" and ?denied = "SDenied ''AT+UPLOADDONE''" and ?closed = "(shared_of (u, fs))\<lparr>h_fs := fclose io fs f, h_live := False\<rparr>"
  let ?x0 = "x\<lparr>x_sess := sess_start\<lparr>s_owner := SERIAL, s_ser := ?denied\<rparr>\<rparr>"
  let ?x1 = "x\<lparr>x_sess := sess_start\<lparr>s_owner := SERIAL, s_ser := ?run\<rparr>, x_ser := Exec io UDone\<rparr>"
  let ?x2 = "?x1\<lparr>x_ser := Exec io UDoneClose\<rparr>"
  let ?x3 = "?x1\<lparr>x_shared := ?closed, x_ser := Exec io UDoneNull\<rparr>"
  have 0: "race_step cfg x (AtLock io (SerialLine ''AT+UPLOADDONE'')) ?x0"
    by (rule lock_goes [OF sess_step.serial_line [where pc = ?denied and owner = SERIAL]])
       (simp_all add: x sess_start_def ser_arrive_def owner_ops)
  have 1: "race_step cfg ?x0 (AtLock io SerialNext) ?x1"
    by (rule lock_goes [OF sess_step.serial_step [where pc = ?run and owner = SERIAL]])
       (simp_all add: x sess_start_def begin_exec_def at_upload_close)
  have 2: "race_step cfg ?x1 SerStatement ?x2"
    by (rule ser_goes_on [where io = io and pc = UDone and z = "(UDoneClose, shared_of (u, fs))"]) (simp_all add: x u shared_of_def)
  have 3: "race_step cfg ?x2 SerStatement ?x3"
    by (rule ser_goes_on [where io = io and pc = UDoneClose and z = "(UDoneNull, ?closed)"]) (simp_all add: x u shared_of_def close_shared_def)
  have 4: "race_step cfg ?x3 (AtLock io ApiReset) (released_closing io u fs f)"
    by (rule lock_goes [OF sess_step.api_reset]) (simp_all add: x sess_start_def owner_ops released_closing_def)
  show thesis
    by (rule that [where fs = fs, OF u]) (intro runs_Cons [where step = "race_step cfg", OF 0] runs_Cons [where step = "race_step cfg", OF 1]
        runs_Cons [where step = "race_step cfg", OF 2] runs_Cons [where step = "race_step cfg", OF 3]
        runs_Cons [where step = "race_step cfg", OF 4] runs_Nil)
qed

lemma http_closes_again:
  assumes u: "u_active u" "u_file u = Some f"
  shows "\<exists>y. runs (race_step cfg) (released_closing io u fs f)
      [AtLock io (HttpRequest ''AT+UPLOADCANCEL''), AtLock io HttpNext, HttpStatement, HttpStatement, HttpStatement] y \<and> x_undefined y"
proof -
  let ?run = "SRun ''AT+UPLOADDONE''" and ?closed = "(shared_of (u, fs))\<lparr>h_fs := fclose io fs f, h_live := False\<rparr>"
  let ?x4 = "released_closing io u fs f"
  let ?x5 = "?x4\<lparr>x_sess := sess_start\<lparr>s_ser := ?run, s_http := HFree ''AT+UPLOADCANCEL''\<rparr>\<rparr>"
  let ?x6 = "?x4\<lparr>x_sess := sess_start\<lparr>s_ser := ?run, s_http := HRun ''AT+UPLOADCANCEL'', s_owner := HTTP\<rparr>, x_http := Exec io UCancel\<rparr>"
  let ?x8 = "?x6\<lparr>x_http := Exec io UCancelClose\<rparr>"
  note x4 = released_closing_def
  have 5: "race_step cfg ?x4 (AtLock io (HttpRequest ''AT+UPLOADCANCEL'')) ?x5"
    by (rule lock_goes [OF sess_step.http_request])
       (simp_all add: x4 sess_start_def http_arrive_def not_bypass_cancel owner_ops)
  have 6: "race_step cfg ?x5 (AtLock io HttpNext) ?x6"
    by (rule lock_goes [OF sess_step.http_step [where pc = "HRun ''AT+UPLOADCANCEL''" and owner = HTTP]])
       (simp_all add: x4 sess_start_def owner_ops begin_exec_def at_upload_close)
  have 7: "race_step cfg ?x6 HttpStatement (?x6\<lparr>x_http := Exec io UCancelFile\<rparr>)"
    by (rule http_goes_on [where io = io and pc = UCancel and z = "(UCancelFile, ?closed)"]) (simp_all add: x4 u shared_of_def)
  have 8: "race_step cfg (?x6\<lparr>x_http := Exec io UCancelFile\<rparr>) HttpStatement ?x8"
    by (rule http_goes_on [where io = io and pc = UCancelFile and z = "(UCancelClose, ?closed)"]) (simp_all add: x4 u shared_of_def)
  have 9: "race_step cfg ?x8 HttpStatement (?x8\<lparr>x_undefined := True\<rparr>)"
    by (rule race_step.http_undefined [where io = io and pc = UCancelClose]) (simp_all add: x4 u shared_of_def close_shared_def)
  show ?thesis
    by (rule exI [of _ "?x8\<lparr>x_undefined := True\<rparr>"], rule conjI)
       (intro runs_Cons [where step = "race_step cfg", OF 5] runs_Cons [where step = "race_step cfg", OF 6]
        runs_Cons [where step = "race_step cfg", OF 7] runs_Cons [where step = "race_step cfg", OF 8]
        runs_Cons [where step = "race_step cfg", OF 9] runs_Nil, simp)
qed

definition closing_twice :: "io \<Rightarrow> race_label list" where
  "closing_twice io =
     [AtLock io (SerialLine ''AT+UPLOADDONE''), AtLock io SerialNext, SerStatement, SerStatement,
      AtLock io ApiReset, AtLock io (HttpRequest ''AT+UPLOADCANCEL''), AtLock io HttpNext,
      HttpStatement, HttpStatement, HttpStatement]"

text \<open>
  C7: with a forced release the commands are not atomic, and a stream can be closed twice. In every
  state with an upload of the serial side in progress: the serial side executes \<open>AT+UPLOADDONE\<close> as
  far as \<open>fclose(u.file)\<close>, \<open>POST /api/reset\<close> frees the lock, and \<open>AT+UPLOADCANCEL\<close> over HTTP finds the
  pointer not yet reset and closes the closed stream.
\<close>

theorem double_fclose:
  assumes "serial_session x"
  shows "\<exists>y. runs (race_step cfg) x (closing_twice io) y \<and> x_undefined y"
proof -
  obtain u fs f where u: "u_active u" "u_file u = Some f" and half:
      "runs (race_step cfg) x [AtLock io (SerialLine ''AT+UPLOADDONE''), AtLock io SerialNext, SerStatement, SerStatement, AtLock io ApiReset]
        (released_closing io u fs f)"
    by (rule serial_closes_and_is_released [OF assms])
  from http_closes_again [OF u] runs_append [OF half] show ?thesis by (fastforce simp: closing_twice_def)
qed

theorem double_fclose_witness:
  "\<exists>ls x y. runs (unforced_step Config_default) (race_start fs_empty) ls x
    \<and> runs (race_step Config_default) x (closing_twice io_all_ok) y \<and> x_undefined y"
proof -
  obtain ls x where x: "runs (unforced_step Config_default) (race_start fs_empty) ls x" "serial_session x"
    by (rule serial_session_reached)
  then show ?thesis using double_fclose [OF x(2)] by blast
qed

end
