(* ===== verification/Status_Race.thy ===== *)
theory Status_Race
  imports HttpCommand Session Transition
begin

text \<open>
  \<open>GET /api/status\<close> (\<open>handleStatus\<close> of \<open>src/http_handler/handler_status.cpp\<close>) loads the owner of the
  session lock up to three times, in separate steps: \<open>is_busy()\<close> for \<open>daemon_busy\<close>, \<open>is_busy()\<close> again
  for the branch, and \<open>owner()\<close> inside it. The serial reader may run in between (the HTTP thread
  itself, being in the handler, has no other lock step). \<open>handle_http_status\<close> of theory
  \<open>HttpCommand\<close> is the handler when it does not; here is what it answers when it does.
\<close>

section \<open>The code\<close>

definition status_lock_fields :: "Owner \<Rightarrow> Owner \<Rightarrow> Owner \<Rightarrow> (string \<times> json_value) list" where
  "status_lock_fields owner1 owner2 owner3 =
     [(''daemon_busy'', JBool (is_busy owner1)),
      (''lock_owner'', if is_busy owner2 then JStr (if owner3 = HTTP then ''HTTP'' else ''SERIAL'') else JNull)]"

definition handle_status_loads ::
    "(string \<Rightarrow> bool) \<Rightarrow> env \<Rightarrow> Config \<Rightarrow> Owner \<Rightarrow> Owner \<Rightarrow> Owner \<Rightarrow> daemon \<Rightarrow> http_result" where
  "handle_status_loads dumpable env cfg owner1 owner2 owner3 d =
     send_json dumpable 200
       ([(''status'', JStr ''ok''), (''version'', JStr ''0.1.0''), (''uptime_seconds'', JNum (e_uptime env)),
         (''serial_port'', JStr (cfg_serial_device cfg)), (''serial_connected'', JBool (e_serial_open env))]
        @ status_lock_fields owner1 owner2 owner3
        @ [(''port'', JNum (uint (cfg_port cfg))), (''upload_dir'', JStr (cfg_upload_dir cfg))]) d"

text \<open>The owners a call of the handler loads, while the reader takes any steps between the loads.\<close>

definition serial_step :: "sess \<Rightarrow> sess_label \<Rightarrow> sess \<Rightarrow> bool" where
  "serial_step s l t \<longleftrightarrow> sess_step l s t \<and> ser_label l"

inductive status_request :: "sess \<Rightarrow> Owner \<Rightarrow> Owner \<Rightarrow> Owner \<Rightarrow> sess \<Rightarrow> bool" where
  loads: "s_http s = HIdle \<Longrightarrow> runs serial_step s ls t \<Longrightarrow> runs serial_step t ms u \<Longrightarrow>
    status_request s (s_owner s) (s_owner t) (s_owner u) u"

inductive_cases status_requestE: "status_request s owner1 owner2 owner3 u"

section \<open>What the answer says\<close>

text \<open>Without a step of the reader in between, it is the answer of the one state.\<close>

theorem status_undisturbed:
  "handle_status_loads dumpable env cfg (d_owner d) (d_owner d) (d_owner d) d = handle_http_status dumpable env cfg d"
  by (simp add: handle_status_loads_def status_lock_fields_def handle_http_status_def)

text \<open>
  What the reader keeps: it works on a line only as the owner, so it neither takes the lock from the
  HTTP side nor gives it to it.
\<close>

definition serial_inv :: "bool \<Rightarrow> sess \<Rightarrow> bool" where
  "serial_inv http s \<longleftrightarrow> (ser_critical s \<longrightarrow> s_owner s = SERIAL) \<and> (s_owner s = HTTP \<longleftrightarrow> http)"

lemma serial_inv_step: "serial_step s l t \<Longrightarrow> serial_inv http s \<Longrightarrow> serial_inv http t"
  unfolding serial_step_def
proof (elim conjE)
  assume "sess_step l s t" "ser_label l" "serial_inv http s"
  then show "serial_inv http t"
  proof cases
    case (serial_line line pc owner)
    with \<open>serial_inv http s\<close> show ?thesis
      by (auto simp: serial_inv_def ser_critical_def ser_arrive_def owner_ops split: if_splits)
  next
    case (serial_step pc owner)
    with \<open>serial_inv http s\<close> show ?thesis
      by (cases "s_ser s") (auto simp: serial_inv_def ser_critical_def owner_ops split: if_splits)
  qed (use \<open>ser_label l\<close> in simp_all)
qed

interpretation serial_side: step_invariant serial_step "serial_inv http" for http
  by unfold_locales (rule serial_inv_step)

lemma status_request_inv:
  assumes "status_request s owner1 owner2 owner3 u" "ser_critical s \<longrightarrow> s_owner s = SERIAL"
  shows "(owner1 = HTTP \<longleftrightarrow> owner2 = HTTP) \<and> (owner2 = HTTP \<longleftrightarrow> owner3 = HTTP)"
  using assms(1)
proof cases
  case (loads ls t ms)
  have "serial_inv (s_owner s = HTTP) s" using assms(2) by (simp add: serial_inv_def)
  with loads(5) have t: "serial_inv (s_owner s = HTTP) t" by (rule serial_side.inv_runs)
  with loads(6) have "serial_inv (s_owner s = HTTP) u" by (rule serial_side.inv_runs)
  with t loads show ?thesis by (auto simp: serial_inv_def)
qed

text \<open>
  Without forced releases, \<open>lock_owner\<close> is the owner at the second load, exactly, although the owner
  is loaded once more to tell which; and the two fields agree when HTTP owned the lock at one of the
  loads.
\<close>

theorem status_owner_exact:
  assumes "reach False s" "status_request s owner1 owner2 owner3 u"
  shows "status_lock_fields owner1 owner2 owner3 =
    [(''daemon_busy'', JBool (owner1 \<noteq> NONE)),
     (''lock_owner'', case owner2 of NONE \<Rightarrow> JNull | HTTP \<Rightarrow> JStr ''HTTP'' | SERIAL \<Rightarrow> JStr ''SERIAL'')]
    \<and> (owner1 = HTTP \<longleftrightarrow> owner2 = HTTP)"
proof -
  have "ser_critical s \<longrightarrow> s_owner s = SERIAL" using sess_inv_reach [OF assms(1)] by (simp add: sess_inv_def)
  from status_request_inv [OF assms(2) this] show ?thesis
    by (auto simp: status_lock_fields_def owner_ops split: Owner.split)
qed

text \<open>
  The two fields need not be of one moment: a line that arrives between the loads is answered with a
  lock that is not busy and owned by \<open>SERIAL\<close>.
\<close>

theorem status_fields_disagree:
  "\<exists>u. status_request sess_start NONE SERIAL SERIAL u
    \<and> status_lock_fields NONE SERIAL SERIAL = [(''daemon_busy'', JBool False), (''lock_owner'', JStr ''SERIAL'')]"
proof -
  let ?t = "sess_start\<lparr>s_owner := SERIAL, s_ser := SRun ''AT+HELP''\<rparr>"
  have "sess_step (SerialLine ''AT+HELP'') sess_start (sess_start\<lparr>s_ser := SRun ''AT+HELP'', s_owner := SERIAL\<rparr>)"
    by (rule sess_step.serial_line) (simp_all add: sess_start_def ser_arrive_def owner_ops)
  then have "serial_step sess_start (SerialLine ''AT+HELP'') ?t" by (simp add: serial_step_def sess_start_def)
  from status_request.loads [OF _ runs_Cons [where step = serial_step, OF this runs_Nil] runs_Nil]
  show ?thesis by (intro exI [of _ ?t]) (simp add: sess_start_def status_lock_fields_def owner_ops)
qed

text \<open>
  With a forced release the name can be wrong: \<open>POST /api/reset\<close> frees the lock under a reader that is
  about to execute \<open>AT+FORCERESET\<close>, a command over HTTP takes it, and the reader frees it between the
  second and the third load: the answer names \<open>SERIAL\<close>, which did not own the lock at any of the
  loads.
\<close>

theorem status_names_wrong_owner:
  "\<exists>s u. reach True s \<and> status_request s HTTP HTTP NONE u
    \<and> status_lock_fields HTTP HTTP NONE = [(''daemon_busy'', JBool True), (''lock_owner'', JStr ''SERIAL'')]"
proof -
  let ?run = "SRun ''AT+FORCERESET''"
  have force: "at_action ''AT+FORCERESET'' = ''FORCERESET''"
    using at_request_reset(1) [of "''FORCERESET''"] by (simp add: at_action_def)
  have cancel: "at_action ''AT+UPLOADCANCEL'' = ''UPLOADCANCEL''"
    using parse_at_join(2) [of "''UPLOADCANCEL''"] by (simp add: at_action_def at_request_def at_trim_id to_upper_def)
  have "reach True (sess_start\<lparr>s_ser := ?run, s_owner := SERIAL\<rparr>)"
    by (rule reach_line [OF reach.start, where line = "''AT+FORCERESET''"])
       (simp_all add: sess_start_def ser_arrive_def owner_ops)
  then have "reach True (sess_start\<lparr>s_ser := ?run\<rparr>)"
    by (rule reach_api_reset) (simp_all add: sess_start_def owner_ops)
  then have "reach True (sess_start\<lparr>s_ser := ?run, s_http := HRun ''AT+UPLOADCANCEL'', s_owner := HTTP\<rparr>)"
    using http_enters [of True "sess_start\<lparr>s_ser := ?run\<rparr>"] by (simp add: sess_start_def)
  then have reach: "reach True (sess_start\<lparr>s_ser := ?run, s_owner := HTTP\<rparr>)" (is "reach True ?s")
    by (rule reach_http) (simp_all add: sess_start_def forces_def cancel)
  let ?u = "sess_start\<lparr>s_ser := SIdle, s_owner := NONE\<rparr>"
  have "sess_step SerialNext ?s (?s\<lparr>s_ser := SIdle, s_owner := NONE\<rparr>)"
    by (rule sess_step.serial_step) (simp_all add: force owner_ops)
  then have "serial_step ?s SerialNext ?u" by (simp add: serial_step_def)
  from status_request.loads [OF _ runs_Nil runs_Cons [where step = serial_step, OF this runs_Nil]]
  have "status_request ?s HTTP HTTP NONE ?u" by (simp add: sess_start_def)
  with reach show ?thesis by (intro exI conjI) (assumption, assumption, simp add: status_lock_fields_def owner_ops)
qed

end
