(* ===== verification/Flash_Steps.thy ===== *)
theory Flash_Steps
  imports Flash_Props AtCommand
begin

text \<open>
  The flash handlers of \<open>src/at_handler/handler_flash.cpp\<close> statement by statement on the one \<open>FlashOp\<close>
  they share with the worker thread, where theory \<open>Flash\<close> has a call of a handler as one step. Every
  load and store of a member is a statement of its own.

  Evaluated without anybody in between, the statements are the handlers of theory \<open>Flash\<close>. Theory
  \<open>Flash_Race\<close> executes them beside the worker and the other command thread.
\<close>

section \<open>The code\<close>

text \<open>
  Where a thread is. In \<open>AT+FLASH\<close>, past the parsing of its argument (lines 131 to 148): \<open>FBusy\<close> loads
  \<open>running\<close>; \<open>FCmd\<close>, \<open>FDoneOff\<close>, \<open>FClear\<close>, \<open>FExitCode\<close> store the command, \<open>done\<close>, the output and the exit
  code; \<open>FThread\<close> starts the thread and assigns it; \<open>FReply\<close> loads the command. In \<open>AT+TRYFLASHDONE\<close>
  (lines 155 to 187): \<open>PRunning\<close>, \<open>PDone\<close>, \<open>PDoneAgain\<close> load the flags; \<open>PElapsed\<close> reads the clock and
  the start time; \<open>PReply\<close> composes the reply RUNNING; \<open>PExit\<close> loads the exit code, \<open>POk\<close> and \<open>PFail\<close>
  compose the result; \<open>PJoinable\<close> tests the thread, \<open>PJoin\<close> waits for it, \<open>PRunningOff\<close> and \<open>PDoneSet\<close>
  store the flags. \<open>FRet\<close>: the call has returned; \<open>FIdle\<close>: the thread is in no flash command.
\<close>

datatype flash_pc = FIdle | FRet string
  | FBusy string | FCmd string | FDoneOff string | FClear string | FExitCode string | FThread string | FReply
  | PRunning | PDone | PDoneAgain | PElapsed | PReply int | PExit | POk | PFail
  | PJoinable flash_wait | PJoin flash_wait | PRunningOff flash_wait | PDoneSet flash_wait

text \<open>
  A statement is executed, or waits (\<open>join\<close> of a thread that has not returned), or ends the process by
  \<open>std::terminate\<close>, or joins a thread that was joined already.
\<close>

datatype flash_stmt_result = Goes flash_pc FlashOp | Blocks | Terminates | JoinsAgain

fun wait_reply :: "flash_wait \<Rightarrow> string" where
  "wait_reply TimeoutJoin = ''TIMEOUT: flash did not complete within '' @ dec_str_int ASYNC_TIMEOUT_SEC @ ''s''"
| "wait_reply (ResultJoin result) = result"

text \<open>One statement, at the time \<open>now\<close> of the clock.\<close>

fun flash_stmt :: "int \<Rightarrow> flash_pc \<Rightarrow> FlashOp \<Rightarrow> flash_stmt_result" where
  "flash_stmt now FIdle op = Blocks"
| "flash_stmt now (FRet r) op = Blocks"
| "flash_stmt now (FBusy cmd) op =
     Goes (if f_running op then FRet ''ERROR: flash already in progress, use AT+TRYFLASHDONE to poll'' else FCmd cmd) op"
| "flash_stmt now (FCmd cmd) op = Goes (FDoneOff cmd) (op\<lparr>f_cmd := cmd\<rparr>)"
| "flash_stmt now (FDoneOff cmd) op = Goes (FClear cmd) (op\<lparr>f_done := False\<rparr>)"
| "flash_stmt now (FClear cmd) op = Goes (FExitCode cmd) (op\<lparr>f_output := []\<rparr>)"
| "flash_stmt now (FExitCode cmd) op = Goes (FThread cmd) (op\<lparr>f_exit_code := - 1\<rparr>)"
| "flash_stmt now (FThread cmd) op =
     (if f_worker op \<noteq> NotJoinable then Terminates else Goes FReply (op\<lparr>f_worker := Active AtRunning\<rparr>))"
| "flash_stmt now FReply op = Goes (FRet (''OK submitted: '' @ f_cmd op)) op"
| "flash_stmt now PRunning op = Goes (if f_running op then PDoneAgain else PDone) op"
| "flash_stmt now PDone op =
     Goes (if f_done op then PDoneAgain else FRet ''ERROR: no pending flash operation'') op"
| "flash_stmt now PDoneAgain op = Goes (if f_done op then PExit else PElapsed) op"
| "flash_stmt now PElapsed op =
     (let elapsed = now - f_start_time op
      in Goes (if ASYNC_TIMEOUT_SEC \<le> elapsed then PJoinable TimeoutJoin else PReply elapsed) op)"
| "flash_stmt now (PReply elapsed) op =
     Goes (FRet (''RUNNING: '' @ f_cmd op @ '' ('' @ dec_str_int elapsed @ ''/'' @ dec_str_int ASYNC_TIMEOUT_SEC @ ''s)'')) op"
| "flash_stmt now PExit op = Goes (if f_exit_code op = 0 then POk else PFail) op"
| "flash_stmt now POk op = Goes (PJoinable (ResultJoin (''OK '' @ f_cmd op @ '' '' @ f_output op))) op"
| "flash_stmt now PFail op =
     Goes (PJoinable (ResultJoin (''ERROR '' @ f_cmd op @ '' failed (exit='' @ dec_str_int (f_exit_code op) @ '') '' @ f_output op))) op"
| "flash_stmt now (PJoinable w) op = Goes (if f_worker op \<noteq> NotJoinable then PJoin w else PRunningOff w) op"
| "flash_stmt now (PJoin w) op =
     (case f_worker op of
        Returned \<Rightarrow> Goes (PRunningOff w) (op\<lparr>f_worker := NotJoinable\<rparr>)
      | NotJoinable \<Rightarrow> JoinsAgain
      | Active pc \<Rightarrow> Blocks)"
| "flash_stmt now (PRunningOff w) op = Goes (PDoneSet w) (op\<lparr>f_running := False\<rparr>)"
| "flash_stmt now (PDoneSet w) op = Goes (FRet (wait_reply w)) (op\<lparr>f_done := (w = TimeoutJoin)\<rparr>)"

text \<open>The first statement of a command line, by the parser and the dispatcher of \<open>AtCommand::process\<close>.\<close>

definition flash_enter :: "Config \<Rightarrow> string \<Rightarrow> flash_pc" where
  "flash_enter cfg line =
     (case at_request line of
        Inl err \<Rightarrow> FIdle
      | Inr (action, arg) \<Rightarrow>
          if action = ''FLASH'' then (case flash_fields cfg arg of Inl err \<Rightarrow> FRet err | Inr cmd \<Rightarrow> FBusy cmd)
          else if action = ''TRYFLASHDONE'' then PRunning
          else FIdle)"

section \<open>The statements are the handlers\<close>

fun flash_stmts :: "int \<Rightarrow> nat \<Rightarrow> flash_pc \<Rightarrow> FlashOp \<Rightarrow> flash_stmt_result" where
  "flash_stmts now 0 pc op = Goes pc op"
| "flash_stmts now (Suc n) pc op =
     (case flash_stmt now pc op of Goes pc op \<Rightarrow> flash_stmts now n pc op | res \<Rightarrow> res)"

text \<open>
  What \<open>AT+FLASH\<close> and \<open>AT+TRYFLASHDONE\<close> come to when nobody else runs. A call that has to wait is
  resumed once the worker can be joined.
\<close>

lemma submit_statements:
  assumes "flash_fields cfg arg = Inr cmd"
  shows "handle_flash cfg arg op = Reply r op' \<Longrightarrow> \<exists>n. flash_stmts now n (FBusy cmd) op = Goes (FRet r) op'"
    and "handle_flash cfg arg op = Terminate \<Longrightarrow> \<exists>n. flash_stmts now n (FBusy cmd) op = Terminates"
proof -
  assume r: "handle_flash cfg arg op = Reply r op'"
  show "\<exists>n. flash_stmts now n (FBusy cmd) op = Goes (FRet r) op'"
  proof (cases "f_running op")
    case True
    with r assms show ?thesis by (intro exI [of _ 1]) (auto simp: handle_flash_def)
  next
    case False
    with r assms show ?thesis by (intro exI [of _ 7]) (auto simp: handle_flash_def Let_def eval_nat_numeral split: if_splits)
  qed
next
  assume "handle_flash cfg arg op = Terminate"
  with assms show "\<exists>n. flash_stmts now n (FBusy cmd) op = Terminates"
    by (intro exI [of _ 6]) (auto simp: handle_flash_def Let_def eval_nat_numeral split: if_splits)
qed

lemma joined_statements:
  assumes "can_join op" "flashdone_joined w op = (r, op')"
  shows "\<exists>n. flash_stmts now n (PJoinable w) op = Goes (FRet r) op'"
proof (cases "f_worker op = NotJoinable")
  case True
  with assms show ?thesis
    by (intro exI [of _ 3]) (auto simp: eval_nat_numeral flashdone_joined_def cancel_joined_def split: flash_wait.splits)
next
  case False
  with assms show ?thesis
    by (intro exI [of _ 4])
       (auto simp: can_join_def eval_nat_numeral flashdone_joined_def cancel_joined_def split: flash_wait.splits)
qed

lemma poll_flags:
  assumes "f_running op \<or> f_done op"
  shows "\<exists>n. \<forall>m. flash_stmts now (n + m) PRunning op = flash_stmts now m PDoneAgain op"
proof (cases "f_running op")
  case True
  then show ?thesis by (intro exI [of _ 1]) simp
next
  case False
  with assms show ?thesis by (intro exI [of _ 2]) (simp add: eval_nat_numeral)
qed

lemma poll_statements:
  shows "handle_flashdone now op = Reply r op' \<Longrightarrow> \<exists>n. flash_stmts now n PRunning op = Goes (FRet r) op'"
    and "handle_flashdone now op = Wait w op' \<Longrightarrow> \<exists>n. flash_stmts now n PRunning op = Goes (PJoinable w) op'"
proof -
  assume r: "handle_flashdone now op = Reply r op'"
  show "\<exists>n. flash_stmts now n PRunning op = Goes (FRet r) op'"
  proof (cases "f_running op \<or> f_done op")
    case True
    then obtain k where "flash_stmts now (k + 3) PRunning op = flash_stmts now 3 PDoneAgain op" using poll_flags by blast
    with True r show ?thesis
      by (intro exI [of _ "k + 3"]) (auto simp: numeral_3_eq_3 handle_flashdone_def Let_def split: if_splits)
  next
    case False
    with r show ?thesis by (intro exI [of _ 2]) (auto simp: eval_nat_numeral handle_flashdone_def)
  qed
next
  assume w: "handle_flashdone now op = Wait w op'"
  then have "f_running op \<or> f_done op" by (auto simp: handle_flashdone_def split: if_splits)
  then obtain k where k: "\<And>m. flash_stmts now (k + m) PRunning op = flash_stmts now m PDoneAgain op"
    using poll_flags by blast
  show "\<exists>n. flash_stmts now n PRunning op = Goes (PJoinable w) op'"
  proof (cases "f_done op")
    case True
    with w k [of 3] show ?thesis
      by (intro exI [of _ "k + 3"]) (auto simp: numeral_3_eq_3 handle_flashdone_def flash_result_text_def split: if_splits)
  next
    case False
    with w k [of 2] show ?thesis
      by (intro exI [of _ "k + 2"]) (auto simp: numeral_2_eq_2 handle_flashdone_def Let_def split: if_splits)
  qed
qed

text \<open>The command processor of theory \<open>AtCommand\<close> runs these handlers for these lines, and leaves the
  \<open>FlashOp\<close> alone for all others.\<close>

lemma flash_enter_process:
  "flash_enter cfg line = PRunning \<Longrightarrow> process env cfg line caller d = with_flash d (handle_flashdone (e_now env) (d_flash d))"
  "flash_enter cfg line = FRet r \<Longrightarrow> process env cfg line caller d = Replies r d"
  by (auto simp: flash_enter_def process_def run_action_simps with_flash_def handle_flash_def
      split: sum.splits if_splits)

lemma flash_enter_submit:
  assumes "flash_enter cfg line = FBusy cmd"
  shows "\<exists>arg. flash_fields cfg arg = Inr cmd
     \<and> process env cfg line caller d = with_flash d (handle_flash cfg arg (d_flash d))"
proof -
  obtain arg where "at_request line = Inr (''FLASH'', arg)" "flash_fields cfg arg = Inr cmd"
    using assms by (auto simp: flash_enter_def split: sum.splits if_splits)
  then show ?thesis by (auto simp: process_def run_action_simps)
qed

lemma flash_enter_cases:
  "flash_enter cfg line = FIdle \<or> (\<exists>r. flash_enter cfg line = FRet r)
     \<or> (\<exists>cmd. flash_enter cfg line = FBusy cmd) \<or> flash_enter cfg line = PRunning"
  by (auto simp: flash_enter_def split: sum.split)

lemma flash_enter_idle:
  "flash_enter cfg line = FIdle \<Longrightarrow> process env cfg line caller d = Replies r d' \<Longrightarrow> d_flash d' = d_flash d"
  using process_action [of env cfg line caller d r d', OF _ refl]
  by (auto simp: flash_enter_def process_def at_action_def run_action_def with_upload_def with_owner_def
      split: sum.splits if_splits prod.splits)

end
