(* ===== verification/Flash_Threads.thy ===== *)
theory Flash_Threads
  imports Flash_Steps Lock_Spec
begin

text \<open>
  The HTTP thread, the serial reader and the flash worker on the one \<open>FlashOp\<close>: the two command threads
  come to the flash handlers as the session lock lets them (theory \<open>Session\<close>) and execute them
  statement by statement (theory \<open>Flash_Steps\<close>), and the worker (\<open>worker_step\<close> of theory \<open>Flash\<close>) runs
  beside them. Here are the system, its invariant in a run without forced releases, and concrete runs;
  theories \<open>Flash_Linear\<close> and \<open>Flash_Race\<close> show what follows.
\<close>

section \<open>The three threads\<close>

datatype fate = Alive | TerminateCalled | JoinedTwice

record flash_sys =
  fx_sess :: sess
  fx_op :: FlashOp
  fx_at :: "Owner \<Rightarrow> flash_pc"
  fx_fate :: fate

definition flash_sys_start :: flash_sys where
  "flash_sys_start = \<lparr>fx_sess = sess_start, fx_op = FlashOp_new, fx_at = (\<lambda>_. FIdle), fx_fate = Alive\<rparr>"

fun at_rest :: "flash_pc \<Rightarrow> bool" where
  "at_rest FIdle \<longleftrightarrow> True"
| "at_rest (FRet r) \<longleftrightarrow> True"
| "at_rest pc \<longleftrightarrow> False"

text \<open>The side a step at the lock moves, and the command that side is inside of.\<close>

definition moves :: "sess_label \<Rightarrow> Owner \<Rightarrow> bool" where
  "moves l w \<longleftrightarrow> (w = HTTP \<and> http_label l) \<or> (w = SERIAL \<and> ser_label l)"

fun command_of :: "Owner \<Rightarrow> sess \<Rightarrow> string option" where
  "command_of HTTP s = http_command (s_http s)"
| "command_of SERIAL s = ser_command (s_ser s)"
| "command_of NONE s = None"

definition enters :: "Config \<Rightarrow> Owner \<Rightarrow> sess \<Rightarrow> flash_pc" where
  "enters cfg w s = (case command_of w s of None \<Rightarrow> FIdle | Some line \<Rightarrow> flash_enter cfg line)"

datatype flash_sys_label = AtSession sess_label | Statement Owner int | Works worker_event

inductive flash_sys_step :: "Config \<Rightarrow> flash_sys \<Rightarrow> flash_sys_label \<Rightarrow> flash_sys \<Rightarrow> bool" for cfg :: Config where
  at_session: "fx_fate x = Alive \<Longrightarrow> sess_step l (fx_sess x) s \<Longrightarrow> (\<forall>w. moves l w \<longrightarrow> at_rest (fx_at x w)) \<Longrightarrow>
     flash_sys_step cfg x (AtSession l)
       (x\<lparr>fx_sess := s, fx_at := (\<lambda>w. if moves l w then enters cfg w s else fx_at x w)\<rparr>)"
| statement: "fx_fate x = Alive \<Longrightarrow> flash_stmt now (fx_at x w) (fx_op x) = Goes pc op \<Longrightarrow>
     flash_sys_step cfg x (Statement w now) (x\<lparr>fx_op := op, fx_at := (fx_at x)(w := pc)\<rparr>)"
| terminates: "fx_fate x = Alive \<Longrightarrow> flash_stmt now (fx_at x w) (fx_op x) = Terminates \<Longrightarrow>
     flash_sys_step cfg x (Statement w now) (x\<lparr>fx_fate := TerminateCalled\<rparr>)"
| joins_again: "fx_fate x = Alive \<Longrightarrow> flash_stmt now (fx_at x w) (fx_op x) = JoinsAgain \<Longrightarrow>
     flash_sys_step cfg x (Statement w now) (x\<lparr>fx_fate := JoinedTwice\<rparr>)"
| works: "fx_fate x = Alive \<Longrightarrow> worker_step e (fx_op x) = Some op \<Longrightarrow>
     flash_sys_step cfg x (Works e) (x\<lparr>fx_op := op\<rparr>)"

inductive_cases flash_sys_stepE: "flash_sys_step cfg x l y"

text \<open>The steps without a forced release.\<close>

definition unforced_flash :: "Config \<Rightarrow> flash_sys \<Rightarrow> flash_sys_label \<Rightarrow> flash_sys \<Rightarrow> bool" where
  "unforced_flash cfg x l y \<longleftrightarrow> flash_sys_step cfg x l y \<and> (\<forall>k. l = AtSession k \<longrightarrow> \<not> forces k (fx_sess x))"

section \<open>The invariant\<close>

text \<open>The side is processing a command that needs the lock.\<close>

fun critical :: "Owner \<Rightarrow> sess \<Rightarrow> bool" where
  "critical HTTP s = http_critical s"
| "critical SERIAL s = ser_critical s"
| "critical NONE s = False"

lemma critical_one: "sess_inv s \<Longrightarrow> critical v s \<Longrightarrow> critical w s \<Longrightarrow> v = w"
  by (cases v; cases w) (auto simp: sess_inv_def)

lemma command_run:
  "http_command hpc = Some line \<longleftrightarrow> hpc = HRun line" "ser_command spc = Some line \<longleftrightarrow> spc = SRun line"
  by (cases hpc; simp) (cases spc; simp)

lemma enters_critical:
  assumes "\<not> at_rest (enters cfg w s)"
  shows "critical w s"
proof -
  obtain line where l: "command_of w s = Some line" "\<not> at_rest (flash_enter cfg line)"
    using assms by (cases "command_of w s") (simp_all add: enters_def)
  have "\<not> bypass_lock line"
  proof
    assume "bypass_lock line"
    from bypass_only_resets [OF this] have "flash_enter cfg line = FIdle" by (auto simp: flash_enter_def)
    with l(2) show False by simp
  qed
  with l(1) show ?thesis
    by (cases w) (auto simp: command_run http_critical_def ser_critical_def)
qed

lemma moved_critical:
  assumes "sess_step l s t" "\<not> moves l w"
  shows "critical w t = critical w s"
proof (cases w)
  case HTTP
  then have "\<not> http_label l" using assms(2) by (simp add: moves_def)
  then have "s_http t = s_http s" using sess_step_ser [OF assms(1)] sess_step_other [OF assms(1)] by blast
  from HTTP critical_cong(1) [OF this] show ?thesis by simp
next
  case SERIAL
  then have "\<not> ser_label l" using assms(2) by (simp add: moves_def)
  then have "s_ser t = s_ser s" using sess_step_http [OF assms(1)] sess_step_other [OF assms(1)] by blast
  from SERIAL critical_cong(2) [OF this] show ?thesis by simp
qed simp

text \<open>
  What is known of the \<open>FlashOp\<close> while a thread is at a statement and the other is not in a flash
  command. Past \<open>FBusy\<close> either no thread is held, so that no worker runs, or the call will end the process.
\<close>

fun pc_inv :: "flash_pc \<Rightarrow> FlashOp \<Rightarrow> bool" where
  "pc_inv (FCmd cmd) op \<longleftrightarrow> f_worker op = NotJoinable \<longrightarrow> \<not> f_running op"
| "pc_inv (FDoneOff cmd) op \<longleftrightarrow> f_worker op = NotJoinable \<longrightarrow> \<not> f_running op \<and> f_cmd op = cmd"
| "pc_inv (FClear cmd) op \<longleftrightarrow> f_worker op = NotJoinable \<longrightarrow> \<not> f_running op \<and> f_cmd op = cmd \<and> \<not> f_done op"
| "pc_inv (FExitCode cmd) op \<longleftrightarrow>
     f_worker op = NotJoinable \<longrightarrow> \<not> f_running op \<and> f_cmd op = cmd \<and> \<not> f_done op \<and> f_output op = []"
| "pc_inv (FThread cmd) op \<longleftrightarrow>
     f_worker op = NotJoinable \<longrightarrow> \<not> f_running op \<and> f_cmd op = cmd \<and> \<not> f_done op \<and> f_output op = [] \<and> f_exit_code op = - 1"
| "pc_inv PDoneAgain op \<longleftrightarrow> flash_inv op \<and> (f_done op \<or> f_worker op \<notin> {NotJoinable, Active AtRunning})"
| "pc_inv PElapsed op \<longleftrightarrow> flash_inv op \<and> f_worker op \<notin> {NotJoinable, Active AtRunning}"
| "pc_inv (PReply elapsed) op \<longleftrightarrow> flash_inv op"
| "pc_inv PExit op \<longleftrightarrow> flash_inv op \<and> f_done op"
| "pc_inv POk op \<longleftrightarrow> flash_inv op \<and> f_done op \<and> f_exit_code op = 0"
| "pc_inv PFail op \<longleftrightarrow> flash_inv op \<and> f_done op \<and> f_exit_code op \<noteq> 0"
| "pc_inv (PJoinable w) op \<longleftrightarrow> flash_inv op \<and> wait_inv w op"
| "pc_inv (PJoin w) op \<longleftrightarrow> flash_inv op \<and> wait_inv w op \<and> f_worker op \<noteq> NotJoinable"
| "pc_inv (PRunningOff w) op \<longleftrightarrow> f_worker op = NotJoinable"
| "pc_inv (PDoneSet w) op \<longleftrightarrow> f_worker op = NotJoinable \<and> \<not> f_running op"
| "pc_inv pc op \<longleftrightarrow> flash_inv op"

definition flash_sys_inv :: "flash_sys \<Rightarrow> bool" where
  "flash_sys_inv x \<longleftrightarrow> sess_inv (fx_sess x) \<and> fx_fate x \<noteq> JoinedTwice
     \<and> (\<forall>w. \<not> at_rest (fx_at x w) \<longrightarrow> critical w (fx_sess x))
     \<and> (\<exists>w. (\<forall>v. v \<noteq> w \<longrightarrow> at_rest (fx_at x v)) \<and> pc_inv (fx_at x w) (fx_op x))"

lemma pc_inv_rest: "at_rest pc \<Longrightarrow> pc_inv pc op = flash_inv op"
  by (cases pc) auto

lemma pc_inv_enters: "flash_inv op \<Longrightarrow> pc_inv (enters cfg w s) op"
  using flash_enter_cases [of cfg "the (command_of w s)"] by (cases "command_of w s") (auto simp: enters_def)

text \<open>Whoever is at a statement, \<open>pc_inv\<close> is about him.\<close>

lemma flash_sys_inv_at:
  assumes "flash_sys_inv x" "\<not> at_rest (fx_at x w)"
  shows "pc_inv (fx_at x w) (fx_op x)" "v \<noteq> w \<Longrightarrow> at_rest (fx_at x v)"
proof -
  obtain u where u: "\<forall>v. v \<noteq> u \<longrightarrow> at_rest (fx_at x v)" "pc_inv (fx_at x u) (fx_op x)"
    using assms(1) by (auto simp: flash_sys_inv_def)
  with assms(2) have "u = w" by auto
  with u show "pc_inv (fx_at x w) (fx_op x)" "v \<noteq> w \<Longrightarrow> at_rest (fx_at x v)" by auto
qed

lemma pc_inv_stmt: "flash_stmt now pc op = Goes pc' op' \<Longrightarrow> pc_inv pc op \<Longrightarrow> pc_inv pc' op'"
  by (induction now pc op rule: flash_stmt.induct)
     (auto simp: flash_inv_def wait_inv_poll flash_result_text_def Let_def split: if_splits worker.splits)

text \<open>The worker's steps.\<close>

lemma worker_step_handle:
  "worker_step e op = Some op' \<Longrightarrow> f_worker op \<noteq> NotJoinable \<and> f_worker op' \<noteq> NotJoinable \<and> f_worker op \<noteq> Returned"
proof -
  assume s: "worker_step e op = Some op'"
  obtain pc where "f_worker op = Active pc" using s by (rule worker_step_cases)
  then show ?thesis using s by (cases pc; cases e) auto
qed

text \<open>What a step of the worker leaves as it is, if it is coupled to the flags.\<close>

lemma worker_step_frame:
  assumes "worker_step e op = Some op'" "flash_inv op"
  shows "f_cmd op' = f_cmd op" "f_done op \<Longrightarrow> f_done op' \<and> f_exit_code op' = f_exit_code op \<and> f_output op' = f_output op"
    "f_worker op' \<noteq> Active AtRunning"
    "f_start_time op' = f_start_time op \<or> f_running op' \<and> \<not> f_done op'"
proof -
  obtain pc where "f_worker op = Active pc" using assms(1) by (rule worker_step_cases)
  then show "f_cmd op' = f_cmd op" "f_done op \<Longrightarrow> f_done op' \<and> f_exit_code op' = f_exit_code op \<and> f_output op' = f_output op"
    "f_worker op' \<noteq> Active AtRunning" "f_start_time op' = f_start_time op \<or> f_running op' \<and> \<not> f_done op'"
    using assms by (cases pc; cases e; auto simp: flash_inv_def)+
qed

lemma pc_inv_work:
  assumes "worker_step e op = Some op'" "pc_inv pc op"
  shows "pc_inv pc op'"
proof -
  have f: "flash_inv op'" if "flash_inv op" using flash_inv_work [OF assms(1) that] .
  note h = worker_step_handle [OF assms(1)]
  show ?thesis
  proof (cases "flash_inv op")
    case True
    with assms(2) f [OF True] h worker_step_frame [OF assms(1) True] wait_inv_work [OF assms(1) True] show ?thesis
      by (cases pc) auto
  next
    case False
    with assms(2) h show ?thesis by (cases pc) auto
  qed
qed

lemma flash_sys_inv_start: "flash_sys_inv flash_sys_start"
  by (simp add: flash_sys_inv_def flash_sys_start_def sess_inv_start flash_inv_new)

text \<open>No call joins a thread that was joined before.\<close>

lemma pc_inv_joins: "pc_inv pc op \<Longrightarrow> flash_stmt now pc op \<noteq> JoinsAgain"
  by (cases pc) (auto simp: Let_def split: worker.splits)

lemma flash_stmt_rest: "at_rest pc \<Longrightarrow> flash_stmt now pc op = Blocks"
  by (cases pc) auto

lemma flash_sys_inv_lock:
  assumes "flash_sys_inv x" "sess_step k (fx_sess x) s" "sess_inv s" "\<forall>w. moves k w \<longrightarrow> at_rest (fx_at x w)"
  shows "flash_sys_inv (x\<lparr>fx_sess := s, fx_at := (\<lambda>w. if moves k w then enters cfg w s else fx_at x w)\<rparr>)" (is "flash_sys_inv ?y")
proof -
  note at = flash_sys_inv_at [OF assms(1)]
  have crit: "critical w s" if "\<not> at_rest (fx_at ?y w)" for w
    using that enters_critical [of cfg w s] moved_critical [OF assms(2), of w] assms(1)
    by (auto simp: flash_sys_inv_def split: if_splits)
  have "\<exists>w. (\<forall>v. v \<noteq> w \<longrightarrow> at_rest (fx_at ?y v)) \<and> pc_inv (fx_at ?y w) (fx_op ?y)"
  proof (cases "\<exists>w. \<not> at_rest (fx_at x w)")
    case True
    then obtain w where w: "\<not> at_rest (fx_at x w)" by blast
    then have nm: "\<not> moves k w" using assms(4) by blast
    have "at_rest (fx_at ?y v)" if "v \<noteq> w" for v
      using crit [of v] crit [of w] critical_one [OF assms(3), of v w] w nm that by fastforce
    with at(1) [OF w] nm show ?thesis by (intro exI [of _ w]) simp
  next
    case False
    then have op: "flash_inv (fx_op x)" using assms(1) pc_inv_rest by (auto simp: flash_sys_inv_def)
    have "\<exists>w. \<forall>v. v \<noteq> w \<longrightarrow> at_rest (fx_at ?y v)"
      using crit critical_one [OF assms(3)] by blast
    then obtain w where w: "\<forall>v. v \<noteq> w \<longrightarrow> at_rest (fx_at ?y v)" by blast
    have "pc_inv (fx_at ?y w) (fx_op ?y)"
      using op False pc_inv_enters [OF op] pc_inv_rest by simp
    with w show ?thesis by blast
  qed
  with assms(1,3) crit show ?thesis by (auto simp: flash_sys_inv_def)
qed

lemma flash_sys_inv_step:
  assumes "unforced_flash cfg x l y" "flash_sys_inv x"
  shows "flash_sys_inv y"
proof -
  have st: "flash_sys_step cfg x l y" and nf: "l = AtSession k \<Longrightarrow> \<not> forces k (fx_sess x)" for k
    using assms(1) by (simp_all add: unforced_flash_def)
  note at = flash_sys_inv_at [OF assms(2)]
  from st show ?thesis
  proof cases
    case (at_session k s)
    have "sess_inv s"
      using sess_inv_step [OF at_session(4)] nf [OF at_session(1)] assms(2) by (simp add: flash_sys_inv_def)
    with flash_sys_inv_lock [OF assms(2) at_session(4)] at_session(2,5) show ?thesis by blast
  next
    case (statement now w pc op)
    have w: "\<not> at_rest (fx_at x w)" using statement(4) flash_stmt_rest by fastforce
    have "pc_inv pc op" using pc_inv_stmt [OF statement(4) at(1) [OF w]] .
    moreover have "critical w (fx_sess x)" using w assms(2) by (simp add: flash_sys_inv_def)
    ultimately show ?thesis
      using assms(2) at(2) [OF w] unfolding flash_sys_inv_def statement(2)
      by (intro conjI exI [of _ w]) (auto simp: flash_sys_inv_def)
  next
    case (terminates now w)
    then show ?thesis using assms(2) by (simp add: flash_sys_inv_def)
  next
    case (joins_again now w)
    have w: "\<not> at_rest (fx_at x w)" using joins_again(4) flash_stmt_rest by fastforce
    from pc_inv_joins [OF at(1) [OF w]] joins_again(4) show ?thesis by simp
  next
    case (works e op)
    obtain w where "\<forall>v. v \<noteq> w \<longrightarrow> at_rest (fx_at x v)" "pc_inv (fx_at x w) (fx_op x)"
      using assms(2) by (auto simp: flash_sys_inv_def)
    with pc_inv_work [OF works(4)] assms(2) show ?thesis by (auto simp: flash_sys_inv_def works(2))
  qed
qed

interpretation flash_threads: step_invariant "unforced_flash cfg" flash_sys_inv for cfg
  by unfold_locales (rule flash_sys_inv_step)

lemmas flash_sys_inv_runs = flash_threads.inv_runs [OF _ flash_sys_inv_start]

section \<open>Concrete runs\<close>

lemma unforced_flashI:
  "flash_sys_step cfg x l y \<Longrightarrow> (\<And>k. l = AtSession k \<Longrightarrow> \<not> forces k (fx_sess x)) \<Longrightarrow> unforced_flash cfg x l y"
  by (simp add: unforced_flash_def)

text \<open>A side executes some statements, the worker some events.\<close>

lemma stmts_run:
  assumes "flash_stmts now n (fx_at x w) (fx_op x) = Goes pc op" "fx_fate x = Alive"
  shows "runs (unforced_flash cfg) x (replicate n (Statement w now)) (x\<lparr>fx_op := op, fx_at := (fx_at x)(w := pc)\<rparr>)"
  using assms
proof (induction n arbitrary: x)
  case 0
  then have x: "x\<lparr>fx_op := op, fx_at := (fx_at x)(w := pc)\<rparr> = x" by (cases x) auto
  show ?case unfolding x by (simp add: runs_Nil)
next
  case (Suc n)
  obtain pc' op' where s: "flash_stmt now (fx_at x w) (fx_op x) = Goes pc' op'" "flash_stmts now n pc' op' = Goes pc op"
    using Suc.prems(1) by (auto split: flash_stmt_result.splits)
  let ?y = "x\<lparr>fx_op := op', fx_at := (fx_at x)(w := pc')\<rparr>"
  have 1: "unforced_flash cfg x (Statement w now) ?y"
    by (rule unforced_flashI [OF statement [OF Suc.prems(2) s(1)]]) simp
  have "runs (unforced_flash cfg) ?y (replicate n (Statement w now)) (?y\<lparr>fx_op := op, fx_at := (fx_at ?y)(w := pc)\<rparr>)"
    by (rule Suc.IH) (simp_all add: s(2) Suc.prems(2))
  moreover have "?y\<lparr>fx_op := op, fx_at := (fx_at ?y)(w := pc)\<rparr> = x\<lparr>fx_op := op, fx_at := (fx_at x)(w := pc)\<rparr>" by simp
  ultimately show ?case using runs_Cons [where step = "unforced_flash cfg", OF 1] by (metis replicate_Suc)
qed

fun worker_steps :: "worker_event list \<Rightarrow> FlashOp \<Rightarrow> FlashOp option" where
  "worker_steps [] op = Some op"
| "worker_steps (e # es) op = (case worker_step e op of None \<Rightarrow> None | Some op \<Rightarrow> worker_steps es op)"

lemma works_run:
  assumes "worker_steps es (fx_op x) = Some op" "fx_fate x = Alive"
  shows "runs (unforced_flash cfg) x (map Works es) (x\<lparr>fx_op := op\<rparr>)"
  using assms
proof (induction es arbitrary: x)
  case Nil
  then have "x\<lparr>fx_op := op\<rparr> = x" by (cases x) auto
  then show ?case by (simp add: runs_Nil)
next
  case (Cons e es)
  obtain q where s: "worker_step e (fx_op x) = Some q" "worker_steps es q = Some op"
    using Cons.prems(1) by (simp del: worker_step.simps split: option.splits)
  have 1: "unforced_flash cfg x (Works e) (x\<lparr>fx_op := q\<rparr>)"
    by (rule unforced_flashI [OF works [OF Cons.prems(2) s(1)]]) simp
  have "runs (unforced_flash cfg) (x\<lparr>fx_op := q\<rparr>) (map Works es) ((x\<lparr>fx_op := q\<rparr>)\<lparr>fx_op := op\<rparr>)"
    by (rule Cons.IH) (simp_all add: s(2) Cons.prems(2))
  with runs_Cons [where step = "unforced_flash cfg", OF 1] show ?case by simp
qed

lemma lock_step:
  assumes "sess_step l (fx_sess x) s" "fx_fate x = Alive" "\<forall>w. moves l w \<longrightarrow> at_rest (fx_at x w)"
    and "y = x\<lparr>fx_sess := s, fx_at := (\<lambda>w. if moves l w then enters cfg w s else fx_at x w)\<rparr>"
  shows "flash_sys_step cfg x (AtSession l) y"
  unfolding assms(4) by (rule at_session) (fact assms)+

text \<open>The serial side owns the lock or nobody does, and no command is executed.\<close>

definition serial_ready :: "FlashOp \<Rightarrow> flash_sys \<Rightarrow> bool" where
  "serial_ready op x \<longleftrightarrow> fx_sess x \<in> {sess_start, sess_start\<lparr>s_owner := SERIAL\<rparr>} \<and> fx_op x = op
     \<and> fx_at x = (\<lambda>_. FIdle) \<and> fx_fate x = Alive"

definition serial_at :: "string \<Rightarrow> flash_pc \<Rightarrow> FlashOp \<Rightarrow> flash_sys" where
  "serial_at line pc op = \<lparr>fx_sess = sess_start\<lparr>s_owner := SERIAL, s_ser := SRun line\<rparr>, fx_op = op,
     fx_at = (\<lambda>_. FIdle)(SERIAL := pc), fx_fate = Alive\<rparr>"

lemma serial_ready_start: "serial_ready FlashOp_new flash_sys_start"
  by (simp add: serial_ready_def flash_sys_start_def)

lemma moves_serial: "moves (SerialLine line) w \<longleftrightarrow> w = SERIAL" "moves SerialNext w \<longleftrightarrow> w = SERIAL"
  by (auto simp: moves_def)

lemma serial_goes:
  assumes "sess_step l (fx_sess z) (sess_start\<lparr>s_owner := SERIAL, s_ser := SRun line\<rparr>)" "fx_at z = (\<lambda>_. FIdle)"
    "fx_fate z = Alive" "fx_op z = op" "\<forall>w. moves l w \<longleftrightarrow> w = SERIAL"
  shows "flash_sys_step cfg z (AtSession l) (serial_at line (flash_enter cfg line) op)"
  by (rule lock_step [OF assms(1)]) (use assms in \<open>auto simp: serial_at_def enters_def fun_eq_iff\<close>)

text \<open>The serial side finds the lock its own, and then enters its command.\<close>

lemma serial_denied_enters:
  assumes "fx_sess x = sess_start\<lparr>s_owner := SERIAL\<rparr>" "fx_at x = (\<lambda>_. FIdle)" "fx_fate x = Alive" "fx_op x = op"
  shows "runs (unforced_flash cfg) x [AtSession (SerialLine line), AtSession SerialNext] (serial_at line (flash_enter cfg line) op)"
proof -
  let ?x0 = "x\<lparr>fx_sess := sess_start\<lparr>s_owner := SERIAL, s_ser := SDenied line\<rparr>\<rparr>"
  have d: "sess_step (SerialLine line) (fx_sess x) ((fx_sess x)\<lparr>s_ser := SDenied line, s_owner := SERIAL\<rparr>)"
    unfolding assms(1) by (rule sess_step.serial_line) (simp_all add: sess_start_def ser_arrive_def owner_ops)
  have "flash_sys_step cfg x (AtSession (SerialLine line)) ?x0"
    by (rule lock_step [OF d]) (auto simp: assms moves_serial enters_def fun_eq_iff)
  then have 1: "unforced_flash cfg x (AtSession (SerialLine line)) ?x0" by (rule unforced_flashI) (simp add: forces_def)
  have "sess_step SerialNext (fx_sess ?x0) ((fx_sess ?x0)\<lparr>s_ser := SRun line, s_owner := SERIAL\<rparr>)"
    by (rule sess_step.serial_step) simp_all
  then have "flash_sys_step cfg ?x0 (AtSession SerialNext) (serial_at line (flash_enter cfg line) op)"
    by (intro serial_goes) (simp_all add: assms moves_serial sess_start_def)
  then have "unforced_flash cfg ?x0 (AtSession SerialNext) (serial_at line (flash_enter cfg line) op)"
    by (rule unforced_flashI) (simp add: forces_def sess_start_def)
  from runs_2 [where step = "unforced_flash cfg", OF 1 this] show ?thesis .
qed

lemma serial_line_enters:
  assumes "serial_ready op x"
  shows "\<exists>ls. runs (unforced_flash cfg) x ls (serial_at line (flash_enter cfg line) op)"
proof -
  let ?y = "serial_at line (flash_enter cfg line) op"
  have at: "fx_at x = (\<lambda>_. FIdle)" "fx_fate x = Alive" "fx_op x = op" using assms by (simp_all add: serial_ready_def)
  from assms have "fx_sess x = sess_start \<or> fx_sess x = sess_start\<lparr>s_owner := SERIAL\<rparr>" by (simp add: serial_ready_def)
  then show ?thesis
  proof
    assume s: "fx_sess x = sess_start"
    have "sess_step (SerialLine line) (fx_sess x) (sess_start\<lparr>s_ser := SRun line, s_owner := SERIAL\<rparr>)"
      unfolding s by (rule sess_step.serial_line) (simp_all add: sess_start_def ser_arrive_def owner_ops)
    then have "flash_sys_step cfg x (AtSession (SerialLine line)) ?y"
      by (intro serial_goes) (simp_all add: at moves_serial sess_start_def)
    then have "unforced_flash cfg x (AtSession (SerialLine line)) ?y" by (rule unforced_flashI) (simp add: forces_def)
    from runs_1 [where step = "unforced_flash cfg", OF this] show ?thesis by blast
  next
    assume s: "fx_sess x = sess_start\<lparr>s_owner := SERIAL\<rparr>"
    from serial_denied_enters [OF this at] show ?thesis by blast
  qed
qed

lemma flash_enter_action:
  "flash_enter cfg line \<noteq> FIdle \<Longrightarrow> at_action line \<noteq> ''RESET'' \<and> at_action line \<noteq> ''FORCERESET''"
  by (auto simp: flash_enter_def at_action_def split: sum.splits)

text \<open>A line of the serial side, executed to its reply.\<close>

lemma serial_line_runs:
  assumes "serial_ready op x" "flash_enter cfg line \<noteq> FIdle"
    and "flash_stmts now n (flash_enter cfg line) op = Goes (FRet r) op'"
  shows "\<exists>ls y. runs (unforced_flash cfg) x ls y \<and> serial_ready op' y \<and> fx_sess y = sess_start\<lparr>s_owner := SERIAL\<rparr>"
proof -
  let ?x1 = "serial_at line (flash_enter cfg line) op" and ?x2 = "serial_at line (FRet r) op'"
  let ?y = "?x2\<lparr>fx_sess := sess_start\<lparr>s_owner := SERIAL\<rparr>, fx_at := (\<lambda>_. FIdle)\<rparr>"
  obtain ls where ls: "runs (unforced_flash cfg) x ls ?x1" using serial_line_enters [OF assms(1)] by blast
  have x2: "?x1\<lparr>fx_op := op', fx_at := (fx_at ?x1)(SERIAL := FRet r)\<rparr> = ?x2" by (simp add: serial_at_def)
  have n: "runs (unforced_flash cfg) ?x1 (replicate n (Statement SERIAL now)) ?x2"
    unfolding x2 [symmetric] by (rule stmts_run) (simp_all add: assms(3) serial_at_def)
  have "sess_step SerialNext (fx_sess ?x2) ((fx_sess ?x2)\<lparr>s_ser := SIdle, s_owner := SERIAL\<rparr>)"
    by (rule sess_step.serial_step) (simp_all add: serial_at_def flash_enter_action [OF assms(2)])
  then have "flash_sys_step cfg ?x2 (AtSession SerialNext) ?y"
    by (rule lock_step) (auto simp: serial_at_def moves_serial enters_def sess_start_def fun_eq_iff)
  then have "unforced_flash cfg ?x2 (AtSession SerialNext) ?y"
    by (rule unforced_flashI) (simp add: forces_def serial_at_def flash_enter_action [OF assms(2)])
  from runs_append [OF ls runs_snoc [where step = "unforced_flash cfg", OF n this]]
  show ?thesis by (intro exI conjI) (assumption, simp_all add: serial_ready_def serial_at_def)
qed

lemma serial_ready_works:
  assumes "serial_ready op x" "worker_steps es op = Some op'"
  shows "\<exists>y. runs (unforced_flash cfg) x (map Works es) y \<and> serial_ready op' y \<and> fx_sess y = fx_sess x"
proof -
  have "worker_steps es (fx_op x) = Some op'" "fx_fate x = Alive" using assms by (simp_all add: serial_ready_def)
  from works_run [OF this] assms(1) show ?thesis by (intro exI conjI) (assumption, simp_all add: serial_ready_def)
qed

text \<open>A flash of the serial side: submitted, and its worker some events further.\<close>

lemma enter_lines:
  "flash_enter Config_default ''AT+FLASH=fw'' = FBusy ''/sbin/flash_full.sh fw''"
  "flash_enter cfg ''AT+TRYFLASHDONE'' = PRunning"
proof -
  have "at_request (''AT+'' @ ''FLASH'' @ CHR ''='' # ''fw'' @ []) = Inr (map to_upper ''FLASH'', ''fw'')"
    by (rule at_request_join) simp_all
  moreover have "flash_fields Config_default ''fw'' = Inr ''/sbin/flash_full.sh fw''"
    by (simp add: flash_fields_def FLASH_SCRIPTS_def Config_default_def)
  ultimately show "flash_enter Config_default ''AT+FLASH=fw'' = FBusy ''/sbin/flash_full.sh fw''"
    by (simp add: flash_enter_def to_upper_def)
  have "at_request (''AT+'' @ ''TRYFLASHDONE'') = Inr (map to_upper ''TRYFLASHDONE'', [])"
    by (rule at_request_plain) simp_all
  then show "flash_enter cfg ''AT+TRYFLASHDONE'' = PRunning" by (simp add: flash_enter_def to_upper_def)
qed

definition fw_submitted :: FlashOp where
  "fw_submitted = FlashOp_new\<lparr>f_worker := Active AtRunning, f_cmd := ''/sbin/flash_full.sh fw''\<rparr>"

text \<open>Its worker has executed the first of its statements.\<close>

definition fw_started :: FlashOp where
  "fw_started = fw_submitted\<lparr>f_running := True, f_worker := Active AtStart\<rparr>"

lemma fw_starts: "worker_steps [Step] fw_submitted = Some fw_started"
  by (simp add: fw_started_def fw_submitted_def)

lemma fw_flash_runs:
  assumes "worker_steps es fw_submitted = Some op"
  obtains ls x where "runs (unforced_flash Config_default) flash_sys_start ls x" "serial_ready op x"
    "fx_sess x = sess_start\<lparr>s_owner := SERIAL\<rparr>"
proof -
  have "flash_stmts 0 7 (flash_enter Config_default ''AT+FLASH=fw'') FlashOp_new
      = Goes (FRet ''OK submitted: /sbin/flash_full.sh fw'') fw_submitted"
    by (simp add: enter_lines eval_nat_numeral FlashOp_new_def fw_submitted_def)
  then obtain ls x where x: "runs (unforced_flash Config_default) flash_sys_start ls x" "serial_ready fw_submitted x"
      "fx_sess x = sess_start\<lparr>s_owner := SERIAL\<rparr>"
    using serial_line_runs [OF serial_ready_start, of Config_default "''AT+FLASH=fw''" 0 7] enter_lines by auto
  from serial_ready_works [OF x(2) assms] obtain y where
    y: "runs (unforced_flash Config_default) x (map Works es) y" "serial_ready op y" "fx_sess y = fx_sess x"
    by blast
  from runs_append [OF x(1) y(1)] y(2) y(3) [unfolded x(3)] show ?thesis by (rule that)
qed

text \<open>A poll of it, at its first statement.\<close>

lemma fw_poll_begins:
  assumes "worker_steps es fw_submitted = Some op"
  obtains ls where "runs (unforced_flash Config_default) flash_sys_start ls (serial_at ''AT+TRYFLASHDONE'' PRunning op)"
proof -
  obtain ls x where x: "runs (unforced_flash Config_default) flash_sys_start ls x" "serial_ready op x"
    by (rule fw_flash_runs [OF assms])
  obtain ms where "runs (unforced_flash Config_default) x ms (serial_at ''AT+TRYFLASHDONE'' PRunning op)"
    using serial_line_enters [OF x(2), of Config_default "''AT+TRYFLASHDONE''"] enter_lines(2) by auto
  from runs_append [OF x(1) this] show ?thesis by (rule that)
qed

end
