(* ===== verification/Flash_Linear.thy ===== *)
theory Flash_Linear
  imports Flash_Threads
begin

text \<open>
  What the replies of the flash commands mean, whatever the worker does between two statements of a
  call: each is the reply of the handler as one step (theory \<open>Flash\<close>) on the \<open>FlashOp\<close> of one moment
  during the call. So the properties of theory \<open>Flash_Props\<close> are not an artefact of its coarser steps.
\<close>

section \<open>What the replies mean\<close>

text \<open>The steps of one call of the side \<open>w\<close>: no step of it at the lock.\<close>

definition same_call :: "Owner \<Rightarrow> flash_sys_label \<Rightarrow> bool" where
  "same_call w l \<longleftrightarrow> (\<forall>k. l = AtSession k \<longrightarrow> \<not> moves k w)"

text \<open>A step of a call, seen from the side that makes it: its own statement, or the others' step.\<close>

lemma same_call_step:
  assumes "flash_sys_step cfg x l y" "same_call w l"
  obtains (own) now pc op where "l = Statement w now" "flash_stmt now (fx_at x w) (fx_op x) = Goes pc op" "fx_at y w = pc" "fx_op y = op" "fx_fate y = fx_fate x"
    | (ends) now where "flash_stmt now (fx_at x w) (fx_op x) \<in> {Terminates, JoinsAgain}" "fx_at y w = fx_at x w" "fx_op y = fx_op x"
    | (worker) e where "worker_step e (fx_op x) = Some (fx_op y)" "fx_at y w = fx_at x w" "fx_fate y = fx_fate x"
    | (other) v now pc op where "v \<noteq> w" "flash_stmt now (fx_at x v) (fx_op x) = Goes pc op" "fx_at y w = fx_at x w"
    | (other_ends) v now where "v \<noteq> w" "flash_stmt now (fx_at x v) (fx_op x) \<in> {Terminates, JoinsAgain}" "fx_at y w = fx_at x w" "fx_op y = fx_op x"
    | (lock) "fx_at y w = fx_at x w" "fx_op y = fx_op x" "fx_fate y = fx_fate x"
  using assms(1)
proof cases
  case (at_session k s)
  then show thesis using assms(2) lock by (simp add: same_call_def)
next
  case (statement now v pc op)
  then show thesis using own other by (cases "v = w") auto
next
  case (terminates now v)
  then show thesis using ends other_ends by (cases "v = w") auto
next
  case (joins_again now v)
  then show thesis using ends other_ends by (cases "v = w") auto
next
  case (works e op)
  then show thesis using worker by simp
qed

text \<open>
  What is known of the states \<open>H\<close> the \<open>FlashOp\<close> has passed since the call began and the times \<open>T\<close> of its
  statements, at each statement of \<open>AT+TRYFLASHDONE\<close>: one of them accounts for what was loaded so far.
\<close>

definition poll_answer :: "(int \<Rightarrow> bool) \<Rightarrow> string \<Rightarrow> FlashOp \<Rightarrow> bool" where
  "poll_answer T r op \<longleftrightarrow> (\<exists>now. T now \<and> (handle_flashdone now op = Reply r op
     \<or> (\<exists>v. handle_flashdone now op = Wait v op \<and> r = wait_reply v)))"

definition poll_wait :: "(int \<Rightarrow> bool) \<Rightarrow> flash_wait \<Rightarrow> FlashOp \<Rightarrow> bool" where
  "poll_wait T w op \<longleftrightarrow> (\<exists>now. T now \<and> handle_flashdone now op = Wait w op)"

definition passed :: "(FlashOp \<Rightarrow> bool) \<Rightarrow> (FlashOp \<Rightarrow> bool) \<Rightarrow> bool" where
  "passed H P \<longleftrightarrow> (\<exists>q. H q \<and> P q)"

lemma passedI: "H q \<Longrightarrow> P q \<Longrightarrow> passed H P"
  unfolding passed_def by blast

lemma passed_imp: "passed H P \<Longrightarrow> (\<And>q. P q \<Longrightarrow> Q q) \<Longrightarrow> passed H Q"
  unfolding passed_def by blast

lemma passed_visited: "passed (\<lambda>op. \<exists>z. V z \<and> fx_op z = op) P \<Longrightarrow> \<exists>z. V z \<and> P (fx_op z)"
  unfolding passed_def by blast

fun poll_hist :: "(int \<Rightarrow> bool) \<Rightarrow> (FlashOp \<Rightarrow> bool) \<Rightarrow> flash_pc \<Rightarrow> FlashOp \<Rightarrow> bool" where
  "poll_hist T H PRunning op \<longleftrightarrow> True"
| "poll_hist T H PDone op \<longleftrightarrow> f_done op \<or> passed H (\<lambda>q. \<not> f_running q \<and> \<not> f_done q)"
| "poll_hist T H PDoneAgain op \<longleftrightarrow> True"
| "poll_hist T H PElapsed op \<longleftrightarrow>
     passed H (\<lambda>q. f_running q \<and> \<not> f_done q \<and> f_start_time q = f_start_time op \<and> f_cmd q = f_cmd op)"
| "poll_hist T H (PReply elapsed) op \<longleftrightarrow> elapsed < ASYNC_TIMEOUT_SEC
     \<and> passed H (\<lambda>q. f_running q \<and> \<not> f_done q \<and> T (elapsed + f_start_time q) \<and> f_cmd q = f_cmd op)"
| "poll_hist T H PExit op \<longleftrightarrow> True"
| "poll_hist T H POk op \<longleftrightarrow> True"
| "poll_hist T H PFail op \<longleftrightarrow> True"
| "poll_hist T H (PJoinable w) op \<longleftrightarrow> passed H (poll_wait T w)"
| "poll_hist T H (PJoin w) op \<longleftrightarrow> passed H (poll_wait T w)"
| "poll_hist T H (PRunningOff w) op \<longleftrightarrow> passed H (poll_wait T w)"
| "poll_hist T H (PDoneSet w) op \<longleftrightarrow> passed H (poll_wait T w)"
| "poll_hist T H (FRet r) op \<longleftrightarrow> passed H (poll_answer T r)"
| "poll_hist T H pc op \<longleftrightarrow> False"

lemma poll_waits:
  "T now \<Longrightarrow> f_done op \<Longrightarrow> poll_wait T (ResultJoin (flash_result_text op)) op"
  "T now \<Longrightarrow> f_running op \<Longrightarrow> \<not> f_done op \<Longrightarrow> ASYNC_TIMEOUT_SEC \<le> now - f_start_time op \<Longrightarrow> poll_wait T TimeoutJoin op"
  unfolding poll_wait_def by (intro exI [of _ now]; simp add: handle_flashdone_def)+

lemma poll_answers:
  "T now \<Longrightarrow> \<not> f_running op \<Longrightarrow> \<not> f_done op \<Longrightarrow> poll_answer T ''ERROR: no pending flash operation'' op"
  "poll_wait T v op \<Longrightarrow> poll_answer T (wait_reply v) op"
  unfolding poll_answer_def poll_wait_def by (intro exI [of _ now], simp add: handle_flashdone_def) blast

lemma poll_answer_running:
  assumes "T (elapsed + f_start_time op)" "f_running op" "\<not> f_done op" "elapsed < ASYNC_TIMEOUT_SEC"
  shows "poll_answer T (''RUNNING: '' @ f_cmd op @ '' ('' @ dec_str_int elapsed @ ''/'' @ dec_str_int ASYNC_TIMEOUT_SEC @ ''s)'') op"
  unfolding poll_answer_def
  by (intro exI [of _ "elapsed + f_start_time op"]) (use assms in \<open>simp add: handle_flashdone_def\<close>)

lemma poll_hist_stmt:
  assumes "flash_stmt now pc op = Goes pc' op'" "pc_inv pc op" "poll_hist T H pc op" "H op" "T now"
  shows "poll_hist T H pc' op'"
proof (cases pc)
  case PRunning
  have "passed H (\<lambda>q. \<not> f_running q \<and> \<not> f_done q)" if "\<not> f_running op" "\<not> f_done op"
    using that by (intro passedI [of H, OF assms(4)]) simp
  with assms PRunning show ?thesis by (cases "f_running op"; cases "f_done op"; auto)
next
  case PDone
  with assms show ?thesis by (auto elim!: passed_imp intro: poll_answers(1) [of T now])
next
  case PDoneAgain
  then have "f_running op \<and> flash_inv op" if "\<not> f_done op"
    using assms(2) that by (cases "f_worker op") (auto simp: flash_inv_def elim: worker_inv.elims)
  then have "passed H (\<lambda>q. f_running q \<and> \<not> f_done q \<and> f_start_time q = f_start_time op \<and> f_cmd q = f_cmd op)" if "\<not> f_done op"
    using that by (intro passedI [of H, OF assms(4)]) simp
  with assms PDoneAgain show ?thesis by auto
next
  case PElapsed
  note h = assms(3) [unfolded PElapsed poll_hist.simps]
  have "passed H (poll_wait T TimeoutJoin)" if t: "ASYNC_TIMEOUT_SEC \<le> now - f_start_time op"
    by (rule passed_imp [OF h], rule poll_waits(2) [of T now]) (use t assms(5) in simp_all)
  moreover have "passed H (\<lambda>q. f_running q \<and> \<not> f_done q \<and> T (now - f_start_time op + f_start_time q) \<and> f_cmd q = f_cmd op)"
    by (rule passed_imp [OF h]) (use assms(5) in simp)
  ultimately show ?thesis using assms(1) PElapsed by (auto simp: Let_def split: if_splits)
next
  case (PReply elapsed)
  then have e: "elapsed < ASYNC_TIMEOUT_SEC"
      "passed H (\<lambda>q. f_running q \<and> \<not> f_done q \<and> T (elapsed + f_start_time q) \<and> f_cmd q = f_cmd op)"
    using assms(3) by simp_all
  have "passed H (poll_answer T (''RUNNING: '' @ f_cmd op @ '' ('' @ dec_str_int elapsed @ ''/'' @ dec_str_int ASYNC_TIMEOUT_SEC @ ''s)''))"
    by (rule passed_imp [OF e(2)]) (use poll_answer_running [of T elapsed, OF _ _ _ e(1)] in metis)
  with assms(1) PReply show ?thesis by auto
next
  case POk
  then have "poll_wait T (ResultJoin (''OK '' @ f_cmd op @ '' '' @ f_output op)) op"
    using assms(2) poll_waits(1) [of T now op] assms(5) by (simp add: flash_result_text_def)
  from passedI [of H op "poll_wait T w" for w, OF assms(4) this] assms(1) POk show ?thesis by auto
next
  case PFail
  then have "poll_wait T (ResultJoin (''ERROR '' @ f_cmd op @ '' failed (exit='' @ dec_str_int (f_exit_code op) @ '') '' @ f_output op)) op"
    using assms(2) poll_waits(1) [of T now op] assms(5) by (simp add: flash_result_text_def)
  from passedI [of H op "poll_wait T w" for w, OF assms(4) this] assms(1) PFail show ?thesis by auto
next
  case (PDoneSet w)
  with assms show ?thesis by (auto elim!: passed_imp intro: poll_answers(2))
qed (use assms in \<open>auto split: if_splits worker.splits\<close>)

lemma poll_hist_work:
  assumes "worker_step e op = Some op'" "pc_inv pc op" "poll_hist T H pc op" "H op'"
  shows "poll_hist T H pc op'"
proof (cases pc)
  case PElapsed
  then have f: "flash_inv op" using assms(2) by simp
  show ?thesis
  proof (cases "f_start_time op' = f_start_time op")
    case True
    with PElapsed assms(3) worker_step_frame(1) [OF assms(1) f] show ?thesis by simp
  next
    case False
    with PElapsed worker_step_frame(4) [OF assms(1) f] show ?thesis by (simp add: passedI [of H, OF assms(4)])
  qed
qed (use assms worker_step_frame [OF assms(1)] in auto)

definition polling :: "(int \<Rightarrow> bool) \<Rightarrow> (FlashOp \<Rightarrow> bool) \<Rightarrow> Owner \<Rightarrow> flash_sys \<Rightarrow> bool" where
  "polling T H w x \<longleftrightarrow> flash_sys_inv x \<and> H (fx_op x) \<and> poll_hist T H (fx_at x w) (fx_op x)"

text \<open>
  Once the call has returned, nothing is left to show; until then only the worker and the side itself
  touch the \<open>FlashOp\<close>.
\<close>

lemma polling_step:
  assumes "unforced_flash cfg x l y" "same_call w l" "H (fx_op y)" "\<forall>now. l = Statement w now \<longrightarrow> T now" "polling T H w x"
  shows "polling T H w y"
proof -
  have inv: "flash_sys_inv x" "flash_sys_inv y" using assms flash_sys_inv_step by (auto simp: polling_def)
  have h: "H (fx_op x)" "poll_hist T H (fx_at x w) (fx_op x)" using assms(5) by (simp_all add: polling_def)
  have st: "flash_sys_step cfg x l y" using assms(1) by (simp add: unforced_flash_def)
  have "poll_hist T H (fx_at y w) (fx_op y)"
  proof (cases "at_rest (fx_at x w)")
    case True
    then obtain r where r: "fx_at x w = FRet r" using h(2) by (cases "fx_at x w") auto
    have "fx_at y w = FRet r"
      using st assms(2) by (rule same_call_step) (use r in auto)
    with r h(2) show ?thesis by simp
  next
    case False
    note at = flash_sys_inv_at [OF inv(1) False]
    from st assms(2) show ?thesis
    proof (cases rule: same_call_step)
      case (own now pc op)
      then have "T now" using assms(4) by simp
      from poll_hist_stmt [OF own(2) at(1) h(2,1) this] own show ?thesis by simp
    next
      case (worker e)
      from poll_hist_work [OF worker(1) at(1) h(2) assms(3)] worker show ?thesis by simp
    next
      case (other v now pc op)
      then show ?thesis using flash_stmt_rest [OF at(2) [OF other(1)]] by simp
    qed (use h(2) in simp_all)
  qed
  with inv(2) assms(3) show ?thesis by (simp add: polling_def)
qed

interpretation poll_call: step_invariant
  "\<lambda>x l y. unforced_flash cfg x l y \<and> same_call w l \<and> H (fx_op y) \<and> (\<forall>now. l = Statement w now \<longrightarrow> T now)" "polling T H w"
  for cfg w T H
  by unfold_locales (blast intro: polling_step)

lemma poll_from_start:
  assumes "flash_sys_inv x" "fx_at x w = PRunning"
    and run: "runs (unforced_flash cfg) x ls y" "\<forall>l\<in>set ls. same_call w l"
  shows "polling (\<lambda>now. Statement w now \<in> set ls) (\<lambda>op. \<exists>z. visits (unforced_flash cfg) x ls y z \<and> fx_op z = op) w y"
proof -
  let ?T = "\<lambda>now. Statement w now \<in> set ls"
  let ?H = "\<lambda>op. \<exists>z. visits (unforced_flash cfg) x ls y z \<and> fx_op z = op"
  have "runs (\<lambda>x l y. unforced_flash cfg x l y \<and> same_call w l \<and> ?H (fx_op y) \<and> (\<forall>now. l = Statement w now \<longrightarrow> ?T now)) x ls y"
    by (rule runs_mono [OF runs_visits [OF run(1)]]) (use run(2) in auto)
  moreover have "polling ?T ?H w x" using assms(1,2) visits_first [OF run(1)] by (auto simp: polling_def)
  ultimately show ?thesis by (rule poll_call.inv_runs)
qed

text \<open>
  C8: a poll answers as if the worker had stood still. In every interleaving of the two command threads
  and the worker without a forced release, with the handlers and the worker executed statement by
  statement: whatever a call of \<open>AT+TRYFLASHDONE\<close> returns is what the handler of theory \<open>Flash\<close>
  answers, in one step, on the \<open>FlashOp\<close> of one moment between the first statement of the call and its
  return, at the clock as one of its statements found it (after the wait for the worker, where that
  answer is to wait).
\<close>

theorem poll_linearizable:
  assumes "runs (unforced_flash cfg) flash_sys_start ks x" "fx_at x w = PRunning"
    and "runs (unforced_flash cfg) x ls y" "\<forall>l\<in>set ls. same_call w l" "fx_at y w = FRet r"
  shows "\<exists>z now. visits (unforced_flash cfg) x ls y z \<and> Statement w now \<in> set ls
    \<and> (handle_flashdone now (fx_op z) = Reply r (fx_op z)
       \<or> (\<exists>v. handle_flashdone now (fx_op z) = Wait v (fx_op z) \<and> r = wait_reply v))"
proof -
  have "passed (\<lambda>op. \<exists>z. visits (unforced_flash cfg) x ls y z \<and> fx_op z = op) (poll_answer (\<lambda>now. Statement w now \<in> set ls) r)"
    using poll_from_start [OF flash_sys_inv_runs [OF assms(1)] assms(2-4)] assms(5) by (simp add: polling_def)
  from passed_visited [OF this] show ?thesis unfolding poll_answer_def by blast
qed

theorem poll_linearizable_witness:
  "\<exists>ks x ls y r z now. runs (unforced_flash Config_default) flash_sys_start ks x \<and> fx_at x SERIAL = PRunning
    \<and> runs (unforced_flash Config_default) x ls y \<and> fx_at y SERIAL = FRet r
    \<and> visits (unforced_flash Config_default) x ls y z \<and> Statement SERIAL now \<in> set ls
    \<and> (handle_flashdone now (fx_op z) = Reply r (fx_op z)
       \<or> (\<exists>v. handle_flashdone now (fx_op z) = Wait v (fx_op z) \<and> r = wait_reply v))"
proof -
  let ?x = "serial_at ''AT+TRYFLASHDONE'' PRunning fw_started"
  obtain ks where x: "runs (unforced_flash Config_default) flash_sys_start ks ?x"
    by (rule fw_poll_begins [OF fw_starts])
  have at: "fx_at ?x SERIAL = PRunning" by (simp add: serial_at_def)
  obtain r where "flash_stmts 0 4 PRunning fw_started = Goes (FRet r) fw_started"
    by (simp add: eval_nat_numeral fw_started_def fw_submitted_def FlashOp_new_def ASYNC_TIMEOUT_SEC_def)
  then have run: "runs (unforced_flash Config_default) ?x (replicate 4 (Statement SERIAL 0))
      (?x\<lparr>fx_op := fw_started, fx_at := (fx_at ?x)(SERIAL := FRet r)\<rparr>)" (is "runs _ _ ?ls ?y")
    by (intro stmts_run) (simp_all add: serial_at_def)
  have y: "fx_at ?y SERIAL = FRet r" "\<forall>l\<in>set ?ls. same_call SERIAL l" by (simp_all add: same_call_def)
  from poll_linearizable [OF x at run y(2,1)] x at run y(1) show ?thesis by blast
qed

text \<open>The same for \<open>AT+FLASH\<close> with the command \<open>c\<close>.\<close>

fun submit_hist :: "(FlashOp \<Rightarrow> bool) \<Rightarrow> string \<Rightarrow> flash_pc \<Rightarrow> FlashOp \<Rightarrow> bool" where
  "submit_hist H c (FBusy cmd) op \<longleftrightarrow> cmd = c"
| "submit_hist H c FReply op \<longleftrightarrow> f_cmd op = c \<and> passed H (\<lambda>q. \<not> f_running q \<and> f_worker q = NotJoinable)"
| "submit_hist H c (FRet r) op \<longleftrightarrow>
     passed H (\<lambda>q. if f_running q then r = ''ERROR: flash already in progress, use AT+TRYFLASHDONE to poll''
       else f_worker q = NotJoinable \<and> r = ''OK submitted: '' @ c)"
| "submit_hist H c pc op \<longleftrightarrow> pc \<in> {FCmd c, FDoneOff c, FClear c, FExitCode c, FThread c}
     \<and> passed H (\<lambda>q. \<not> f_running q \<and> (f_worker q = NotJoinable \<longleftrightarrow> f_worker op = NotJoinable))"

lemma submit_hist_stmt:
  assumes "flash_stmt now pc op = Goes pc' op'" "pc_inv pc op" "submit_hist H c pc op" "H op"
  shows "submit_hist H c pc' op'"
  using assms by (cases pc) (auto intro: passedI [of H] elim!: passed_imp split: if_splits worker.splits)

lemma submit_hist_work:
  assumes "worker_step e op = Some op'" "pc_inv pc op" "submit_hist H c pc op"
  shows "submit_hist H c pc op'"
proof (cases pc)
  case FReply
  with assms worker_step_frame(1) [OF assms(1)] show ?thesis by auto
qed (use assms worker_step_handle [OF assms(1)] in auto)

definition submitting :: "(FlashOp \<Rightarrow> bool) \<Rightarrow> string \<Rightarrow> Owner \<Rightarrow> flash_sys \<Rightarrow> bool" where
  "submitting H c w x \<longleftrightarrow> flash_sys_inv x \<and> H (fx_op x) \<and> submit_hist H c (fx_at x w) (fx_op x)
     \<and> (fx_fate x = TerminateCalled \<and> fx_at x w = FThread c \<longrightarrow> f_worker (fx_op x) \<noteq> NotJoinable)"

lemma submitting_step:
  assumes "unforced_flash cfg x l y" "same_call w l" "H (fx_op y)" "submitting H c w x"
  shows "submitting H c w y"
proof -
  have inv: "flash_sys_inv x" "flash_sys_inv y" using assms flash_sys_inv_step by (auto simp: submitting_def)
  have h: "H (fx_op x)" "submit_hist H c (fx_at x w) (fx_op x)" using assms(4) by (simp_all add: submitting_def)
  have st: "flash_sys_step cfg x l y" using assms(1) by (simp add: unforced_flash_def)
  then have alive: "fx_fate x = Alive" by cases simp_all
  have "submit_hist H c (fx_at y w) (fx_op y) \<and> (fx_fate y = TerminateCalled \<and> fx_at y w = FThread c \<longrightarrow> f_worker (fx_op y) \<noteq> NotJoinable)"
  proof (cases "at_rest (fx_at x w)")
    case True
    then obtain r where r: "fx_at x w = FRet r" using h(2) by (cases "fx_at x w") auto
    have "fx_at y w = FRet r"
      using st assms(2) by (rule same_call_step) (use r in auto)
    with r h(2) show ?thesis by simp
  next
    case False
    note at = flash_sys_inv_at [OF inv(1) False]
    from st assms(2) show ?thesis
    proof (cases rule: same_call_step)
      case (own now pc op)
      from submit_hist_stmt [OF own(2) at(1) h(2,1)] own alive show ?thesis by simp
    next
      case (ends now)
      with h(2) show ?thesis by (auto split: if_splits)
    next
      case (worker e)
      from submit_hist_work [OF worker(1) at(1) h(2)] worker alive show ?thesis by simp
    next
      case (other v now pc op)
      then show ?thesis using flash_stmt_rest [OF at(2) [OF other(1)]] by simp
    next
      case (other_ends v now)
      then show ?thesis using flash_stmt_rest [OF at(2) [OF other_ends(1)]] by simp
    qed (use h(2) alive in simp_all)
  qed
  with inv(2) assms(3) show ?thesis by (simp add: submitting_def)
qed

interpretation submit_call: step_invariant "\<lambda>x l y. unforced_flash cfg x l y \<and> same_call w l \<and> H (fx_op y)" "submitting H c w"
  for cfg w H c
  by unfold_locales (blast intro: submitting_step)

lemma submit_from_start:
  assumes "flash_sys_inv x" "fx_at x w = FBusy c"
    and run: "runs (unforced_flash cfg) x ls y" "\<forall>l\<in>set ls. same_call w l"
  shows "submitting (\<lambda>op. \<exists>z. visits (unforced_flash cfg) x ls y z \<and> fx_op z = op) c w y"
proof -
  let ?H = "\<lambda>op. \<exists>z. visits (unforced_flash cfg) x ls y z \<and> fx_op z = op"
  have "runs (\<lambda>x l y. unforced_flash cfg x l y \<and> same_call w l \<and> ?H (fx_op y)) x ls y"
    by (rule runs_mono [OF runs_visits [OF run(1)]]) (use run(2) in auto)
  moreover have "submitting ?H c w x" using assms(1,2) visits_first [OF run(1)] by (auto simp: submitting_def)
  ultimately show ?thesis by (rule submit_call.inv_runs)
qed

lemma submit_answers:
  assumes "flash_fields cfg arg = Inr cmd"
    and "if f_running op then r = ''ERROR: flash already in progress, use AT+TRYFLASHDONE to poll''
      else f_worker op = NotJoinable \<and> r = ''OK submitted: '' @ cmd"
  shows "\<exists>op'. handle_flash cfg arg op = Reply r op'"
  using assms by (auto simp: handle_flash_def split: if_splits)

text \<open>
  C9: so does a submission. What \<open>AT+FLASH\<close> with a valid argument returns is what the handler of theory
  \<open>Flash\<close> answers on the \<open>FlashOp\<close> of one moment during the call; and when the call ends the process by
  assigning a thread while one is held, the handler ends it at such a moment too.
\<close>

theorem submit_linearizable:
  assumes "runs (unforced_flash cfg) flash_sys_start ks x" "fx_at x w = FBusy cmd" "flash_fields cfg arg = Inr cmd"
    and "runs (unforced_flash cfg) x ls y" "\<forall>l\<in>set ls. same_call w l"
  shows "(fx_at y w = FRet r \<longrightarrow> (\<exists>z op. visits (unforced_flash cfg) x ls y z \<and> handle_flash cfg arg (fx_op z) = Reply r op))
    \<and> (fx_fate y = TerminateCalled \<and> fx_at y w = FThread cmd
         \<longrightarrow> (\<exists>z. visits (unforced_flash cfg) x ls y z \<and> handle_flash cfg arg (fx_op z) = Terminate))"
proof -
  have s: "submitting (\<lambda>op. \<exists>z. visits (unforced_flash cfg) x ls y z \<and> fx_op z = op) cmd w y"
    by (rule submit_from_start [OF flash_sys_inv_runs [OF assms(1)] assms(2,4,5)])
  note V = passed_visited [of "visits (unforced_flash cfg) x ls y"]
  have "\<exists>z op. visits (unforced_flash cfg) x ls y z \<and> handle_flash cfg arg (fx_op z) = Reply r op" if "fx_at y w = FRet r"
  proof -
    have "passed (\<lambda>op. \<exists>z. visits (unforced_flash cfg) x ls y z \<and> fx_op z = op)
        (\<lambda>q. if f_running q then r = ''ERROR: flash already in progress, use AT+TRYFLASHDONE to poll''
          else f_worker q = NotJoinable \<and> r = ''OK submitted: '' @ cmd)"
      using s that by (simp add: submitting_def del: if_split)
    from V [OF this] obtain z where "visits (unforced_flash cfg) x ls y z"
        "if f_running (fx_op z) then r = ''ERROR: flash already in progress, use AT+TRYFLASHDONE to poll''
         else f_worker (fx_op z) = NotJoinable \<and> r = ''OK submitted: '' @ cmd"
      by blast
    with submit_answers [OF assms(3)] show ?thesis by blast
  qed
  moreover have "\<exists>z. visits (unforced_flash cfg) x ls y z \<and> handle_flash cfg arg (fx_op z) = Terminate"
    if t: "fx_fate y = TerminateCalled" "fx_at y w = FThread cmd"
  proof -
    have "f_worker (fx_op y) \<noteq> NotJoinable" using s t by (simp add: submitting_def)
    moreover have "passed (\<lambda>op. \<exists>z. visits (unforced_flash cfg) x ls y z \<and> fx_op z = op)
        (\<lambda>q. \<not> f_running q \<and> (f_worker q = NotJoinable \<longleftrightarrow> f_worker (fx_op y) = NotJoinable))"
      using s t(2) unfolding submitting_def by simp
    ultimately obtain z where "visits (unforced_flash cfg) x ls y z" "\<not> f_running (fx_op z)" "f_worker (fx_op z) \<noteq> NotJoinable"
      using V by blast
    with assms(3) show ?thesis by (auto simp: handle_flash_def Let_def)
  qed
  ultimately show ?thesis by blast
qed

theorem submit_linearizable_witness:
  "\<exists>x ls y r z op. fx_at x SERIAL = FBusy ''/sbin/flash_full.sh fw'' \<and> fx_at y SERIAL = FRet r
    \<and> visits (unforced_flash Config_default) x ls y z \<and> handle_flash Config_default ''fw'' (fx_op z) = Reply r op"
proof -
  let ?cmd = "''/sbin/flash_full.sh fw''"
  let ?x = "serial_at ''AT+FLASH=fw'' (FBusy ?cmd) FlashOp_new"
  obtain ks where x: "runs (unforced_flash Config_default) flash_sys_start ks ?x"
    using serial_line_enters [OF serial_ready_start, of Config_default "''AT+FLASH=fw''"] enter_lines(1) by auto
  have at: "fx_at ?x SERIAL = FBusy ?cmd" by (simp add: serial_at_def)
  have f: "flash_fields Config_default ''fw'' = Inr ?cmd"
    by (simp add: flash_fields_def FLASH_SCRIPTS_def Config_default_def)
  have "flash_stmts 0 7 (FBusy ?cmd) FlashOp_new = Goes (FRet (''OK submitted: '' @ ?cmd)) fw_submitted"
    by (simp add: eval_nat_numeral FlashOp_new_def fw_submitted_def)
  then have run: "runs (unforced_flash Config_default) ?x (replicate 7 (Statement SERIAL 0))
      (?x\<lparr>fx_op := fw_submitted, fx_at := (fx_at ?x)(SERIAL := FRet (''OK submitted: '' @ ?cmd))\<rparr>)" (is "runs _ _ ?ls ?y")
    by (intro stmts_run) (simp_all add: serial_at_def)
  have y: "fx_at ?y SERIAL = FRet (''OK submitted: '' @ ?cmd)" "\<forall>l\<in>set ?ls. same_call SERIAL l"
    by (simp_all add: same_call_def)
  from submit_linearizable [OF x at f run y(2), of "''OK submitted: '' @ ?cmd"] at y(1) show ?thesis by blast
qed

end
