(* ===== verification/Flash_Race.thy ===== *)
theory Flash_Race
  imports Flash_Linear
begin

text \<open>
  Where the statements of the flash commands and of the worker get into each other's way: the data races
  on the plain members of \<open>FlashOp\<close>, the start time that is read before it is written, and what a
  forced release makes of the \<open>join\<close>.
\<close>

section \<open>Data races\<close>

text \<open>
  The members of \<open>FlashOp\<close> that are neither atomic nor the thread's handle, and what the statements do
  with them. The last statement of the worker includes the log message after it, which reads the exit
  code and the output.
\<close>

datatype member = CmdText | Output | ExitCode | StartTime

fun stmt_writes :: "flash_pc \<Rightarrow> member set" where
  "stmt_writes (FCmd cmd) = {CmdText}"
| "stmt_writes (FClear cmd) = {Output}"
| "stmt_writes (FExitCode cmd) = {ExitCode}"
| "stmt_writes pc = {}"

fun stmt_reads :: "flash_pc \<Rightarrow> member set" where
  "stmt_reads (FThread cmd) = {CmdText}"
| "stmt_reads FReply = {CmdText}"
| "stmt_reads PElapsed = {StartTime}"
| "stmt_reads (PReply elapsed) = {CmdText}"
| "stmt_reads PExit = {ExitCode}"
| "stmt_reads POk = {CmdText, Output}"
| "stmt_reads PFail = {CmdText, Output, ExitCode}"
| "stmt_reads pc = {}"

fun worker_writes :: "worker_pc \<Rightarrow> member set" where
  "worker_writes AtStart = {StartTime}"
| "worker_writes AtRead = {Output, ExitCode}"
| "worker_writes AtClose = {ExitCode}"
| "worker_writes pc = {}"

fun worker_reads :: "worker_pc \<Rightarrow> member set" where
  "worker_reads AtRead = {Output}"
| "worker_reads AtRunningOff = {Output, ExitCode}"
| "worker_reads pc = {}"

definition races :: "flash_pc \<Rightarrow> worker_pc \<Rightarrow> member \<Rightarrow> bool" where
  "races pc wpc m \<longleftrightarrow> m \<in> stmt_writes pc \<and> m \<in> worker_writes wpc \<union> worker_reads wpc
     \<or> m \<in> stmt_reads pc \<and> m \<in> worker_writes wpc"

text \<open>A submission that has not assigned its thread yet and will find that one is held.\<close>

definition doomed :: "Owner \<Rightarrow> flash_sys \<Rightarrow> bool" where
  "doomed w x \<longleftrightarrow> flash_sys_inv x \<and> (\<exists>cmd. fx_at x w \<in> {FClear cmd, FExitCode cmd, FThread cmd})
     \<and> f_worker (fx_op x) \<noteq> NotJoinable"

lemma doomed_step:
  assumes "unforced_flash cfg x l y \<and> same_call w l" "doomed w x"
  shows "doomed w y"
proof -
  have inv: "flash_sys_inv x" "flash_sys_inv y" using assms flash_sys_inv_step by (auto simp: doomed_def)
  have d: "\<exists>cmd. fx_at x w \<in> {FClear cmd, FExitCode cmd, FThread cmd}" "f_worker (fx_op x) \<noteq> NotJoinable"
    using assms(2) by (simp_all add: doomed_def)
  then have "\<not> at_rest (fx_at x w)" by auto
  note at = flash_sys_inv_at [OF inv(1) this]
  have "flash_sys_step cfg x l y" "same_call w l" using assms(1) by (simp_all add: unforced_flash_def)
  then have "(\<exists>cmd. fx_at y w \<in> {FClear cmd, FExitCode cmd, FThread cmd}) \<and> f_worker (fx_op y) \<noteq> NotJoinable"
  proof (cases rule: same_call_step)
    case (own now pc op)
    have "(\<exists>cmd. pc \<in> {FClear cmd, FExitCode cmd, FThread cmd}) \<and> f_worker op \<noteq> NotJoinable"
      using d own(2) by auto
    with own(3,4) show ?thesis by simp
  next
    case (worker e)
    with d worker_step_handle [OF worker(1)] show ?thesis by simp
  next
    case (other v now pc op)
    then show ?thesis using flash_stmt_rest [OF at(2) [OF other(1)]] by simp
  qed (use d in simp_all)
  with inv(2) show ?thesis by (simp add: doomed_def)
qed

interpretation doomed_call: step_invariant "\<lambda>x l y. unforced_flash cfg x l y \<and> same_call w l" "doomed w" for cfg w
  by unfold_locales (rule doomed_step)

lemma doomed_never_returns:
  assumes "doomed w x" "runs (unforced_flash cfg) x ls y" "\<forall>l\<in>set ls. same_call w l"
  shows "fx_at y w \<noteq> FRet r"
proof -
  have "runs (\<lambda>x l y. unforced_flash cfg x l y \<and> same_call w l) x ls y"
    by (rule runs_mono [OF assms(2)]) (use assms(3) in auto)
  from doomed_call.inv_runs [OF this assms(1)] show ?thesis by (auto simp: doomed_def)
qed

text \<open>
  C20: which data races there are. In every interleaving without a forced release, when a command thread is
  at a statement that writes a plain member of \<open>FlashOp\<close> which the worker's next statement reads or
  writes, or reads one that it writes, then it is a poll that reads \<open>start_time\<close> while the worker, which
  has set \<open>running\<close> already, is about to write it; or it is a submission that never returns, whatever
  the threads do next (it comes to assign its thread while one is held). So the result of a job, its
  output and its exit code, is never read while it is written.
\<close>

theorem flash_data_races:
  assumes "runs (unforced_flash cfg) flash_sys_start ks x" "f_worker (fx_op x) = Active wpc" "races (fx_at x w) wpc m"
  shows "m = StartTime \<and> fx_at x w = PElapsed \<and> wpc = AtStart
    \<or> (\<exists>cmd. fx_at x w \<in> {FClear cmd, FExitCode cmd})
      \<and> (\<forall>ls y r. runs (unforced_flash cfg) x ls y \<and> (\<forall>l\<in>set ls. same_call w l) \<longrightarrow> fx_at y w \<noteq> FRet r)"
proof -
  have inv: "flash_sys_inv x" by (rule flash_sys_inv_runs [OF assms(1)])
  have "\<not> at_rest (fx_at x w)" using assms(3) by (cases "fx_at x w") (simp_all add: races_def)
  note at = flash_sys_inv_at(1) [OF inv this]
  have "m = StartTime \<and> fx_at x w = PElapsed \<and> wpc = AtStart \<or> (\<exists>cmd. fx_at x w \<in> {FClear cmd, FExitCode cmd})"
    using at assms(2,3) by (cases "fx_at x w"; cases wpc) (simp_all add: races_def flash_inv_def)
  moreover have "doomed w x" if "\<exists>cmd. fx_at x w \<in> {FClear cmd, FExitCode cmd}"
    using that inv assms(2) by (auto simp: doomed_def)
  ultimately show ?thesis using doomed_never_returns by blast
qed

text \<open>A poll between the worker's first two statements.\<close>

lemma poll_at_start:
  assumes "flash_sys_inv x" "fx_fate x = Alive" "fx_at x w = PRunning" "f_worker (fx_op x) = Active AtStart"
  shows "runs (unforced_flash cfg) x (replicate 2 (Statement w now)) (x\<lparr>fx_at := (fx_at x)(w := PElapsed)\<rparr>)"
proof -
  have "\<not> at_rest (fx_at x w)" using assms(3) by simp
  from flash_sys_inv_at(1) [OF assms(1) this] have "f_running (fx_op x)" "\<not> f_done (fx_op x)"
    using assms(3,4) by (simp_all add: flash_inv_def)
  then have "flash_stmts now 2 (fx_at x w) (fx_op x) = Goes PElapsed (fx_op x)" by (simp add: assms(3) eval_nat_numeral)
  from stmts_run [OF this assms(2)] show ?thesis by simp
qed

theorem flash_data_races_witness:
  "\<exists>ks x. runs (unforced_flash Config_default) flash_sys_start ks x \<and> f_worker (fx_op x) = Active AtStart
    \<and> races (fx_at x SERIAL) AtStart StartTime
    \<and> (fx_at x SERIAL = PElapsed \<or> (\<exists>cmd. fx_at x SERIAL \<in> {FClear cmd, FExitCode cmd}))"
proof -
  let ?x = "serial_at ''AT+TRYFLASHDONE'' PRunning fw_started"
  let ?y = "?x\<lparr>fx_at := (fx_at ?x)(SERIAL := PElapsed)\<rparr>"
  obtain ks where x: "runs (unforced_flash Config_default) flash_sys_start ks ?x"
    by (rule fw_poll_begins [OF fw_starts])
  have "runs (unforced_flash Config_default) ?x (replicate 2 (Statement SERIAL 0)) ?y"
    by (rule poll_at_start [OF flash_sys_inv_runs [OF x]]) (simp_all add: serial_at_def fw_started_def)
  note run = runs_append [OF x this]
  have "f_worker (fx_op ?y) = Active AtStart" "races (fx_at ?y SERIAL) AtStart StartTime"
    by (simp_all add: serial_at_def races_def fw_started_def)
  from flash_data_races [OF run this] run this show ?thesis by blast
qed

section \<open>The start time is read before it is written\<close>

text \<open>Past the decision that the time is over, a poll answers TIMEOUT, and only when the worker is joined.\<close>

definition timing_out :: "Owner \<Rightarrow> flash_sys \<Rightarrow> bool" where
  "timing_out w x \<longleftrightarrow> flash_sys_inv x \<and> (fx_at x w = PJoin TimeoutJoin
     \<or> fx_at x w \<in> {PRunningOff TimeoutJoin, PDoneSet TimeoutJoin, FRet (wait_reply TimeoutJoin)})"

lemma timing_out_step:
  assumes "unforced_flash cfg x l y \<and> same_call w l" "timing_out w x"
  shows "timing_out w y"
proof -
  have inv: "flash_sys_inv y" using assms flash_sys_inv_step by (auto simp: timing_out_def)
  have "flash_sys_step cfg x l y" "same_call w l" using assms(1) by (simp_all add: unforced_flash_def)
  then show ?thesis
  proof (cases rule: same_call_step)
    case (own now pc op)
    with assms(2) inv show ?thesis by (auto simp: timing_out_def split: worker.splits)
  qed (use assms(2) inv in \<open>auto simp: timing_out_def\<close>)
qed

interpretation timeout_call: step_invariant "\<lambda>x l y. unforced_flash cfg x l y \<and> same_call w l" "timing_out w" for cfg w
  by unfold_locales (rule timing_out_step)

text \<open>
  C21: the race on \<open>start_time\<close> shows. A poll between the worker's first two statements computes the time
  from the previous job's start (from the epoch of the clock, for the first job); if that is a minute
  ago, the poll decides in four statements that the job that has just begun is over time, waits until
  the job has ended, and then answers that it did not complete, whatever the threads do.
\<close>

theorem stale_start_times_out:
  assumes "runs (unforced_flash cfg) flash_sys_start ks x" "fx_fate x = Alive" "fx_at x w = PRunning"
    and "f_worker (fx_op x) = Active AtStart" "ASYNC_TIMEOUT_SEC \<le> now - f_start_time (fx_op x)"
  shows "\<exists>y. runs (unforced_flash cfg) x (replicate 4 (Statement w now)) y \<and> fx_op y = fx_op x
    \<and> (\<forall>t. flash_stmt t (fx_at y w) (fx_op y) = Blocks)
    \<and> (\<forall>ls z r. runs (unforced_flash cfg) y ls z \<and> (\<forall>l\<in>set ls. same_call w l) \<and> fx_at z w = FRet r
        \<longrightarrow> r = ''TIMEOUT: flash did not complete within '' @ dec_str_int ASYNC_TIMEOUT_SEC @ ''s'')"
proof -
  let ?y = "x\<lparr>fx_op := fx_op x, fx_at := (fx_at x)(w := PJoin TimeoutJoin)\<rparr>"
  have inv: "flash_sys_inv x" by (rule flash_sys_inv_runs [OF assms(1)])
  have "\<not> at_rest (fx_at x w)" using assms(3) by simp
  from flash_sys_inv_at(1) [OF inv this] have "f_running (fx_op x)" "\<not> f_done (fx_op x)"
    using assms(3,4) by (simp_all add: flash_inv_def)
  then have "flash_stmts now 4 (fx_at x w) (fx_op x) = Goes (PJoin TimeoutJoin) (fx_op x)"
    using assms(4,5) by (simp add: assms(3) eval_nat_numeral)
  from stmts_run [OF this assms(2)] have run: "runs (unforced_flash cfg) x (replicate 4 (Statement w now)) ?y" .
  have "timing_out w ?y" using flash_threads.inv_runs [OF run inv] by (simp add: timing_out_def)
  then have reply: "r = ''TIMEOUT: flash did not complete within '' @ dec_str_int ASYNC_TIMEOUT_SEC @ ''s''"
    if "runs (unforced_flash cfg) ?y ls z" "\<forall>l\<in>set ls. same_call w l" "fx_at z w = FRet r" for ls z r
  proof -
    have "runs (\<lambda>x l y. unforced_flash cfg x l y \<and> same_call w l) ?y ls z"
      by (rule runs_mono [OF that(1)]) (use that(2) in auto)
    from timeout_call.inv_runs [OF this \<open>timing_out w ?y\<close>] that(3) show ?thesis by (simp add: timing_out_def)
  qed
  show ?thesis
    by (intro exI [of _ ?y] conjI run) (use assms(4) reply in \<open>simp, simp, blast\<close>)
qed

theorem stale_start_times_out_witness:
  "\<exists>ks x y. runs (unforced_flash Config_default) flash_sys_start ks x \<and> f_worker (fx_op x) = Active AtStart
    \<and> runs (unforced_flash Config_default) x (replicate 4 (Statement SERIAL 60)) y
    \<and> (\<forall>t. flash_stmt t (fx_at y SERIAL) (fx_op y) = Blocks)"
proof -
  let ?x = "serial_at ''AT+TRYFLASHDONE'' PRunning fw_started"
  obtain ks where x: "runs (unforced_flash Config_default) flash_sys_start ks ?x"
    by (rule fw_poll_begins [OF fw_starts])
  have "fx_fate ?x = Alive" "fx_at ?x SERIAL = PRunning" "f_worker (fx_op ?x) = Active AtStart"
    "ASYNC_TIMEOUT_SEC \<le> 60 - f_start_time (fx_op ?x)"
    by (simp_all add: serial_at_def fw_started_def fw_submitted_def FlashOp_new_def ASYNC_TIMEOUT_SEC_def)
  from stale_start_times_out [OF x this] x this(3) show ?thesis by blast
qed

section \<open>A forced release\<close>

text \<open>A flash of the serial side has ended, and its result was not polled.\<close>

definition unpolled :: "flash_sys \<Rightarrow> bool" where
  "unpolled x \<longleftrightarrow> fx_sess x = sess_start\<lparr>s_owner := SERIAL\<rparr> \<and> fx_at x = (\<lambda>_. FIdle) \<and> fx_fate x = Alive
     \<and> f_worker (fx_op x) = Returned \<and> \<not> f_running (fx_op x) \<and> f_done (fx_op x)"

definition joining_twice :: "flash_sys_label list" where
  "joining_twice =
     [AtSession (SerialLine ''AT+TRYFLASHDONE''), AtSession SerialNext] @ replicate 6 (Statement SERIAL 0)
     @ [AtSession ApiReset, AtSession (HttpRequest ''AT+TRYFLASHDONE''), AtSession HttpNext]
     @ replicate 7 (Statement HTTP 0) @ [Statement SERIAL 0]"

lemma done_poll_joins:
  assumes "f_worker op = Returned" "\<not> f_running op" "f_done op"
  shows "\<exists>r. flash_stmts 0 6 PRunning op = Goes (PJoin (ResultJoin r)) op
    \<and> flash_stmts 0 7 PRunning op = Goes (PRunningOff (ResultJoin r)) (op\<lparr>f_worker := NotJoinable\<rparr>)"
  using assms by (cases "f_exit_code op = 0") (simp_all add: eval_nat_numeral)

lemma unforced_is_step: "runs (unforced_flash cfg) x ls y \<Longrightarrow> runs (flash_sys_step cfg) x ls y"
  by (erule runs_mono) (simp add: unforced_flash_def)

lemma moves_http: "moves (HttpRequest cmd) w \<longleftrightarrow> w = HTTP" "moves HttpNext w \<longleftrightarrow> w = HTTP" "\<not> moves ApiReset w"
  by (auto simp: moves_def)

text \<open>The serial side comes to its \<open>join\<close>, is released by force, and HTTP polls up to the same \<open>join\<close>.\<close>

lemma serial_polls_to_join:
  assumes "unpolled x"
  shows "\<exists>r. runs (flash_sys_step cfg) x ([AtSession (SerialLine ''AT+TRYFLASHDONE''), AtSession SerialNext] @ replicate 6 (Statement SERIAL 0))
      (serial_at ''AT+TRYFLASHDONE'' (PJoin (ResultJoin r)) (fx_op x))"
proof -
  let ?x1 = "serial_at ''AT+TRYFLASHDONE'' PRunning (fx_op x)"
  have 1: "runs (unforced_flash cfg) x [AtSession (SerialLine ''AT+TRYFLASHDONE''), AtSession SerialNext] ?x1"
    using serial_denied_enters [of x "fx_op x" cfg "''AT+TRYFLASHDONE''"] assms by (simp add: unpolled_def enter_lines)
  obtain r where r: "flash_stmts 0 6 PRunning (fx_op x) = Goes (PJoin (ResultJoin r)) (fx_op x)"
    using done_poll_joins [of "fx_op x"] assms by (auto simp: unpolled_def)
  have "flash_stmts 0 6 (fx_at ?x1 SERIAL) (fx_op ?x1) = Goes (PJoin (ResultJoin r)) (fx_op x)"
    by (simp add: serial_at_def r)
  from stmts_run [OF this, of cfg]
  have "runs (unforced_flash cfg) ?x1 (replicate 6 (Statement SERIAL 0)) (serial_at ''AT+TRYFLASHDONE'' (PJoin (ResultJoin r)) (fx_op x))"
    by (simp add: serial_at_def)
  from unforced_is_step [OF runs_append [OF 1 this]] show ?thesis by blast
qed

lemma http_joins_first:
  assumes "f_worker op = Returned" "\<not> f_running op" "f_done op"
  shows "\<exists>y. runs (flash_sys_step cfg) (serial_at line (PJoin w) op)
      ([AtSession ApiReset, AtSession (HttpRequest ''AT+TRYFLASHDONE''), AtSession HttpNext] @ replicate 7 (Statement HTTP 0)) y
    \<and> fx_at y SERIAL = PJoin w \<and> f_worker (fx_op y) = NotJoinable \<and> fx_fate y = Alive"
proof -
  let ?x = "serial_at line (PJoin w) op" and ?poll = "''AT+TRYFLASHDONE''"
  let ?s1 = "sess_start\<lparr>s_ser := SRun line\<rparr>"
  let ?x1 = "?x\<lparr>fx_sess := ?s1\<rparr>" and ?x2 = "?x\<lparr>fx_sess := ?s1\<lparr>s_http := HFree ?poll\<rparr>\<rparr>"
  let ?x3 = "?x\<lparr>fx_sess := ?s1\<lparr>s_http := HRun ?poll, s_owner := HTTP\<rparr>, fx_at := (fx_at ?x)(HTTP := PRunning)\<rparr>"
  have nb: "\<not> bypass_lock ?poll" by (simp add: bypass_lock_def find_char_from_def)
  have "sess_step ApiReset (fx_sess ?x) ((fx_sess ?x)\<lparr>s_owner := force_release (s_owner (fx_sess ?x))\<rparr>)"
    by (rule sess_step.api_reset) (simp add: serial_at_def sess_start_def)
  then have 1: "flash_sys_step cfg ?x (AtSession ApiReset) ?x1"
    by (rule lock_step) (simp_all add: serial_at_def moves_http sess_start_def owner_ops fun_eq_iff)
  have "sess_step (HttpRequest ?poll) (fx_sess ?x1) ((fx_sess ?x1)\<lparr>s_http := http_arrive ?poll (s_owner (fx_sess ?x1))\<rparr>)"
    by (rule sess_step.http_request) (simp add: sess_start_def)
  then have 2: "flash_sys_step cfg ?x1 (AtSession (HttpRequest ?poll)) ?x2"
    by (rule lock_step)
       (auto simp: serial_at_def moves_http sess_start_def http_arrive_def nb owner_ops enters_def fun_eq_iff)
  have "sess_step HttpNext (fx_sess ?x2) ((fx_sess ?x2)\<lparr>s_http := HRun ?poll, s_owner := HTTP\<rparr>)"
    by (rule sess_step.http_step) (simp_all add: sess_start_def owner_ops)
  then have 3: "flash_sys_step cfg ?x2 (AtSession HttpNext) ?x3"
    by (rule lock_step) (auto simp: serial_at_def moves_http sess_start_def enters_def enter_lines fun_eq_iff)
  obtain r where "flash_stmts 0 7 PRunning op = Goes (PRunningOff (ResultJoin r)) (op\<lparr>f_worker := NotJoinable\<rparr>)"
    using done_poll_joins [OF assms] by blast
  then have "flash_stmts 0 7 (fx_at ?x3 HTTP) (fx_op ?x3) = Goes (PRunningOff (ResultJoin r)) (op\<lparr>f_worker := NotJoinable\<rparr>)"
    by (simp add: serial_at_def)
  from unforced_is_step [OF stmts_run [OF this, of cfg]]
  have 4: "runs (flash_sys_step cfg) ?x3 (replicate 7 (Statement HTTP 0))
      (?x3\<lparr>fx_op := op\<lparr>f_worker := NotJoinable\<rparr>, fx_at := (fx_at ?x3)(HTTP := PRunningOff (ResultJoin r))\<rparr>)"
    by (simp add: serial_at_def)
  from runs_Cons [where step = "flash_sys_step cfg", OF 1] runs_2 [where step = "flash_sys_step cfg", OF 2 3]
  have "runs (flash_sys_step cfg) ?x [AtSession ApiReset, AtSession (HttpRequest ?poll), AtSession HttpNext] ?x3" by blast
  from runs_append [OF this 4] show ?thesis by (intro exI conjI) (assumption, simp_all add: serial_at_def)
qed

text \<open>
  With a forced release two polls can join one thread. In every state with a finished job of the serial
  side that was not polled: the serial side polls as far as \<open>worker.join()\<close>, \<open>POST /api/reset\<close> frees the
  lock, \<open>AT+TRYFLASHDONE\<close> over HTTP joins the worker, and the serial side joins it again.
\<close>

theorem double_join:
  assumes "unpolled x"
  shows "\<exists>y. runs (flash_sys_step cfg) x joining_twice y \<and> fx_fate y = JoinedTwice"
proof -
  obtain r where 1: "runs (flash_sys_step cfg) x
      ([AtSession (SerialLine ''AT+TRYFLASHDONE''), AtSession SerialNext] @ replicate 6 (Statement SERIAL 0))
      (serial_at ''AT+TRYFLASHDONE'' (PJoin (ResultJoin r)) (fx_op x))"
    using serial_polls_to_join [OF assms] by blast
  obtain y where y: "runs (flash_sys_step cfg) (serial_at ''AT+TRYFLASHDONE'' (PJoin (ResultJoin r)) (fx_op x))
      ([AtSession ApiReset, AtSession (HttpRequest ''AT+TRYFLASHDONE''), AtSession HttpNext] @ replicate 7 (Statement HTTP 0)) y"
    "fx_at y SERIAL = PJoin (ResultJoin r)" "f_worker (fx_op y) = NotJoinable" "fx_fate y = Alive"
    using http_joins_first [of "fx_op x" cfg] assms unfolding unpolled_def by blast
  have "flash_sys_step cfg y (Statement SERIAL 0) (y\<lparr>fx_fate := JoinedTwice\<rparr>)"
    by (rule joins_again) (simp_all add: y)
  from runs_append [OF 1 runs_snoc [where step = "flash_sys_step cfg", OF y(1) this]]
  show ?thesis unfolding joining_twice_def by (intro exI conjI) (simp, simp)
qed

text \<open>Such a state is reached without a forced release.\<close>

lemma unpolled_reached:
  obtains ls x where "runs (unforced_flash Config_default) flash_sys_start ls x" "unpolled x"
proof -
  let ?op = "fw_submitted\<lparr>f_running := False, f_start_time := 0, f_done := True, f_worker := Returned\<rparr>"
  have "worker_steps [Step, Clock 0, PopenFails, Step, Step] fw_submitted = Some ?op"
    by (simp add: fw_submitted_def)
  then obtain ls x where x: "runs (unforced_flash Config_default) flash_sys_start ls x" "serial_ready ?op x"
      "fx_sess x = sess_start\<lparr>s_owner := SERIAL\<rparr>"
    by (rule fw_flash_runs)
  from x(2,3) have "unpolled x" by (simp add: unpolled_def serial_ready_def)
  with x(1) show ?thesis by (rule that)
qed

theorem double_join_witness:
  "\<exists>ls x y. runs (unforced_flash Config_default) flash_sys_start ls x
    \<and> runs (flash_sys_step Config_default) x joining_twice y \<and> fx_fate y = JoinedTwice"
proof -
  obtain ls x where x: "runs (unforced_flash Config_default) flash_sys_start ls x" "unpolled x"
    by (rule unpolled_reached)
  then show ?thesis using double_join [OF x(2)] by blast
qed

end
