(* ===== verification/ConfigParse.thy ===== *)
theory ConfigParse
  imports Config
begin

text \<open>
  The command line: \<open>parse_args\<close> of \<open>src/config.cpp\<close>. The arguments are those after the program's
  name, as C strings; a false result of the source is the message it prints.
\<close>

section \<open>The code\<close>

text \<open>
  \<open>atoi\<close> as the C library has it: \<open>strtol\<close>, which saturates at 64 bits, cut to 32 bits.
\<close>

definition strtol_10 :: "string \<Rightarrow> int" where
  "strtol_10 s =
     (let (neg, t) = scan_sign (c_str s);
          v = int (dec_value (takeWhile is_digit t))
      in if neg then max (- (2 ^ 63)) (- v) else min (2 ^ 63 - 1) v)"

definition atoi :: "string \<Rightarrow> int" where
  "atoi s = sint (word_of_int (strtol_10 s) :: 32 word)"

text \<open>The options that take a value (lines 39 to 64).\<close>

definition apply_option :: "string \<Rightarrow> string \<Rightarrow> Config \<Rightarrow> string + Config" where
  "apply_option arg val cfg =
     (if arg = ''--port'' then
        (let cfg = cfg\<lparr>cfg_port := word_of_int (atoi val)\<rparr>
         in if cfg_port cfg = 0 then Inl (''Error: invalid port '' @ val) else Inr cfg)
      else if arg = ''--serial-device'' then Inr (cfg\<lparr>cfg_serial_device := val\<rparr>)
      else if arg = ''--baud-rate'' then
        (let cfg = cfg\<lparr>cfg_baud_rate := atoi val\<rparr>
         in if cfg_baud_rate cfg \<le> 0 then Inl (''Error: invalid baud rate '' @ val) else Inr cfg)
      else if arg = ''--upload-dir'' then Inr (cfg\<lparr>cfg_upload_dir := val\<rparr>)
      else if arg = ''--scripts-dir'' then Inr (cfg\<lparr>cfg_scripts_dir := val\<rparr>)
      else if arg = ''--log-file'' then Inr (cfg\<lparr>cfg_log_file := val\<rparr>)
      else if arg = ''--pid-file'' then Inr (cfg\<lparr>cfg_pid_file := val\<rparr>)
      else Inl (''Error: unknown option '' @ [CHR 0x27] @ arg @ [CHR 0x27]))"

fun parse_args :: "string list \<Rightarrow> Config \<Rightarrow> string + Config" where
  "parse_args [] cfg = Inr cfg"
| "parse_args (arg # rest) cfg =
     (if arg = ''--help'' then Inr (cfg\<lparr>cfg_help := True\<rparr>)
      else if arg = ''--foreground'' then parse_args rest (cfg\<lparr>cfg_foreground := True\<rparr>)
      else case rest of
        [] \<Rightarrow> Inl (''Error: option '' @ [CHR 0x27] @ arg @ [CHR 0x27] @ '' requires a value'')
      | val # rest \<Rightarrow>
          (case apply_option arg val cfg of Inl err \<Rightarrow> Inl err | Inr cfg \<Rightarrow> parse_args rest cfg))"

section \<open>Numbers\<close>

lemma scan_sign_digits: "list_all is_digit s \<Longrightarrow> s \<noteq> [] \<Longrightarrow> scan_sign s = (False, s)"
  by (cases s) (auto simp: scan_sign_def cstr_simps Let_def split: if_splits)

lemma strtol_10_dec_str: "n < 2 ^ 63 \<Longrightarrow> strtol_10 (dec_str n) = int n"
proof -
  assume n: "n < 2 ^ 63"
  have d: "list_all is_digit (dec_str n)" by (simp add: list_all_iff dec_str_digits)
  have ne: "dec_str n \<noteq> []" by (subst dec_str.simps) simp
  have "c_str (dec_str n) = dec_str n"
    by (rule c_str_id) (use dec_str_digits [of "CHR 0x00" n] in \<open>auto simp: is_digit_def\<close>)
  moreover have tw: "takeWhile is_digit (dec_str n) = dec_str n"
    using d by (simp add: list_all_iff takeWhile_eq_all_conv)
  moreover have "int n \<le> 2 ^ 63 - 1"
    using n by (metis of_nat_less_iff of_nat_numeral of_nat_power zle_diff1_eq)
  ultimately show ?thesis
    using scan_sign_digits [OF d ne] unfolding strtol_10_def by (simp only: tw Let_def split_conv) simp
qed

lemma atoi_dec_str: "n < 2 ^ 31 \<Longrightarrow> atoi (dec_str n) = int n"
proof -
  assume n: "n < 2 ^ 31"
  then have "strtol_10 (dec_str n) = int n" by (simp add: strtol_10_dec_str)
  moreover have "sint (word_of_int (int n) :: 32 word) = int n"
    using n by (simp add: signed_of_nat signed_take_bit_int_eq_self)
  ultimately show ?thesis by (simp add: atoi_def)
qed

section \<open>Properties\<close>

lemma apply_option_ok:
  "apply_option arg val cfg = Inr cfg' \<Longrightarrow> cfg_port cfg \<noteq> 0 \<Longrightarrow> 0 < cfg_baud_rate cfg \<Longrightarrow>
     cfg_port cfg' \<noteq> 0 \<and> 0 < cfg_baud_rate cfg'"
  by (auto simp: apply_option_def Let_def split: if_splits)

lemma parse_args_ok:
  "parse_args args cfg = Inr cfg' \<Longrightarrow> cfg_port cfg \<noteq> 0 \<Longrightarrow> 0 < cfg_baud_rate cfg \<Longrightarrow>
     cfg_port cfg' \<noteq> 0 \<and> 0 < cfg_baud_rate cfg'"
proof (induction args arbitrary: cfg rule: length_induct)
  case (1 args)
  show ?case
  proof (cases args)
    case Nil
    with 1 show ?thesis by simp
  next
    case (Cons arg rest)
    show ?thesis
    proof (cases "arg = ''--help'' \<or> arg = ''--foreground''")
      case True
      with 1 Cons show ?thesis by auto
    next
      case False
      with 1(2) Cons obtain val rest' cfg1 where
          "rest = val # rest'" "apply_option arg val cfg = Inr cfg1" "parse_args rest' cfg1 = Inr cfg'"
        by (auto split: list.splits sum.splits)
      moreover have "length rest' < length args" using Cons calculation(1) by simp
      ultimately show ?thesis using 1(1) apply_option_ok [OF _ 1(3,4)] by blast
    qed
  qed
qed

definition render_args :: "Config \<Rightarrow> string list" where
  "render_args cfg =
     [''--port'', dec_str (unat (cfg_port cfg)), ''--serial-device'', cfg_serial_device cfg,
      ''--baud-rate'', dec_str (nat (cfg_baud_rate cfg)), ''--upload-dir'', cfg_upload_dir cfg,
      ''--scripts-dir'', cfg_scripts_dir cfg, ''--log-file'', cfg_log_file cfg,
      ''--pid-file'', cfg_pid_file cfg] @ (if cfg_foreground cfg then [''--foreground''] else [])"

text \<open>
  Every configuration can be given on the command line: parsing the options written out for a
  configuration with a port, a positive 32 bit baud rate and no request for help yields that
  configuration.
\<close>

theorem parse_args_roundtrip:
  assumes "cfg_port cfg \<noteq> 0" "0 < cfg_baud_rate cfg" "cfg_baud_rate cfg < 2 ^ 31" "\<not> cfg_help cfg"
  shows "parse_args (render_args cfg) Config_default = Inr cfg"
proof -
  have "unat (cfg_port cfg) < 2 ^ 16" using unsigned_less [of "cfg_port cfg"] by simp
  then have port: "word_of_int (atoi (dec_str (unat (cfg_port cfg)))) = cfg_port cfg"
    using atoi_dec_str [of "unat (cfg_port cfg)"] by simp
  have "nat (cfg_baud_rate cfg) < 2 ^ 31" using assms(2,3) by (simp add: nat_less_iff)
  then have baud: "atoi (dec_str (nat (cfg_baud_rate cfg))) = cfg_baud_rate cfg"
    using atoi_dec_str assms(2) by simp
  show ?thesis
    using assms port baud by (cases cfg) (simp add: render_args_def Config_default_def apply_option_def)
qed

theorem parse_args_roundtrip_witness:
  "parse_args (render_args (Config_default\<lparr>cfg_port := 9090, cfg_serial_device := ''/dev/ttyS1'',
      cfg_log_file := ''/tmp/l'', cfg_foreground := True\<rparr>)) Config_default =
   Inr (Config_default\<lparr>cfg_port := 9090, cfg_serial_device := ''/dev/ttyS1'',
      cfg_log_file := ''/tmp/l'', cfg_foreground := True\<rparr>)"
  by (rule parse_args_roundtrip) (simp_all add: Config_default_def)

text \<open>
  C40: the port is checked only after it was cut to 16 bits: a decimal number below \<open>2^31\<close> is refused
  exactly when it is a multiple of 65536, and otherwise its remainder is the port the daemon listens
  on; so 65537 is accepted as port 1. Whatever the arguments, an accepted configuration has a port
  other than 0 and a positive baud rate.
\<close>

theorem parse_args_port:
  assumes "n < 2 ^ 31"
  shows "parse_args [''--port'', dec_str n] Config_default =
      (if n mod 65536 = 0 then Inl (''Error: invalid port '' @ dec_str n)
       else Inr (Config_default\<lparr>cfg_port := of_nat (n mod 65536)\<rparr>))
    \<and> (case parse_args args Config_default of
         Inl _ \<Rightarrow> True | Inr cfg \<Rightarrow> cfg_port cfg \<noteq> 0 \<and> 0 < cfg_baud_rate cfg)"
proof -
  have "(of_nat n :: 16 word) = of_nat (n mod 65536)"
    by (simp add: word_unat_eq_iff unat_of_nat)
  moreover have "(of_nat n :: 16 word) = 0 \<longleftrightarrow> n mod 65536 = 0"
    by (simp add: word_of_nat_eq_0_iff dvd_eq_mod_eq_0)
  ultimately have "parse_args [''--port'', dec_str n] Config_default =
      (if n mod 65536 = 0 then Inl (''Error: invalid port '' @ dec_str n)
       else Inr (Config_default\<lparr>cfg_port := of_nat (n mod 65536)\<rparr>))"
    using assms by (simp add: apply_option_def atoi_dec_str)
  then show ?thesis
    using parse_args_ok [of args Config_default] by (auto simp: Config_default_def split: sum.splits)
qed

theorem parse_args_port_witness:
  "parse_args [''--port'', dec_str 65537] Config_default =
      (if 65537 mod 65536 = (0 :: nat) then Inl (''Error: invalid port '' @ dec_str 65537)
       else Inr (Config_default\<lparr>cfg_port := of_nat (65537 mod 65536)\<rparr>))
    \<and> (case parse_args [''--help''] Config_default of
         Inl _ \<Rightarrow> True | Inr cfg \<Rightarrow> cfg_port cfg \<noteq> 0 \<and> 0 < cfg_baud_rate cfg)"
  by (rule parse_args_port) simp

end
