(* ===== verification/Dirs.thy ===== *)
theory Dirs
  imports Config
begin

text \<open>
  Directories and the paths of the configuration: \<open>mkdir_p\<close> and the resolution of relative paths of
  \<open>src/main.cpp\<close>, over a tree of directories and files without symbolic links.

  A place in the tree is the list of names from the root. A path is walked name by name from the
  root or the working directory, as the system calls do: every name passed must be a directory, an
  empty name (two slashes, or one at the end) and \<open>.\<close> stay, \<open>..\<close> goes up.
\<close>

section \<open>The system calls\<close>

datatype node = Directory | RegularFile

type_synonym tree = "string list \<Rightarrow> node option"

fun components :: "string \<Rightarrow> string list" where
  "components [] = [[]]"
| "components (c # cs) =
     (if c = CHR ''/'' then [] # components cs
      else case components cs of n # ns \<Rightarrow> (c # n) # ns | [] \<Rightarrow> [[c]])"

definition start_dir :: "string list \<Rightarrow> string \<Rightarrow> string list" where
  "start_dir cwd path = (if take 1 path = ''/'' then [] else cwd)"

fun walk :: "tree \<Rightarrow> string list \<Rightarrow> string list \<Rightarrow> string list option" where
  "walk t cur [] = Some cur"
| "walk t cur (n # ns) =
     (if t cur \<noteq> Some Directory then None
      else if n = [] \<or> n = ''.'' then walk t cur ns
      else if n = ''..'' then walk t (butlast cur) ns
      else if t (cur @ [n]) = None then None
      else walk t (cur @ [n]) ns)"

text \<open>Whether \<open>stat\<close> succeeds (returns 0); it does for files too.\<close>

definition stat_ok :: "tree \<Rightarrow> string list \<Rightarrow> string \<Rightarrow> bool" where
  "stat_ok t cwd path \<longleftrightarrow> path \<noteq> [] \<and> walk t (start_dir cwd path) (components path) \<noteq> None"

datatype errno = ENOENT | ENOTDIR | EEXIST | EACCES

text \<open>
  \<open>mkdir\<close>: the last name (before any slashes at the end) is created in the directory the others
  lead to, if it is not there; the environment says where the process may create.
\<close>

definition mkdir_at :: "(string list \<Rightarrow> bool) \<Rightarrow> tree \<Rightarrow> string list \<Rightarrow> string \<Rightarrow> errno option \<times> tree" where
  "mkdir_at may t dir n =
     (if t dir = None then (Some ENOENT, t)
      else if t dir = Some RegularFile then (Some ENOTDIR, t)
      else if n = [] \<or> n = ''.'' \<or> n = ''..'' then (Some EEXIST, t)
      else if t (dir @ [n]) \<noteq> None then (Some EEXIST, t)
      else if \<not> may (dir @ [n]) then (Some EACCES, t)
      else (None, t(dir @ [n] \<mapsto> Directory)))"

definition mkdir :: "(string list \<Rightarrow> bool) \<Rightarrow> tree \<Rightarrow> string list \<Rightarrow> string \<Rightarrow> errno option \<times> tree" where
  "mkdir may t cwd path =
     (let ns = rev (dropWhile (\<lambda>n. n = []) (rev (components path)))
      in if path = [] then (Some ENOENT, t)
      else if ns = [] then (Some EEXIST, t)
      else case walk t (start_dir cwd path) (butlast ns) of
        None \<Rightarrow> (Some ENOENT, t)
      | Some dir \<Rightarrow> mkdir_at may t dir (last ns))"

section \<open>The code\<close>

text \<open>\<open>mkdir_p\<close>: the loop over the characters with \<open>tmp\<close>; the result and the tree.\<close>

fun mkdir_p_loop ::
    "(string list \<Rightarrow> bool) \<Rightarrow> string list \<Rightarrow> string \<Rightarrow> string \<Rightarrow> tree \<Rightarrow> bool \<times> tree" where
  "mkdir_p_loop may cwd tmp [] t = (True, t)"
| "mkdir_p_loop may cwd tmp (c # rest) t =
     (let tmp = tmp @ [c]
      in if c = CHR ''/'' \<or> rest = [] then
           if \<not> stat_ok t cwd tmp then
             (case mkdir may t cwd tmp of
                (Some e, t) \<Rightarrow> if e \<noteq> EEXIST then (False, t) else mkdir_p_loop may cwd tmp rest t
              | (None, t) \<Rightarrow> mkdir_p_loop may cwd tmp rest t)
           else mkdir_p_loop may cwd tmp rest t
         else mkdir_p_loop may cwd tmp rest t)"

definition mkdir_p :: "(string list \<Rightarrow> bool) \<Rightarrow> string list \<Rightarrow> string \<Rightarrow> tree \<Rightarrow> bool \<times> tree" where
  "mkdir_p may cwd path t = mkdir_p_loop may cwd [] path t"

text \<open>A path of the configuration made absolute; \<open>realpath(".")\<close> may fail, and then it is kept.\<close>

definition resolve_path :: "string option \<Rightarrow> string \<Rightarrow> string" where
  "resolve_path realpath p =
     (if p \<noteq> [] \<and> p ! 0 \<noteq> CHR ''/'' then
        (case realpath of Some resolved \<Rightarrow> resolved @ ''/'' @ p | None \<Rightarrow> p)
      else p)"

definition resolve_paths :: "string option \<Rightarrow> Config \<Rightarrow> Config" where
  "resolve_paths realpath cfg =
     (let cfg = cfg\<lparr>cfg_log_file := resolve_path realpath (cfg_log_file cfg)\<rparr>
      in cfg\<lparr>cfg_upload_dir := resolve_path realpath (cfg_upload_dir cfg)\<rparr>)"

definition default_log_file :: "Config \<Rightarrow> Config" where
  "default_log_file cfg =
     (if \<not> cfg_foreground cfg \<and> cfg_log_file cfg = [] then cfg\<lparr>cfg_log_file := ''/var/log/rk_firmware_flashd.log''\<rparr>
      else cfg)"

section \<open>Walking plain paths\<close>

definition tree_wf :: "tree \<Rightarrow> bool" where
  "tree_wf t \<longleftrightarrow> t [] = Some Directory \<and> (\<forall>p n. t (p @ [n]) \<noteq> None \<longrightarrow> t p = Some Directory)"

definition plain :: "string \<Rightarrow> bool" where
  "plain n \<longleftrightarrow> n \<noteq> [] \<and> n \<noteq> ''.'' \<and> n \<noteq> ''..'' \<and> CHR ''/'' \<notin> set n"

text \<open>The absolute path of a place.\<close>

definition abs_path :: "string list \<Rightarrow> string" where
  "abs_path ns = concat (map (\<lambda>n. CHR ''/'' # n) ns)"

lemma components_not_Nil [simp]: "components s \<noteq> []"
  by (cases s) (auto split: list.split)

lemma components_name:
  "CHR ''/'' \<notin> set n \<Longrightarrow> components (n @ s) = (n @ hd (components s)) # tl (components s)"
  by (induction n) auto

lemma components_abs_path:
  "list_all plain ns \<Longrightarrow> components (abs_path ns @ s) = (if ns = [] then components s
     else [] # butlast ns @ (last ns @ hd (components s)) # tl (components s))"
proof (induction ns)
  case Nil
  then show ?case by (simp add: abs_path_def)
next
  case (Cons n ns)
  then have "CHR ''/'' \<notin> set n" by (simp add: plain_def)
  with Cons show ?case
    by (cases ns) (simp_all add: abs_path_def components_name)
qed

lemma components_path [simp]:
  assumes "ns \<noteq> []" "list_all plain ns"
  shows "components (abs_path ns) = [] # ns" "components (abs_path ns @ ''/'') = [] # ns @ [[]]"
  using components_abs_path [OF assms(2), of "[]"] components_abs_path [OF assms(2), of "''/''"] assms(1)
  by simp_all

lemma abs_path_start [simp]: "ns \<noteq> [] \<Longrightarrow> start_dir cwd (abs_path ns @ s) = []"
  by (cases ns) (simp_all add: abs_path_def start_dir_def)

lemma tree_wf_parent: "tree_wf t \<Longrightarrow> t (p @ [n]) \<noteq> None \<Longrightarrow> t p = Some Directory"
  unfolding tree_wf_def by blast

lemma tree_wf_above: "tree_wf t \<Longrightarrow> t (p @ ns) \<noteq> None \<Longrightarrow> ns \<noteq> [] \<Longrightarrow> t p = Some Directory"
proof (induction ns arbitrary: p)
  case (Cons n ns)
  then have "t (p @ [n]) \<noteq> None"
    by (cases ns) (auto dest!: Cons.IH [of "p @ [n]"])
  with Cons.prems(1) show ?case by (rule tree_wf_parent)
qed simp

lemma walk_plain:
  "tree_wf t \<Longrightarrow> list_all plain ns \<Longrightarrow> t cur \<noteq> None \<Longrightarrow>
     walk t cur (ns @ ms) = (if t (cur @ ns) = None then None else walk t (cur @ ns) ms)"
proof (induction ns arbitrary: cur)
  case (Cons n ns)
  then have n: "n \<noteq> []" "n \<noteq> ''.''" "n \<noteq> ''..''" by (simp_all add: plain_def)
  have up: "t cur = Some Directory" if "t (cur @ n # ns) \<noteq> None"
    using tree_wf_above [OF Cons.prems(1) that] by simp
  have mid: "t (cur @ [n]) \<noteq> None" if "t (cur @ n # ns) \<noteq> None"
    using tree_wf_above [OF Cons.prems(1), of "cur @ [n]" ns] that by (cases ns) auto
  show ?case
  proof (cases "t (cur @ n # ns) = None")
    case True
    then show ?thesis
      using n Cons.IH [of "cur @ [n]"] Cons.prems by auto
  next
    case False
    then show ?thesis
      using n up mid Cons.IH [of "cur @ [n]"] Cons.prems by auto
  qed
qed auto

lemma stat_path:
  assumes "tree_wf t" "ns \<noteq> []" "list_all plain ns"
  shows "stat_ok t cwd (abs_path ns) \<longleftrightarrow> t ns \<noteq> None"
    and "stat_ok t cwd (abs_path ns @ ''/'') \<longleftrightarrow> t ns = Some Directory"
proof -
  have root: "t [] = Some Directory" using assms(1) by (simp add: tree_wf_def)
  have ne: "abs_path ns \<noteq> []" using assms(2) by (cases ns) (simp_all add: abs_path_def)
  show "stat_ok t cwd (abs_path ns) \<longleftrightarrow> t ns \<noteq> None"
    using assms walk_plain [OF assms(1,3), of "[]" "[]"] root ne abs_path_start [OF assms(2), of cwd "[]"]
    by (simp add: stat_ok_def)
  show "stat_ok t cwd (abs_path ns @ ''/'') \<longleftrightarrow> t ns = Some Directory"
    using assms walk_plain [OF assms(1,3), of "[]" "[[]]"] root
    by (auto simp: stat_ok_def)
qed

lemma mkdir_path:
  assumes "tree_wf t" "list_all plain ns" "plain n" "s \<in> {[], ''/''}"
  shows "mkdir may t cwd (abs_path (ns @ [n]) @ s) = (if t ns = None then (Some ENOENT, t) else mkdir_at may t ns n)"
proof -
  have root: "t [] = Some Directory" using assms(1) by (simp add: tree_wf_def)
  have n: "n \<noteq> []" using assms(3) by (simp add: plain_def)
  have "components (abs_path (ns @ [n]) @ s) = [] # (ns @ [n]) @ (if s = [] then [] else [[]])"
    using assms(2-4) components_path [of "ns @ [n]"] by auto
  then have "rev (dropWhile (\<lambda>n. n = []) (rev (components (abs_path (ns @ [n]) @ s)))) = [] # ns @ [n]"
    using n by simp
  moreover have "abs_path (ns @ [n]) @ s \<noteq> []"
    by (simp add: abs_path_def)
  moreover have "walk t [] ([] # ns) = (if t ns = None then None else Some ns)"
    using walk_plain [OF assms(1,2), of "[]" "[]"] root by simp
  moreover have "start_dir cwd (abs_path (ns @ [n]) @ s) = []" by (rule abs_path_start) simp
  ultimately show ?thesis
    unfolding mkdir_def Let_def by (simp del: walk.simps append_is_Nil_conv)
qed

section \<open>What the loop does\<close>

text \<open>The reference: the missing places on the way to a place are made, from the root.\<close>

fun make_dirs :: "(string list \<Rightarrow> bool) \<Rightarrow> string list \<Rightarrow> string list \<Rightarrow> tree \<Rightarrow> bool \<times> tree" where
  "make_dirs may p [] t = (True, t)"
| "make_dirs may p (n # ns) t =
     (if t (p @ [n]) \<noteq> None then make_dirs may (p @ [n]) ns t
      else if t p = Some Directory \<and> may (p @ [n]) then
        make_dirs may (p @ [n]) ns (t(p @ [n] \<mapsto> Directory))
      else (False, t))"

lemma tree_wf_add: "tree_wf t \<Longrightarrow> t p = Some Directory \<Longrightarrow> tree_wf (t(p @ [n] \<mapsto> Directory))"
  unfolding tree_wf_def by (auto simp: append_eq_append_conv2)

text \<open>One test of the loop, at the end of a name.\<close>

lemma mkdir_p_test:
  assumes "tree_wf t" "list_all plain p" "plain n" "t p \<noteq> None"
    and "s = [] \<and> rest = [] \<or> s = ''/''" "abs_path (p @ [n]) @ s = tmp @ [c]" "c = CHR ''/'' \<or> rest = []"
  shows "mkdir_p_loop may cwd tmp (c # rest) t =
    (if t (p @ [n]) \<noteq> None then mkdir_p_loop may cwd (tmp @ [c]) rest t
     else if t p = Some Directory \<and> may (p @ [n]) then mkdir_p_loop may cwd (tmp @ [c]) rest (t(p @ [n] \<mapsto> Directory))
     else (False, t))"
proof -
  have s: "s \<in> {[], ''/''}" using assms(5) by auto
  have pn: "list_all plain (p @ [n])" "p @ [n] \<noteq> []" using assms(2,3) by simp_all
  have stat: "stat_ok t cwd (tmp @ [c]) \<longleftrightarrow> (if s = [] then t (p @ [n]) \<noteq> None else t (p @ [n]) = Some Directory)"
    using stat_path [OF assms(1) pn(2,1)] s assms(6) by auto
  have mk: "mkdir may t cwd (tmp @ [c]) = mkdir_at may t p n"
    using mkdir_path [OF assms(1-3) s] assms(4,6) by (simp del: append_assoc)
  have up: "t p = Some Directory" if "t (p @ [n]) \<noteq> None"
    using tree_wf_parent [OF assms(1) that] .
  have n: "n \<noteq> []" "n \<noteq> ''.''" "n \<noteq> ''..''" using assms(3) by (simp_all add: plain_def)
  obtain a where "t p = Some a" using assms(4) by blast
  then show ?thesis
    unfolding mkdir_p_loop.simps Let_def stat mk
    using assms(7) up n by (cases a) (auto simp: mkdir_at_def split: if_splits)
qed

lemma mkdir_p_name:
  "CHR ''/'' \<notin> set n \<Longrightarrow> rest \<noteq> [] \<Longrightarrow> mkdir_p_loop may cwd tmp (n @ rest) t = mkdir_p_loop may cwd (tmp @ n) rest t"
  by (induction n arbitrary: tmp) (auto simp: Let_def)

lemma mkdir_p_make_dirs:
  assumes "tree_wf t" "list_all plain p" "list_all plain ns" "ns \<noteq> []" "t p \<noteq> None" "s \<in> {[], ''/''}"
  shows "mkdir_p_loop may cwd (abs_path p @ ''/'') (tl (abs_path ns) @ s) t = make_dirs may p ns t"
  using assms
proof (induction ns arbitrary: p t)
  case (Cons n ns)
  then have n: "plain n" "CHR ''/'' \<notin> set n" "n \<noteq> []" by (simp_all add: plain_def)
  have path: "abs_path (p @ [n]) = abs_path p @ ''/'' @ n" by (simp add: abs_path_def)
  show ?case
  proof (cases "ns = []")
    case True
    obtain m c where nc: "n = m @ [c]" using n(3) by (cases n rule: rev_cases) auto
    have last: "tl (abs_path (n # ns)) @ s = (if s = [] then m @ [c] else n @ ''/'')"
      using True Cons.prems(6) nc by (auto simp: abs_path_def)
    show ?thesis
    proof (cases "s = []")
      case True
      have "CHR ''/'' \<notin> set m" using n(2) nc by simp
      then show ?thesis
        using mkdir_p_test [OF Cons.prems(1,2) n(1) Cons.prems(5), of "[]" "[]" "abs_path p @ ''/'' @ m" c] last True
          \<open>ns = []\<close> path nc by (simp add: mkdir_p_name)
    next
      case False
      then show ?thesis
        using mkdir_p_test [OF Cons.prems(1,2) n(1) Cons.prems(5), of "''/''" "[]" "abs_path p @ ''/'' @ n" "CHR ''/''"]
          last \<open>ns = []\<close> path n(2) by (simp add: mkdir_p_name)
    qed
  next
    case False
    have rest: "tl (abs_path (n # ns)) @ s = n @ CHR ''/'' # tl (abs_path ns) @ s"
      using False by (cases ns) (simp_all add: abs_path_def)
    have pn: "list_all plain (p @ [n])" "list_all plain ns" using Cons.prems(2,3) n(1) by simp_all
    have IH: "t' (p @ [n]) \<noteq> None \<Longrightarrow> tree_wf t' \<Longrightarrow>
        mkdir_p_loop may cwd (abs_path p @ ''/'' @ n @ ''/'') (tl (abs_path ns) @ s) t' = make_dirs may (p @ [n]) ns t'" for t'
      using Cons.IH [OF _ pn False _ Cons.prems(6), of t'] path by simp
    show ?thesis
      using mkdir_p_test [OF Cons.prems(1,2) n(1) Cons.prems(5), of "''/''" "tl (abs_path ns) @ s" "abs_path p @ ''/'' @ n" "CHR ''/''"]
        IH [of t] IH [of "t(p @ [n] \<mapsto> Directory)"] tree_wf_add [OF Cons.prems(1)] Cons.prems(1) path rest n(2)
      by (auto simp: mkdir_p_name simp del: mkdir_p_loop.simps)
  qed
qed simp

lemma mkdir_p_eq:
  assumes "tree_wf t" "list_all plain ns" "ns \<noteq> []" "s \<in> {[], ''/''}"
  shows "mkdir_p may cwd (abs_path ns @ s) t = make_dirs may [] ns t"
proof -
  have root: "t [] = Some Directory" using assms(1) by (simp add: tree_wf_def)
  then have "stat_ok t cwd ''/''" by (simp add: stat_ok_def start_dir_def)
  then have "mkdir_p may cwd (CHR ''/'' # tl (abs_path ns) @ s) t = mkdir_p_loop may cwd ''/'' (tl (abs_path ns) @ s) t"
    by (simp add: mkdir_p_def)
  moreover have "CHR ''/'' # tl (abs_path ns) @ s = abs_path ns @ s"
    using assms(3) by (cases ns) (simp_all add: abs_path_def)
  moreover have "mkdir_p_loop may cwd ''/'' (tl (abs_path ns) @ s) t = make_dirs may [] ns t"
    using mkdir_p_make_dirs [OF assms(1) _ assms(2,3) _ assms(4), of "[]"] root by (simp add: abs_path_def)
  ultimately show ?thesis by (metis append_Cons)
qed

lemma make_dirs_result:
  "t p \<noteq> None \<Longrightarrow> fst (make_dirs may p ns t) \<longleftrightarrow> (\<forall>k<length ns. t (p @ take (Suc k) ns) = None \<longrightarrow>
     may (p @ take (Suc k) ns) \<and> t (p @ take k ns) \<noteq> Some RegularFile)"
proof (induction ns arbitrary: p t)
  case (Cons n ns)
  let ?p = "p @ [n]"
  obtain t' where t': "t' = t(?p \<mapsto> Directory)" by simp
  have IH: "fst (make_dirs may ?p ns s) \<longleftrightarrow> (\<forall>k<length ns. s (?p @ take (Suc k) ns) = None \<longrightarrow>
      may (?p @ take (Suc k) ns) \<and> s (?p @ take k ns) \<noteq> Some RegularFile)" if "s ?p \<noteq> None" for s
    using Cons.IH [of s ?p] that by blast
  have all: "(\<forall>k<length (n # ns). t (p @ take (Suc k) (n # ns)) = None \<longrightarrow>
        may (p @ take (Suc k) (n # ns)) \<and> t (p @ take k (n # ns)) \<noteq> Some RegularFile) \<longleftrightarrow>
      (t ?p = None \<longrightarrow> may ?p \<and> t p \<noteq> Some RegularFile) \<and> (\<forall>k<length ns. t (?p @ take (Suc k) ns) = None \<longrightarrow>
        may (?p @ take (Suc k) ns) \<and> t (?p @ take k ns) \<noteq> Some RegularFile)"
    by (simp add: All_less_Suc2)
  have "t p = Some Directory \<longleftrightarrow> t p \<noteq> Some RegularFile" using Cons.prems node.exhaust by (cases "t p") auto
  moreover have "(\<forall>k<length ns. t' (?p @ take (Suc k) ns) = None \<longrightarrow>
        may (?p @ take (Suc k) ns) \<and> t' (?p @ take k ns) \<noteq> Some RegularFile) \<longleftrightarrow>
      (\<forall>k<length ns. t (?p @ take (Suc k) ns) = None \<longrightarrow>
        may (?p @ take (Suc k) ns) \<and> t (?p @ take k ns) \<noteq> Some RegularFile)" if "t ?p = None"
    using that by (intro all_cong) (auto simp: t')
  ultimately show ?case
    unfolding all using IH [of t] IH [of t'] by (auto simp add: t' [symmetric] simp del: fun_upd_apply) (simp_all add: t')
qed simp

lemma make_dirs_tree:
  "fst (make_dirs may p ns t) \<Longrightarrow> snd (make_dirs may p ns t) q =
     (if t q = None \<and> (\<exists>k<length ns. q = p @ take (Suc k) ns) then Some Directory else t q)"
proof (induction ns arbitrary: p t)
  case (Cons n ns)
  obtain t' where t': "t' = t(p @ [n] \<mapsto> Directory)" by simp
  have ex: "(\<exists>k<length (n # ns). q = p @ take (Suc k) (n # ns)) \<longleftrightarrow>
      q = p @ [n] \<or> (\<exists>k<length ns. q = (p @ [n]) @ take (Suc k) ns)"
    by (auto simp: Ex_less_Suc2)
  have "t' q = (if q = p @ [n] then Some Directory else t q)" by (simp add: t')
  then show ?case
    unfolding ex using Cons.IH [of "p @ [n]" t] Cons.IH [of "p @ [n]" t'] Cons.prems
    by (auto simp: t' [symmetric] simp del: fun_upd_apply split: if_splits)
qed simp

lemma make_dirs_keeps: "t q \<noteq> None \<Longrightarrow> snd (make_dirs may p ns t) q = t q"
proof (induction ns arbitrary: p t)
  case (Cons n ns)
  then show ?case
    using Cons.IH [of "t(p @ [n] \<mapsto> Directory)"] by auto
qed simp

lemma make_dirs_wf: "tree_wf t \<Longrightarrow> tree_wf (snd (make_dirs may p ns t))"
  by (induction ns arbitrary: p t) (simp_all add: tree_wf_add)

section \<open>Properties\<close>

text \<open>
  C38: \<open>mkdir_p\<close> does what \<open>mkdir -p\<close> does. For an absolute path of plain names (with or without a slash
  at the end) it succeeds exactly if every missing place on the way may be created and none of them
  would be created below a file; then exactly the missing places are new directories. Whatever the
  result, nothing that was there is changed. It does not ask that the last place is a directory: if a
  file is there, the result is success.
\<close>

theorem mkdir_p_correct:
  assumes "tree_wf t" "list_all plain ns" "ns \<noteq> []" "s \<in> {[], ''/''}"
    and "mkdir_p may cwd (abs_path ns @ s) t = (ok, t')"
  shows "(ok \<longleftrightarrow> (\<forall>k<length ns. t (take (Suc k) ns) = None \<longrightarrow>
        may (take (Suc k) ns) \<and> t (take k ns) \<noteq> Some RegularFile))
    \<and> (ok \<longrightarrow> t' q = (if t q = None \<and> (\<exists>k<length ns. q = take (Suc k) ns) then Some Directory else t q))
    \<and> (t q \<noteq> None \<longrightarrow> t' q = t q) \<and> tree_wf t'"
proof -
  have r: "make_dirs may [] ns t = (ok, t')" using mkdir_p_eq [OF assms(1-4)] assms(5) by simp
  have "t [] \<noteq> None" using assms(1) by (simp add: tree_wf_def)
  then show ?thesis
    using make_dirs_result [of t "[]" may ns] make_dirs_tree [of may "[]" ns t q] make_dirs_keeps [of t q may "[]" ns]
      make_dirs_wf [OF assms(1), of may "[]" ns] by (simp add: r)
qed

text \<open>A small tree, with a directory and a file.\<close>

definition tree_ex :: tree where
  "tree_ex = [[] \<mapsto> Directory, [''tmp''] \<mapsto> Directory, [''tmp'', ''f''] \<mapsto> RegularFile]"

lemma tree_wf_ex: "tree_wf tree_ex"
  by (auto simp: tree_wf_def tree_ex_def)

theorem mkdir_p_correct_witness:
  "\<exists>ok t'. mkdir_p (\<lambda>_. True) [] (abs_path [''tmp'', ''a'', ''b''] @ ''/'') tree_ex = (ok, t')
    \<and> ok \<and> t' [''tmp'', ''a'', ''b''] = Some Directory \<and> t' [''tmp'', ''f''] = Some RegularFile \<and> tree_wf t'"
proof -
  let ?ns = "[''tmp'', ''a'', ''b'']"
  obtain ok t' where r: "mkdir_p (\<lambda>_. True) [] (abs_path ?ns @ ''/'') tree_ex = (ok, t')" by fastforce
  have pl: "list_all plain ?ns" by (simp add: plain_def)
  note spec = mkdir_p_correct [OF tree_wf_ex pl _ _ r]
  have ok using spec [of "[]"] by (simp add: tree_ex_def All_less_Suc)
  moreover have "t' ?ns = Some Directory" using spec [of ?ns] \<open>ok\<close> by (auto simp: tree_ex_def)
  moreover have "t' [''tmp'', ''f''] = Some RegularFile" "tree_wf t'"
    using spec [of "[''tmp'', ''f'']"] by (simp_all add: tree_ex_def)
  ultimately show ?thesis using r by blast
qed

end
