(* ===== verification/Daemonize.thy ===== *)
theory Daemonize
  imports Config Files
begin

unbundle bit_operations_syntax

text \<open>
  Becoming a daemon: \<open>src/daemon.cpp\<close>. A process is what of it the code changes: working directory,
  file mode mask, descriptor table (a list, by number, of what each descriptor is open on), signal
  handlers and the flag \<open>g_running\<close>. What \<open>fork\<close>, \<open>setsid\<close> and \<open>chdir\<close> return is the environment's;
  a positive result of \<open>fork\<close> is the parent's view of it.
\<close>

section \<open>The process\<close>

datatype signal = SIGTERM | SIGINT | SIGHUP | SIGCHLD | SIGPIPE

record proc =
  pr_cwd :: string
  pr_umask :: "12 word"
  pr_fds :: "string option list"
  pr_handled :: "signal list"
  pr_running :: bool

definition close_fd :: "nat \<Rightarrow> string option list \<Rightarrow> string option list" where
  "close_fd fd t = t[fd := None]"

definition set_fd :: "nat \<Rightarrow> string \<Rightarrow> string option list \<Rightarrow> string option list" where
  "set_fd fd what t =
     (if fd < length t then t[fd := Some what] else t @ replicate (fd - length t) None @ [Some what])"

text \<open>The number \<open>open\<close> returns is the lowest free one.\<close>

fun lowest_free :: "string option list \<Rightarrow> nat" where
  "lowest_free [] = 0"
| "lowest_free (None # t) = 0"
| "lowest_free (Some _ # t) = Suc (lowest_free t)"

definition dup2 :: "nat \<Rightarrow> nat \<Rightarrow> string option list \<Rightarrow> string option list" where
  "dup2 old new t = (case (if old < length t then t ! old else None) of Some what \<Rightarrow> set_fd new what t | None \<Rightarrow> t)"

text \<open>A path as the process sees it from its working directory.\<close>

definition from_cwd :: "string \<Rightarrow> string \<Rightarrow> string" where
  "from_cwd cwd p =
     (if p = [] \<or> take 1 p = ''/'' then p else if cwd = ''/'' then cwd @ p else cwd @ ''/'' @ p)"

text \<open>The permissions of a file \<open>fopen\<close> creates.\<close>

definition fopen_mode :: "12 word \<Rightarrow> 12 word" where
  "fopen_mode um = 0x1B6 AND NOT um"

section \<open>The code\<close>

fun close_down :: "nat \<Rightarrow> string option list \<Rightarrow> string option list" where
  "close_down 0 t = close_fd 0 t"
| "close_down (Suc fd) t = close_down fd (close_fd (Suc fd) t)"

definition close_all :: "int \<Rightarrow> string option list \<Rightarrow> string option list" where
  "close_all open_max t = (if open_max < 0 then t else close_down (nat open_max) t)"

definition redirect_std :: "bool \<Rightarrow> string option list \<Rightarrow> string option list" where
  "redirect_std opens t =
     (if \<not> opens then t
      else let fd = lowest_free t; t = set_fd fd ''/dev/null'' t;
               t = dup2 fd 0 t; t = dup2 fd 1 t; t = dup2 fd 2 t
      in if 2 < fd then close_fd fd t else t)"

definition write_pid_file :: "io \<Rightarrow> string \<Rightarrow> int \<Rightarrow> fs \<Rightarrow> fs" where
  "write_pid_file io path pid fs =
     (case fopen_wb io fs path of
        (Some f, fs) \<Rightarrow> (let (_, f) = fwrite io f (bytes_of (dec_str_int pid @ [CHR 0x0A])) in fclose io fs f)
      | (None, fs) \<Rightarrow> fs)"

record daemon_env =
  de_fork :: int
  de_setsid :: int
  de_fork2 :: int
  de_chdir :: int
  de_open_max :: int
  de_devnull :: bool
  de_pid :: int

datatype daemonized = ParentExits | DaemonizeFails | Daemonized proc fs

definition daemonize :: "io \<Rightarrow> daemon_env \<Rightarrow> Config \<Rightarrow> proc \<times> fs \<Rightarrow> daemonized" where
  "daemonize io e cfg = (\<lambda>(p, fs).
     if de_fork e < 0 then DaemonizeFails
     else if 0 < de_fork e then ParentExits
     else if de_setsid e < 0 then DaemonizeFails
     else if de_fork2 e < 0 then DaemonizeFails
     else if 0 < de_fork2 e then ParentExits
     else let p = p\<lparr>pr_umask := 0\<rparr>
     in if de_chdir e < 0 then DaemonizeFails
     else let p = p\<lparr>pr_cwd := ''/''\<rparr>;
              p = p\<lparr>pr_fds := close_all (de_open_max e) (pr_fds p)\<rparr>;
              p = p\<lparr>pr_fds := redirect_std (de_devnull e) (pr_fds p)\<rparr>
     in Daemonized p (write_pid_file io (from_cwd (pr_cwd p) (cfg_pid_file cfg)) (de_pid e) fs))"

text \<open>An \<open>unlink\<close> that fails leaves a warning in the log only.\<close>

definition cleanup_pid_file :: "io \<Rightarrow> Config \<Rightarrow> proc \<times> fs \<Rightarrow> fs" where
  "cleanup_pid_file io cfg = (\<lambda>(p, fs). unlink io fs (from_cwd (pr_cwd p) (cfg_pid_file cfg)))"

definition is_running :: "proc \<Rightarrow> bool" where
  "is_running p \<longleftrightarrow> pr_running p"

definition request_shutdown :: "proc \<Rightarrow> proc" where
  "request_shutdown p = p\<lparr>pr_running := False\<rparr>"

definition signal_handler :: "signal \<Rightarrow> proc \<Rightarrow> proc" where
  "signal_handler sig p =
     (case sig of SIGTERM \<Rightarrow> p\<lparr>pr_running := False\<rparr> | SIGINT \<Rightarrow> p\<lparr>pr_running := False\<rparr> | SIGHUP \<Rightarrow> p | _ \<Rightarrow> p)"

definition setup_signals :: "proc \<Rightarrow> proc" where
  "setup_signals p = p\<lparr>pr_handled := [SIGTERM, SIGINT, SIGHUP] @ pr_handled p\<rparr>"

text \<open>
  A signal arrives: the handler runs, or the default action (None: the process ends; only a child's
  end is ignored).
\<close>

definition deliver :: "signal \<Rightarrow> proc \<Rightarrow> proc option" where
  "deliver sig p =
     (if sig \<in> set (pr_handled p) then Some (signal_handler sig p) else if sig = SIGCHLD then Some p else None)"

section \<open>The descriptors\<close>

lemma close_down_nth: "length (close_down n t) = length t \<and>
    (i < length t \<longrightarrow> close_down n t ! i = (if i \<le> n then None else t ! i))"
proof (induction n arbitrary: t)
  case 0
  then show ?case by (simp add: close_fd_def nth_list_update)
next
  case (Suc n)
  then show ?case using Suc [of "close_fd (Suc n) t"] by (auto simp: close_fd_def nth_list_update)
qed

lemma close_all_table:
  "int (length t) \<le> open_max + 1 \<Longrightarrow> close_all open_max t = replicate (length t) None"
  using close_down_nth [of "nat open_max" t] by (auto simp: close_all_def intro!: nth_equalityI)

definition fd_at :: "string option list \<Rightarrow> nat \<Rightarrow> string option" where
  "fd_at t fd = (if fd < length t then t ! fd else None)"

lemma fd_at_set: "fd_at (set_fd fd what t) i = (if i = fd then Some what else fd_at t i)"
  by (auto simp: fd_at_def set_fd_def nth_list_update nth_append nth_Cons')

lemma fd_at_dup2: "fd_at t old = Some what \<Longrightarrow> fd_at (dup2 old new t) i = (if i = new then Some what else fd_at t i)"
  using fd_at_set by (auto simp: dup2_def fd_at_def [of t old] split: if_splits)

lemma redirect_empty:
  "fd_at (redirect_std True (replicate n None)) i = (if i < 3 then Some ''/dev/null'' else None)"
proof -
  have free: "lowest_free (replicate n None) = 0" by (cases n) simp_all
  have none: "fd_at (replicate n None) i = None" for i by (simp add: fd_at_def)
  show ?thesis
    by (simp add: redirect_std_def free Let_def fd_at_dup2 [where what = "''/dev/null''"] fd_at_set none)
qed

section \<open>Properties\<close>

text \<open>
  A daemonized process holds nothing of the terminal it was started from: whatever descriptors
  it inherited (numbers up to the system's maximum), afterwards exactly the three standard ones are
  open, on \<open>/dev/null\<close>; its working directory is the root. Its file mode mask is empty, so the files
  it creates (log, PID file and uploaded firmware) may be written by every user.
\<close>

theorem daemonized_process:
  assumes "daemonize io e cfg (p, fs) = Daemonized p' fs'"
    and "int (length (pr_fds p)) \<le> de_open_max e + 1" "de_devnull e"
  shows "fd_at (pr_fds p') fd = (if fd < 3 then Some ''/dev/null'' else None)
    \<and> pr_cwd p' = ''/'' \<and> fopen_mode (pr_umask p') = 0x1B6 \<and> pr_handled p' = pr_handled p \<and> pr_running p' = pr_running p"
proof -
  have "p' = p\<lparr>pr_umask := 0, pr_cwd := ''/'', pr_fds := redirect_std True (replicate (length (pr_fds p)) None)\<rparr>"
    using assms(1,3) close_all_table [OF assms(2)] by (auto simp: daemonize_def Let_def split: if_splits)
  then show ?thesis
    by (simp add: redirect_empty fopen_mode_def)
qed

definition daemon_env_ok :: daemon_env where
  "daemon_env_ok =
     \<lparr>de_fork = 0, de_setsid = 7, de_fork2 = 0, de_chdir = 0, de_open_max = 1023, de_devnull = True, de_pid = 421\<rparr>"

definition proc_ex :: proc where
  "proc_ex =
     \<lparr>pr_cwd = ''/root'', pr_umask = 0x012, pr_fds = [Some ''tty'', Some ''tty'', Some ''tty'', None, Some ''db''],
      pr_handled = [], pr_running = True\<rparr>"

theorem daemonized_process_witness:
  "\<exists>p' fs'. daemonize io_all_ok daemon_env_ok Config_default (proc_ex, fs_empty) = Daemonized p' fs'
    \<and> (fd_at (pr_fds p') 4 = (if (4 :: nat) < 3 then Some ''/dev/null'' else None)
    \<and> pr_cwd p' = ''/'' \<and> fopen_mode (pr_umask p') = 0x1B6 \<and> pr_handled p' = pr_handled proc_ex \<and> pr_running p' = pr_running proc_ex)"
proof -
  obtain p' fs' where r: "daemonize io_all_ok daemon_env_ok Config_default (proc_ex, fs_empty) = Daemonized p' fs'"
    by (simp add: daemonize_def daemon_env_ok_def Let_def)
  have "int (length (pr_fds proc_ex)) \<le> de_open_max daemon_env_ok + 1" "de_devnull daemon_env_ok"
    by (simp_all add: proc_ex_def daemon_env_ok_def)
  from daemonized_process [OF r this, of 4] r show ?thesis by blast
qed

lemma write_pid_file_content:
  assumes "io_create io (c_str path)" "io_writes_ok io" "fs_wf fs"
  shows "fs_lookup (write_pid_file io path pid fs) path = Some (bytes_of (dec_str_int pid @ [CHR 0x0A]))"
    and "c_str q \<noteq> c_str path \<Longrightarrow> fs_lookup (write_pid_file io path pid fs) q = fs_lookup fs q"
proof -
  let ?b = "bytes_of (dec_str_int pid @ [CHR 0x0A])"
  obtain f fs1 where o: "fopen_wb io fs path = (Some f, fs1)"
    using fopen_wb_ok [OF assms(1)] by blast
  have w: "write_pid_file io path pid fs = fclose io fs1 (snd (fwrite io f ?b))"
    by (simp add: write_pid_file_def o Let_def split: prod.split)
  have st: "fs_staged fs1 path (snd (fwrite io f ?b)) ([] @ ?b)"
    by (rule fs_store.wr_good_staged [OF assms(2) fs_store.op_staged [OF o]])
  show "fs_lookup (write_pid_file io path pid fs) path = Some ?b"
    unfolding w using fs_store.cl_staged [OF assms(2) st] by simp
  have "fs_names fs1 (c_str path) = Some (st_inode (snd (fwrite io f ?b)))"
    using st by (simp add: fs_staged_def)
  then show "c_str q \<noteq> c_str path \<Longrightarrow> fs_lookup (write_pid_file io path pid fs) q = fs_lookup fs q"
    unfolding w using fclose_other [OF fs_wf_fopen [OF assms(3) o]] fopen_wb_other [OF assms(3) o] by simp
qed

text \<open>
  The PID file. A daemonized process leaves its number in the PID file, in a form a reader of
  decimal numbers gets back, touches no other file, and \<open>cleanup_pid_file\<close> removes exactly that file,
  also for a relative path (both resolve it from the root directory).
\<close>

theorem pid_file_roundtrip:
  assumes "daemonize io e cfg (p, fs) = Daemonized p' fs'" "0 < de_pid e" "de_pid e < 2 ^ 22"
    and "io_create io (c_str (from_cwd ''/'' (cfg_pid_file cfg)))" "io_writes_ok io" "fs_wf fs"
    and "io_unlink io (c_str (from_cwd ''/'' (cfg_pid_file cfg)))" "c_str q \<noteq> c_str (from_cwd ''/'' (cfg_pid_file cfg))"
  shows "(\<exists>bs. fs_lookup fs' (from_cwd ''/'' (cfg_pid_file cfg)) = Some bs \<and> strtoul_10 (chars_of bs) = word_of_int (de_pid e))
    \<and> fs_lookup (cleanup_pid_file io cfg (p', fs')) (from_cwd ''/'' (cfg_pid_file cfg)) = None
    \<and> fs_lookup fs' q = fs_lookup fs q \<and> fs_lookup (cleanup_pid_file io cfg (p', fs')) q = fs_lookup fs q"
proof -
  let ?path = "from_cwd ''/'' (cfg_pid_file cfg)" and ?s = "dec_str_int (de_pid e)"
  have fs': "fs' = write_pid_file io ?path (de_pid e) fs" and cwd: "pr_cwd p' = ''/''"
    using assms(1) by (auto simp: daemonize_def Let_def split: if_splits)
  have s: "?s = dec_str (nat (de_pid e))" using assms(2) by (simp add: dec_str_int_def)
  have "nat (de_pid e) < 2 ^ 64" using assms(3) by simp
  then have "strtoul_10 ?s = word_of_int (de_pid e)"
    unfolding s using assms(2) by (subst strtoul_10_dec_str) (simp_all add: of_nat_nat)
  moreover have "strtoul_10 (?s @ [CHR 0x0A]) = strtoul_10 ?s"
    unfolding s by (rule strtoul_10_prefix) (auto simp: list_all_iff is_digit_def [of "CHR 0x0A"] dest: dec_str_digits)
  ultimately show ?thesis
    using write_pid_file_content [OF assms(4-6), where pid = "de_pid e"] assms(7,8)
    by (simp add: fs' cleanup_pid_file_def cwd fs_lookup_unlink)
qed

theorem pid_file_roundtrip_witness:
  "\<exists>p' fs'. daemonize io_all_ok daemon_env_ok Config_default (proc_ex, fs_empty) = Daemonized p' fs'
    \<and> ((\<exists>bs. fs_lookup fs' ''/var/run/rk_firmware_flashd.pid'' = Some bs \<and> strtoul_10 (chars_of bs) = word_of_int 421)
    \<and> fs_lookup (cleanup_pid_file io_all_ok Config_default (p', fs')) ''/var/run/rk_firmware_flashd.pid'' = None
    \<and> fs_lookup fs' ''/x'' = fs_lookup fs_empty ''/x'' \<and> fs_lookup (cleanup_pid_file io_all_ok Config_default (p', fs')) ''/x'' = fs_lookup fs_empty ''/x'')"
proof -
  obtain p' fs' where r: "daemonize io_all_ok daemon_env_ok Config_default (proc_ex, fs_empty) = Daemonized p' fs'"
    by (simp add: daemonize_def daemon_env_ok_def Let_def)
  have path: "from_cwd ''/'' (cfg_pid_file Config_default) = ''/var/run/rk_firmware_flashd.pid''"
    by (simp add: from_cwd_def Config_default_def)
  have pid: "de_pid daemon_env_ok = 421" by (simp add: daemon_env_ok_def)
  have "c_str ''/x'' \<noteq> c_str ''/var/run/rk_firmware_flashd.pid''" by (simp add: cstr_simps)
  then show ?thesis
    using pid_file_roundtrip [OF r, of "''/x''", unfolded path pid] r by auto
qed

text \<open>
  Only SIGTERM and SIGINT stop the daemon, and none of the signals it handles kills it. Once the
  handlers are set up, after any signals but SIGPIPE (whose default action is kept) the process is
  still there, and \<open>is_running\<close> is false exactly if one of them was SIGTERM or SIGINT; before that
  (or if \<open>setup_signals\<close> was not called) each of the three ends the process.
\<close>

fun deliver_all :: "signal list \<Rightarrow> proc \<Rightarrow> proc option" where
  "deliver_all [] p = Some p"
| "deliver_all (sig # sigs) p = (case deliver sig p of Some p \<Rightarrow> deliver_all sigs p | None \<Rightarrow> None)"

lemma deliver_handled:
  assumes "set (pr_handled p) = {SIGTERM, SIGINT, SIGHUP}" "sig \<noteq> SIGPIPE"
  shows "deliver sig p = Some (p\<lparr>pr_running := pr_running p \<and> sig \<noteq> SIGTERM \<and> sig \<noteq> SIGINT\<rparr>)"
  using assms by (cases sig) (simp_all add: deliver_def signal_handler_def)

lemma deliver_all_handled:
  "set (pr_handled p) = {SIGTERM, SIGINT, SIGHUP} \<Longrightarrow> SIGPIPE \<notin> set sigs \<Longrightarrow>
     deliver_all sigs p = Some (p\<lparr>pr_running := pr_running p \<and> SIGTERM \<notin> set sigs \<and> SIGINT \<notin> set sigs\<rparr>)"
proof (induction sigs arbitrary: p)
  case (Cons sig sigs)
  then show ?case
    using Cons.IH [of "p\<lparr>pr_running := pr_running p \<and> sig \<noteq> SIGTERM \<and> sig \<noteq> SIGINT\<rparr>"]
    by (auto simp: deliver_handled conj_ac intro: arg_cong [where f = "\<lambda>b. p\<lparr>pr_running := b\<rparr>"])
qed simp

theorem signals_stop_daemon:
  assumes "pr_handled p = []" "SIGPIPE \<notin> set sigs"
  shows "\<exists>p'. deliver_all sigs (setup_signals p) = Some p'
    \<and> (is_running p' \<longleftrightarrow> is_running p \<and> SIGTERM \<notin> set sigs \<and> SIGINT \<notin> set sigs)
    \<and> (deliver_all sigs p = None \<longleftrightarrow> set sigs \<inter> {SIGTERM, SIGINT, SIGHUP} \<noteq> {})"
proof -
  have "deliver_all sigs p = None \<longleftrightarrow> set sigs \<inter> {SIGTERM, SIGINT, SIGHUP} \<noteq> {}"
    using assms
  proof (induction sigs)
    case (Cons sig sigs)
    then show ?case by (cases sig) (auto simp: deliver_def)
  qed simp
  then show ?thesis
    using assms by (simp add: deliver_all_handled setup_signals_def is_running_def)
qed

theorem signals_stop_daemon_witness:
  "\<exists>p'. deliver_all [SIGHUP, SIGCHLD, SIGTERM] (setup_signals proc_ex) = Some p'
    \<and> (is_running p' \<longleftrightarrow> is_running proc_ex \<and> SIGTERM \<notin> set [SIGHUP, SIGCHLD, SIGTERM] \<and> SIGINT \<notin> set [SIGHUP, SIGCHLD, SIGTERM])
    \<and> (deliver_all [SIGHUP, SIGCHLD, SIGTERM] proc_ex = None \<longleftrightarrow> set [SIGHUP, SIGCHLD, SIGTERM] \<inter> {SIGTERM, SIGINT, SIGHUP} \<noteq> {})"
  by (rule signals_stop_daemon) (simp_all add: proc_ex_def)

end
