(* ===== verification/Logger.thy ===== *)
theory Logger
  imports Files
begin

text \<open>
  The logger of \<open>src/logger.cpp\<close> and the macros of \<open>include/logger.h\<close>: the filter by level, the format
  of an entry, and where it goes. The C library's calls run over the store of theory \<open>Files\<close>; a
  stream opened for appending adds to its inode at the flush. The clock is the environment's.
\<close>

section \<open>Levels\<close>

datatype LogLevel = DEBUG | INFO | WARN | ERROR

text \<open>The numbers of the enumeration; \<open>level < level_\<close> compares them.\<close>

fun level_number :: "LogLevel \<Rightarrow> nat" where
  "level_number DEBUG = 0"
| "level_number INFO = 1"
| "level_number WARN = 2"
| "level_number ERROR = 3"

lemma level_number_inj: "level_number l = level_number m \<longleftrightarrow> l = m"
  by (cases l; cases m) simp_all

instantiation LogLevel :: linorder
begin

definition less_eq_LogLevel :: "LogLevel \<Rightarrow> LogLevel \<Rightarrow> bool" where
  "l \<le> m \<longleftrightarrow> level_number l \<le> level_number m"

definition less_LogLevel :: "LogLevel \<Rightarrow> LogLevel \<Rightarrow> bool" where
  "l < m \<longleftrightarrow> level_number l < level_number m"

instance
  by standard (auto simp: less_eq_LogLevel_def less_LogLevel_def level_number_inj)

end

lemmas level_order = less_eq_LogLevel_def less_LogLevel_def

lemma DEBUG_least [simp]: "DEBUG \<le> l"
  by (simp add: level_order)

fun level_str :: "LogLevel \<Rightarrow> string" where
  "level_str DEBUG = ''DEBUG''"
| "level_str INFO = ''INFO ''"
| "level_str WARN = ''WARN ''"
| "level_str ERROR = ''ERROR''"

section \<open>The format\<close>

text \<open>\<open>%0<w>d\<close>\<close>

definition fmt_0d :: "nat \<Rightarrow> int \<Rightarrow> string" where
  "fmt_0d w z =
     (let s = dec_str (nat \<bar>z\<bar>); sign = (if z < 0 then [CHR ''-''] else [])
      in sign @ replicate (w - length sign - length s) (CHR ''0'') @ s)"

text \<open>What \<open>snprintf\<close> leaves in a buffer of \<open>n\<close> characters.\<close>

definition snprintf :: "nat \<Rightarrow> string \<Rightarrow> string" where
  "snprintf n s = take (n - 1) s"

record log_time =
  tm_year :: int
  tm_mon :: int
  tm_mday :: int
  tm_hour :: int
  tm_min :: int
  tm_sec :: int
  tv_usec :: int

definition timestamp :: "log_time \<Rightarrow> string" where
  "timestamp t =
     snprintf 32 (fmt_0d 4 (tm_year t + 1900) @ ''-'' @ fmt_0d 2 (tm_mon t + 1) @ ''-'' @ fmt_0d 2 (tm_mday t)
       @ '' '' @ fmt_0d 2 (tm_hour t) @ '':'' @ fmt_0d 2 (tm_min t) @ '':'' @ fmt_0d 2 (tm_sec t)
       @ ''.'' @ fmt_0d 3 (tv_usec t div 1000))"

definition short_file :: "string \<Rightarrow> string" where
  "short_file file = (case rfind_char CHR ''/'' file of Some k \<Rightarrow> drop (k + 1) file | None \<Rightarrow> file)"

definition formatted :: "log_time \<Rightarrow> LogLevel \<Rightarrow> string \<Rightarrow> int \<Rightarrow> string \<Rightarrow> string" where
  "formatted t level file line msg =
     snprintf 2048 (''['' @ timestamp t @ ''] ['' @ level_str level @ ''] ('' @ short_file file @ '':''
       @ dec_str_int line @ '') '' @ c_str msg)"

section \<open>The logger\<close>

record Logger =
  lg_file :: "stream option"
  lg_level :: LogLevel

definition Logger_new :: Logger where
  "Logger_new = \<lparr>lg_file = None, lg_level = DEBUG\<rparr>"

text \<open>The logger with what it writes to: the files, and the characters on standard error.\<close>

record log_world =
  lw_logger :: Logger
  lw_fs :: fs
  lw_stderr :: string

text \<open>\<open>fopen(p, "a")\<close>: an existing file keeps its content, a missing one is created.\<close>

definition fopen_a :: "io \<Rightarrow> fs \<Rightarrow> string \<Rightarrow> stream option \<times> fs" where
  "fopen_a io fs p =
     (if io_create io (c_str p) then
        (case fs_names fs (c_str p) of
           Some i \<Rightarrow> (Some \<lparr>st_inode = i, st_buf = []\<rparr>, fs)
         | None \<Rightarrow> fopen_wb io fs p)
      else (None, fs))"

text \<open>\<open>fflush\<close> and \<open>fclose\<close> of such a stream.\<close>

definition fflush_a :: "io \<Rightarrow> fs \<Rightarrow> stream \<Rightarrow> stream \<times> fs" where
  "fflush_a io fs st =
     (let n = io_flush io (length (st_buf st)); i = st_inode st
      in (st\<lparr>st_buf := drop n (st_buf st)\<rparr>,
          fs\<lparr>fs_inodes := (fs_inodes fs)(i := fs_inodes fs i @ take n (st_buf st))\<rparr>))"

text \<open>\<open>strerror\<close> is the text of the system's error.\<close>

definition Logger_init :: "io \<Rightarrow> string \<Rightarrow> string \<Rightarrow> log_world \<Rightarrow> log_world" where
  "Logger_init io strerror log_file w =
     (if log_file \<noteq> [] then
        (let (f, fs) = fopen_a io (lw_fs w) log_file;
             w = w\<lparr>lw_logger := (lw_logger w)\<lparr>lg_file := f\<rparr>, lw_fs := fs\<rparr>
         in if f = None then
              w\<lparr>lw_stderr := lw_stderr w @ ''Logger: failed to open log file '' @ c_str log_file @ '': '' @ strerror @ [CHR 0x0A]\<rparr>
            else w)
      else w)"

definition Logger_shutdown :: "io \<Rightarrow> log_world \<Rightarrow> log_world" where
  "Logger_shutdown io w =
     (case lg_file (lw_logger w) of
        Some st \<Rightarrow> w\<lparr>lw_logger := (lw_logger w)\<lparr>lg_file := None\<rparr>, lw_fs := snd (fflush_a io (lw_fs w) st)\<rparr>
      | None \<Rightarrow> w)"

definition Logger_set_level :: "LogLevel \<Rightarrow> log_world \<Rightarrow> log_world" where
  "Logger_set_level level w = w\<lparr>lw_logger := (lw_logger w)\<lparr>lg_level := level\<rparr>\<rparr>"

definition Logger_log :: "io \<Rightarrow> log_time \<Rightarrow> LogLevel \<Rightarrow> string \<Rightarrow> int \<Rightarrow> string \<Rightarrow> log_world \<Rightarrow> log_world" where
  "Logger_log io t level file line msg w =
     (if level < lg_level (lw_logger w) then w
      else let entry = formatted t level file line msg @ [CHR 0x0A]
      in case lg_file (lw_logger w) of
        Some st \<Rightarrow>
          (let (_, st) = fwrite io st (bytes_of entry); (st, fs) = fflush_a io (lw_fs w) st
           in w\<lparr>lw_logger := (lw_logger w)\<lparr>lg_file := Some st\<rparr>, lw_fs := fs\<rparr>)
      | None \<Rightarrow> w\<lparr>lw_stderr := lw_stderr w @ entry\<rparr>)"

text \<open>
  The macros \<open>LOG_DEBUG\<close> to \<open>LOG_ERROR\<close>: the expanded format is cut to a buffer of 1024 characters
  and logged.
\<close>

definition LOG :: "io \<Rightarrow> log_time \<Rightarrow> LogLevel \<Rightarrow> string \<Rightarrow> int \<Rightarrow> string \<Rightarrow> log_world \<Rightarrow> log_world" where
  "LOG io t level file line expanded w = Logger_log io t level file line (snprintf 1024 expanded) w"

section \<open>Lemmas\<close>

lemma length_snprintf: "length (snprintf n s) \<le> n - 1"
  by (simp add: snprintf_def)

lemma snprintf_id: "length s < n \<Longrightarrow> snprintf n s = s"
  by (simp add: snprintf_def)

lemma length_level_str [simp]: "length (level_str l) = 5"
  by (cases l) simp_all

lemma length_timestamp: "length (timestamp t) \<le> 31"
  unfolding timestamp_def using length_snprintf [of 32] by simp

lemma fmt_0d_no_NUL: "CHR 0x00 \<notin> set (fmt_0d w z)"
  using dec_str_digits [of "CHR 0x00" "nat \<bar>z\<bar>"] by (auto simp: fmt_0d_def Let_def is_digit_def)

lemma timestamp_no_NUL: "CHR 0x00 \<notin> set (timestamp t)"
  by (auto simp: timestamp_def snprintf_def fmt_0d_no_NUL dest!: in_set_takeD)

text \<open>An entry that fits its buffers is not cut.\<close>

definition entry :: "log_time \<Rightarrow> LogLevel \<Rightarrow> string \<Rightarrow> int \<Rightarrow> string \<Rightarrow> string" where
  "entry t level file line msg =
     ''['' @ timestamp t @ ''] ['' @ level_str level @ ''] ('' @ short_file file @ '':''
       @ dec_str_int line @ '') '' @ msg @ [CHR 0x0A]"

lemma formatted_fits:
  assumes "length (short_file file) + length (dec_str_int line) + length msg \<le> 2000" "CHR 0x00 \<notin> set msg"
  shows "formatted t level file line msg @ [CHR 0x0A] = entry t level file line msg"
proof -
  have "length (''['' @ timestamp t @ ''] ['' @ level_str level @ ''] ('' @ short_file file @ '':''
       @ dec_str_int line @ '') '' @ msg) < 2048"
    using assms(1) length_timestamp [of t] by simp
  then show ?thesis
    by (simp add: formatted_def entry_def c_str_id [OF assms(2)] snprintf_id)
qed

text \<open>One call on an open log file of an environment that takes every write.\<close>

definition log_at :: "nat \<Rightarrow> log_world \<Rightarrow> bool" where
  "log_at i w \<longleftrightarrow> lg_file (lw_logger w) = Some \<lparr>st_inode = i, st_buf = []\<rparr>"

lemma Logger_log_file:
  assumes "log_at i w" "io_writes_ok io"
  shows "log_at i (Logger_log io t level file line msg w)"
    and "lg_level (lw_logger (Logger_log io t level file line msg w)) = lg_level (lw_logger w)"
    and "lw_stderr (Logger_log io t level file line msg w) = lw_stderr w"
    and "fs_names (lw_fs (Logger_log io t level file line msg w)) = fs_names (lw_fs w)"
    and "fs_inodes (lw_fs (Logger_log io t level file line msg w)) = (fs_inodes (lw_fs w))
          (i := fs_inodes (lw_fs w) i @ (if level < lg_level (lw_logger w) then []
             else bytes_of (formatted t level file line msg @ [CHR 0x0A])))"
proof -
  let ?b = "bytes_of (formatted t level file line msg @ [CHR 0x0A])"
  have w: "fwrite io st ?b = (length ?b, st\<lparr>st_buf := st_buf st @ ?b\<rparr>)" for st
    using assms(2) by (simp add: fwrite_def io_writes_ok_def Let_def min_absorb1)
  have f: "length ?b \<le> io_flush io (length ?b)"
    using assms(2) unfolding io_writes_ok_def by blast
  have "Logger_log io t level file line msg w =
      (if level < lg_level (lw_logger w) then w
       else w\<lparr>lw_logger := (lw_logger w)\<lparr>lg_file := Some \<lparr>st_inode = i, st_buf = []\<rparr>\<rparr>,
         lw_fs := (lw_fs w)\<lparr>fs_inodes := (fs_inodes (lw_fs w))(i := fs_inodes (lw_fs w) i @ ?b)\<rparr>\<rparr>)"
    using assms(1) f unfolding Logger_log_def log_at_def
    by (simp add: w fflush_a_def Let_def del: length_bytes_of)
  then show "log_at i (Logger_log io t level file line msg w)"
    and "lg_level (lw_logger (Logger_log io t level file line msg w)) = lg_level (lw_logger w)"
    and "lw_stderr (Logger_log io t level file line msg w) = lw_stderr w"
    and "fs_names (lw_fs (Logger_log io t level file line msg w)) = fs_names (lw_fs w)"
    and "fs_inodes (lw_fs (Logger_log io t level file line msg w)) = (fs_inodes (lw_fs w))
          (i := fs_inodes (lw_fs w) i @ (if level < lg_level (lw_logger w) then [] else ?b))"
    using assms(1) by (simp_all add: log_at_def)
qed

section \<open>Properties\<close>

text \<open>A call of one of the macros, and a sequence of them.\<close>

record log_call =
  lc_io :: io
  lc_time :: log_time
  lc_level :: LogLevel
  lc_file :: string
  lc_line :: int
  lc_text :: string

definition log_call :: "log_call \<Rightarrow> log_world \<Rightarrow> log_world" where
  "log_call c w = LOG (lc_io c) (lc_time c) (lc_level c) (lc_file c) (lc_line c) (lc_text c) w"

definition call_fits :: "log_call \<Rightarrow> bool" where
  "call_fits c \<longleftrightarrow> io_writes_ok (lc_io c) \<and> length (lc_text c) < 1024 \<and> CHR 0x00 \<notin> set (lc_text c)
     \<and> length (short_file (lc_file c)) + length (dec_str_int (lc_line c)) \<le> 900"

definition call_entry :: "log_call \<Rightarrow> string" where
  "call_entry c = entry (lc_time c) (lc_level c) (lc_file c) (lc_line c) (lc_text c)"

lemma log_call_file:
  assumes "log_at i w" "call_fits c"
  shows "log_at i (log_call c w)" "lg_level (lw_logger (log_call c w)) = lg_level (lw_logger w)"
    "lw_stderr (log_call c w) = lw_stderr w" "fs_names (lw_fs (log_call c w)) = fs_names (lw_fs w)"
    "fs_inodes (lw_fs (log_call c w)) = (fs_inodes (lw_fs w))(i := fs_inodes (lw_fs w) i
       @ (if lc_level c < lg_level (lw_logger w) then [] else bytes_of (call_entry c)))"
proof -
  have "formatted (lc_time c) (lc_level c) (lc_file c) (lc_line c) (lc_text c) @ [CHR 0x0A] = call_entry c"
    using assms(2) unfolding call_entry_def call_fits_def by (intro formatted_fits) simp_all
  with Logger_log_file [OF assms(1)] assms(2)
  show "log_at i (log_call c w)" "lg_level (lw_logger (log_call c w)) = lg_level (lw_logger w)"
    "lw_stderr (log_call c w) = lw_stderr w" "fs_names (lw_fs (log_call c w)) = fs_names (lw_fs w)"
    "fs_inodes (lw_fs (log_call c w)) = (fs_inodes (lw_fs w))(i := fs_inodes (lw_fs w) i
       @ (if lc_level c < lg_level (lw_logger w) then [] else bytes_of (call_entry c)))"
    unfolding log_call_def LOG_def call_fits_def by (simp_all add: snprintf_id)
qed

lemma log_calls_file:
  assumes "log_at i w" "list_all call_fits cs"
  shows "log_at i (fold log_call cs w) \<and> lg_level (lw_logger (fold log_call cs w)) = lg_level (lw_logger w)
    \<and> lw_stderr (fold log_call cs w) = lw_stderr w \<and> fs_names (lw_fs (fold log_call cs w)) = fs_names (lw_fs w)
    \<and> fs_inodes (lw_fs (fold log_call cs w)) = (fs_inodes (lw_fs w))(i := fs_inodes (lw_fs w) i
       @ bytes_of (concat (map call_entry (filter (\<lambda>c. lg_level (lw_logger w) \<le> lc_level c) cs))))"
  using assms
proof (induction cs arbitrary: w)
  case Nil
  then show ?case by (simp add: bytes_of_def)
next
  case (Cons c cs)
  then have c: "call_fits c" and cs: "list_all call_fits cs" by simp_all
  note step = log_call_file [OF Cons.prems(1) c]
  show ?case
    using Cons.IH [OF step(1) cs] step(2-5) by (auto simp: bytes_of_def not_le)
qed

lemma Logger_init_opens:
  assumes "p \<noteq> []" "io_create io (c_str p)" "fs_wf (lw_fs w)"
  obtains i where "log_at i (Logger_init io err p w)"
    and "fs_names (lw_fs (Logger_init io err p w)) (c_str p) = Some i" "fs_wf (lw_fs (Logger_init io err p w))"
    and "lg_level (lw_logger (Logger_init io err p w)) = lg_level (lw_logger w)"
    and "lw_stderr (Logger_init io err p w) = lw_stderr w"
    and "fs_lookup (lw_fs (Logger_init io err p w)) p = Some (case fs_lookup (lw_fs w) p of Some bs \<Rightarrow> bs | None \<Rightarrow> [])"
    and "\<forall>q. c_str q = c_str p \<or> fs_lookup (lw_fs (Logger_init io err p w)) q = fs_lookup (lw_fs w) q"
proof (cases "fs_names (lw_fs w) (c_str p)")
  case (Some i)
  with assms have "Logger_init io err p w = w\<lparr>lw_logger := (lw_logger w)\<lparr>lg_file := Some \<lparr>st_inode = i, st_buf = []\<rparr>\<rparr>\<rparr>"
    by (simp add: Logger_init_def fopen_a_def)
  with Some assms(3) show ?thesis
    by (intro that [of i]) (simp_all add: log_at_def fs_lookup_def)
next
  case None
  let ?f = "\<lparr>st_inode = fs_next (lw_fs w), st_buf = []\<rparr>"
  obtain fs' where o: "fopen_wb io (lw_fs w) p = (Some ?f, fs')"
    and f: "fs_names fs' (c_str p) = Some (st_inode ?f)" "fs_inodes fs' (st_inode ?f) = []"
    using None assms(2) by (simp add: fopen_wb_def Let_def)
  have "Logger_init io err p w = w\<lparr>lw_logger := (lw_logger w)\<lparr>lg_file := Some ?f\<rparr>, lw_fs := fs'\<rparr>"
    using None assms(1,2) o by (simp add: Logger_init_def fopen_a_def)
  then show ?thesis
    using None f fs_wf_fopen [OF assms(3) o] fopen_wb_other [OF assms(3) o]
    by (intro that [of "st_inode ?f"]) (auto simp: log_at_def fs_lookup_def)
qed

text \<open>
  C37: the log file is complete. From opening it on, whatever is logged (texts that fit the macros'
  buffer), the file holds what it held before, followed by one entry for each call at the level set
  or above, in order, uncut; standard error and every other file are left alone.
\<close>

theorem log_file_complete:
  assumes "p \<noteq> []" "io_create io (c_str p)" "fs_wf (lw_fs w)" "list_all call_fits cs"
    and "w' = fold log_call cs (Logger_set_level level (Logger_init io err p w))"
  shows "fs_lookup (lw_fs w') p = Some ((case fs_lookup (lw_fs w) p of Some bs \<Rightarrow> bs | None \<Rightarrow> [])
      @ bytes_of (concat (map call_entry (filter (\<lambda>c. level \<le> lc_level c) cs))))
    \<and> lw_stderr w' = lw_stderr w \<and> (c_str q = c_str p \<or> fs_lookup (lw_fs w') q = fs_lookup (lw_fs w) q)"
proof -
  let ?w = "Logger_init io err p w" and ?w1 = "Logger_set_level level (Logger_init io err p w)"
  obtain i where i: "log_at i ?w" "fs_names (lw_fs ?w) (c_str p) = Some i" "fs_wf (lw_fs ?w)"
    and r: "lw_stderr ?w = lw_stderr w"
      "fs_lookup (lw_fs ?w) p = Some (case fs_lookup (lw_fs w) p of Some bs \<Rightarrow> bs | None \<Rightarrow> [])"
      "\<forall>q. c_str q = c_str p \<or> fs_lookup (lw_fs ?w) q = fs_lookup (lw_fs w) q"
    by (rule Logger_init_opens [OF assms(1-3)])
  have w1: "log_at i ?w1" "lw_fs ?w1 = lw_fs ?w" "lw_stderr ?w1 = lw_stderr ?w" "lg_level (lw_logger ?w1) = level"
    using i(1) by (simp_all add: Logger_set_level_def log_at_def)
  have names: "fs_names (lw_fs w') = fs_names (lw_fs ?w)" and err: "lw_stderr w' = lw_stderr w"
    and inodes: "fs_inodes (lw_fs w') = (fs_inodes (lw_fs ?w))(i := fs_inodes (lw_fs ?w) i
       @ bytes_of (concat (map call_entry (filter (\<lambda>c. level \<le> lc_level c) cs))))"
    using log_calls_file [OF w1(1) assms(4)] assms(5) w1 r(1) by simp_all
  have "fs_names (lw_fs ?w) (c_str q) \<noteq> Some i" if "c_str q \<noteq> c_str p"
    using that fs_wf_inj [OF i(3)] i(2) by blast
  then have "c_str q = c_str p \<or> fs_lookup (lw_fs w') q = fs_lookup (lw_fs ?w) q"
    by (auto simp: fs_lookup_def names inodes intro: option.map_cong0)
  moreover have "fs_lookup (lw_fs w') p = map_option (\<lambda>bs. bs
       @ bytes_of (concat (map call_entry (filter (\<lambda>c. level \<le> lc_level c) cs)))) (fs_lookup (lw_fs ?w) p)"
    by (simp add: fs_lookup_def names inodes i(2))
  ultimately show ?thesis using r(2,3) err by auto
qed

text \<open>A call and a time for concrete runs.\<close>

definition log_call_ex :: "LogLevel \<Rightarrow> string \<Rightarrow> log_call" where
  "log_call_ex l s =
     \<lparr>lc_io = io_all_ok, lc_time = \<lparr>tm_year = 125, tm_mon = 0, tm_mday = 1, tm_hour = 0, tm_min = 0, tm_sec = 0, tv_usec = 0\<rparr>,
      lc_level = l, lc_file = ''/src/main.cpp'', lc_line = 81, lc_text = s\<rparr>"

lemma short_file_ex: "length (short_file ''/src/main.cpp'') = 8"
proof -
  have "rfind_char CHR ''/'' (''/src'' @ CHR ''/'' # ''main.cpp'') = Some 4"
    by (subst rfind_char_last) simp_all
  then show ?thesis by (simp add: short_file_def)
qed

lemma call_fits_ex: "length s < 1024 \<Longrightarrow> CHR 0x00 \<notin> set s \<Longrightarrow> call_fits (log_call_ex l s)"
  by (simp add: call_fits_def log_call_ex_def dec_str_int_def dec_str.simps short_file_ex)

theorem log_file_complete_witness:
  "\<exists>w' :: log_world. fs_lookup (lw_fs w') ''/tmp/l'' = Some ([]
      @ bytes_of (concat (map call_entry (filter (\<lambda>c. INFO \<le> lc_level c) [log_call_ex WARN ''a'', log_call_ex DEBUG ''b'']))))
    \<and> lw_stderr w' = [] \<and> (c_str ''/x'' = c_str ''/tmp/l'' \<or> fs_lookup (lw_fs w') ''/x'' = None)"
proof -
  let ?cs = "[log_call_ex WARN ''a'', log_call_ex DEBUG ''b'']"
  let ?w = "\<lparr>lw_logger = Logger_new, lw_fs = fs_empty, lw_stderr = []\<rparr>"
  let ?w' = "fold log_call ?cs (Logger_set_level INFO (Logger_init io_all_ok [] ''/tmp/l'' ?w))"
  have none: "fs_lookup fs_empty q = None" for q by (simp add: fs_empty_def fs_lookup_def)
  have fits: "list_all call_fits ?cs" by (simp add: call_fits_ex)
  have "fs_lookup (lw_fs ?w') ''/tmp/l'' = Some ((case fs_lookup (lw_fs ?w) ''/tmp/l'' of Some bs \<Rightarrow> bs | None \<Rightarrow> [])
      @ bytes_of (concat (map call_entry (filter (\<lambda>c. INFO \<le> lc_level c) ?cs))))
    \<and> lw_stderr ?w' = lw_stderr ?w \<and> (c_str ''/x'' = c_str ''/tmp/l'' \<or> fs_lookup (lw_fs ?w') ''/x'' = fs_lookup (lw_fs ?w) ''/x'')"
    by (rule log_file_complete [OF _ _ _ fits refl]) simp_all
  then show ?thesis
    unfolding log_world.select_convs none option.case by (rule exI [of _ ?w'])
qed

text \<open>
  A line feed in a logged text forges an entry: nothing is escaped, so a text that continues, after
  a line feed, as an entry does (say, of another level, time and place) leaves exactly the log that
  two calls would have left. Texts come from outside, for instance the rejected name of an upload.
\<close>

theorem forged_log_entry:
  assumes "log_at i w" "lg_level (lw_logger w) \<le> lc_level c" "lg_level (lw_logger w) \<le> lc_level d"
    and "call_fits (c\<lparr>lc_text := s\<rparr>)" "call_fits d" "call_fits (c\<lparr>lc_text := s @ [CHR 0x0A] @ butlast (call_entry d)\<rparr>)"
  shows "fs_lookup (lw_fs (log_call (c\<lparr>lc_text := s @ [CHR 0x0A] @ butlast (call_entry d)\<rparr>) w)) q
    = fs_lookup (lw_fs (log_call d (log_call (c\<lparr>lc_text := s\<rparr>) w))) q"
proof -
  let ?f = "c\<lparr>lc_text := s @ [CHR 0x0A] @ butlast (call_entry d)\<rparr>" and ?s = "c\<lparr>lc_text := s\<rparr>"
  have "butlast (call_entry d) @ [CHR 0x0A] = call_entry d"
    by (simp add: call_entry_def entry_def butlast_append)
  then have e: "call_entry ?f = call_entry ?s @ call_entry d"
    by (simp add: call_entry_def entry_def)
  note one = log_call_file [OF assms(1,4)]
  note two = log_call_file [OF one(1) assms(5)]
  note forged = log_call_file [OF assms(1,6)]
  have "fs_inodes (lw_fs (log_call ?f w)) = fs_inodes (lw_fs (log_call d (log_call ?s w)))"
    unfolding forged(5) two(5) one(2,5) e using assms(2,3) by (auto simp: bytes_of_def not_less)
  then show ?thesis
    unfolding fs_lookup_def forged(4) two(4) one(4) by simp
qed

theorem forged_log_entry_witness:
  "\<exists>(w :: log_world) i d. log_at i w \<and> fs_lookup (lw_fs (log_call ((log_call_ex INFO [])\<lparr>lc_text := ''x'' @ [CHR 0x0A] @ butlast (call_entry d)\<rparr>) w)) ''/l''
    = fs_lookup (lw_fs (log_call d (log_call ((log_call_ex INFO [])\<lparr>lc_text := ''x''\<rparr>) w))) ''/l''"
proof (intro exI conjI)
  let ?w = "\<lparr>lw_logger = \<lparr>lg_file = Some \<lparr>st_inode = 0, st_buf = []\<rparr>, lg_level = DEBUG\<rparr>, lw_fs = fs_empty, lw_stderr = []\<rparr>"
  let ?d = "log_call_ex ERROR ''disk failure''"
  show at: "log_at 0 ?w" by (simp add: log_at_def)
  have ex: "(log_call_ex l s)\<lparr>lc_text := s'\<rparr> = log_call_ex l s'" for l s s'
    by (simp add: log_call_ex_def)
  have "CHR 0x00 \<notin> set (short_file ''/src/main.cpp'')"
    by (auto simp: short_file_def split: option.splits dest: in_set_dropD)
  moreover have "CHR 0x00 \<notin> set (dec_str_int 81)" "length (dec_str_int 81) = 2"
    using dec_str_digits [of "CHR 0x00" 81] by (auto simp: dec_str_int_def dec_str.simps is_digit_def)
  ultimately have len: "length (call_entry ?d) \<le> 100" "CHR 0x00 \<notin> set (butlast (call_entry ?d))"
    using length_timestamp [of "lc_time ?d"] timestamp_no_NUL [of "lc_time ?d"]
    by (auto simp: call_entry_def entry_def log_call_ex_def short_file_ex dest!: in_set_butlastD)
  show "fs_lookup (lw_fs (log_call ((log_call_ex INFO [])\<lparr>lc_text := ''x'' @ [CHR 0x0A] @ butlast (call_entry ?d)\<rparr>) ?w)) ''/l''
    = fs_lookup (lw_fs (log_call ?d (log_call ((log_call_ex INFO [])\<lparr>lc_text := ''x''\<rparr>) ?w))) ''/l''"
    using len by (intro forged_log_entry [OF at]) (simp_all add: ex call_fits_ex)
qed

end
