(* ===== verification/Startup.thy ===== *)
theory Startup
  imports ConfigParse Dirs Daemonize Logger Flash
begin

text \<open>
  The start of \<open>main\<close> (\<open>src/main.cpp\<close>, up to the signal handlers): command line, paths, upload
  directory, daemonizing, logger; and the usage text of \<open>src/config.cpp\<close>. The rest of \<open>main\<close> is in
  theory \<open>Lifecycle\<close>.
\<close>

section \<open>The code\<close>

definition print_usage :: "string \<Rightarrow> string" where
  "print_usage program = concat (map (\<lambda>l. l @ [CHR 0x0A])
     [''Usage: '' @ program @ '' [OPTIONS]'',
      ''RK Firmware Flash Daemon'',
      [],
      ''Options:'',
      ''  --port <port>           HTTP listen port (default: 8080)'',
      ''  --serial-device <path>  Serial device path (optional, disabled if omitted)'',
      ''  --baud-rate <rate>      Serial baud rate (default: 115200)'',
      ''  --upload-dir <dir>      Upload directory (default: /tmp/rk_flashd_uploads)'',
      ''  --scripts-dir <dir>     Flash scripts directory (default: /sbin)'',
      ''  --log-file <path>       Log file path (optional, logs to stderr if omitted)'',
      ''  --pid-file <path>       PID file path (default: /var/run/rk_firmware_flashd.pid)'',
      ''  --foreground            Run in foreground (do not daemonize)'',
      ''  --help                  Show this help message'',
      [],
      ''Examples:'',
      ''  '' @ program @ '' --foreground'',
      ''  '' @ program @ '' --port 9090 --serial-device /dev/ttyS1 --foreground''])"

text \<open>
  What the start works on: the process, the directories, and the logger with the files and what is
  written to standard error (which is \<open>/dev/null\<close> in the daemon). A relative name of a log file,
  which is left only when \<open>realpath\<close> fails, stands for itself.
\<close>

record world =
  w_proc :: proc
  w_tree :: tree
  w_log :: log_world

record start_env =
  se_io :: io
  se_may_create :: "string list \<Rightarrow> bool"
  se_realpath :: bool
  se_daemon :: daemon_env
  se_time :: log_time
  se_strerror :: string

text \<open>
  \<open>realpath(".")\<close>: the path of the process's working directory at the time of the call (there are no
  symbolic links), unless the call fails.
\<close>

definition realpath_dot :: "start_env \<Rightarrow> proc \<Rightarrow> string option" where
  "realpath_dot e p = (if se_realpath e then Some (pr_cwd p) else None)"

text \<open>\<open>Ends code out w\<close>: the process exits, with \<open>out\<close> on standard output.\<close>

datatype started = Ends int string world | Runs Config world

definition complain :: "string \<Rightarrow> world \<Rightarrow> world" where
  "complain msg w = w\<lparr>w_log := (w_log w)\<lparr>lw_stderr := lw_stderr (w_log w) @ msg @ [CHR 0x0A]\<rparr>\<rparr>"

definition cwd_names :: "proc \<Rightarrow> string list" where
  "cwd_names p = filter (\<lambda>n. n \<noteq> []) (components (pr_cwd p))"

definition log_info :: "start_env \<Rightarrow> int \<Rightarrow> string \<Rightarrow> world \<Rightarrow> world" where
  "log_info e line text w = w\<lparr>w_log := LOG (se_io e) (se_time e) INFO ''main.cpp'' line text (w_log w)\<rparr>"

text \<open>Lines 79 to 84: the logger is opened when the process is what it will be.\<close>

definition start_logging :: "start_env \<Rightarrow> Config \<Rightarrow> world \<Rightarrow> world" where
  "start_logging e cfg w =
     (let w = w\<lparr>w_log := Logger_init (se_io e) (se_strerror e) (cfg_log_file cfg) (w_log w)\<rparr>;
          w = log_info e 81 ''RK Firmware Flash Daemon starting...'' w
      in if cfg_foreground cfg then log_info e 83 ''Running in foreground mode'' w else w)"

definition main_start :: "start_env \<Rightarrow> string \<Rightarrow> string list \<Rightarrow> world \<Rightarrow> started" where
  "main_start e program args w =
     (case parse_args args Config_default of
        Inl err \<Rightarrow> Ends 1 [] (complain ''Use --help for usage information.'' (complain err w))
      | Inr cfg \<Rightarrow>
          if cfg_help cfg then Ends 0 (print_usage program) w
          else let cfg = resolve_paths (realpath_dot e (w_proc w)) cfg;
                   (made, tree) = mkdir_p (se_may_create e) (cwd_names (w_proc w)) (cfg_upload_dir cfg) (w_tree w);
                   w = w\<lparr>w_tree := tree\<rparr>;
                   w = (if \<not> made then complain (''Warning: failed to create upload dir '' @ [CHR 0x27]
                          @ cfg_upload_dir cfg @ [CHR 0x27]) w else w);
                   cfg = default_log_file cfg
          in if \<not> cfg_foreground cfg then
               (case daemonize (se_io e) (se_daemon e) cfg (w_proc w, lw_fs (w_log w)) of
                  ParentExits \<Rightarrow> Ends 0 [] w
                | DaemonizeFails \<Rightarrow> Ends 1 [] (complain ''Failed to daemonize'' w)
                | Daemonized p fs \<Rightarrow>
                    Runs cfg (start_logging e cfg (w\<lparr>w_proc := p, w_log := (w_log w)\<lparr>lw_fs := fs\<rparr>\<rparr>)))
             else Runs cfg (start_logging e cfg w))"

section \<open>Properties\<close>

lemma complain_frame [simp]:
  "w_proc (complain msg w) = w_proc w" "w_tree (complain msg w) = w_tree w" "lw_fs (w_log (complain msg w)) = lw_fs (w_log w)"
  by (simp_all add: complain_def)

lemma start_logging_frame [simp]:
  "w_proc (start_logging e cfg w) = w_proc w" "w_tree (start_logging e cfg w) = w_tree w"
  by (simp_all add: start_logging_def log_info_def Let_def)

lemma config_kept:
  "cfg_foreground (default_log_file (resolve_paths r cfg)) = cfg_foreground cfg"
  "cfg_pid_file (default_log_file (resolve_paths r cfg)) = cfg_pid_file cfg"
  "cfg_scripts_dir (default_log_file (resolve_paths r cfg)) = cfg_scripts_dir cfg"
  "cfg_upload_dir (default_log_file cfg) = cfg_upload_dir cfg"
  by (simp_all add: default_log_file_def resolve_paths_def Let_def)

lemma fs_wf_fopen_a: "fs_wf fs \<Longrightarrow> fs_wf (snd (fopen_a io fs p))"
  by (auto simp: fopen_a_def split: option.splits intro: fs_wf_fopen [OF _ surjective_pairing])

lemma fs_wf_write_pid_file: "fs_wf fs \<Longrightarrow> fs_wf (write_pid_file io p pid fs)"
  by (auto simp: write_pid_file_def split: prod.splits option.splits intro: fs_wf_fopen fs_wf_fclose)

lemma fs_wf_start_logging: "fs_wf (lw_fs (w_log w)) \<Longrightarrow> fs_wf (lw_fs (w_log (start_logging e cfg w)))"
proof -
  have log: "fs_wf (lw_fs v) \<Longrightarrow> fs_wf (lw_fs (LOG io t l f n s v))" for io t l f n s v
    by (auto simp: LOG_def Logger_log_def fflush_a_def fs_wf_def Let_def split: option.splits prod.splits)
  have init: "fs_wf (lw_fs v) \<Longrightarrow> fs_wf (lw_fs (Logger_init io err p v))" for io err p v
    using fs_wf_fopen_a [of "lw_fs v" io p] by (auto simp: Logger_init_def Let_def split: prod.splits)
  assume "fs_wf (lw_fs (w_log w))"
  then show ?thesis by (simp add: start_logging_def log_info_def log init Let_def)
qed

text \<open>What every start that goes on has done.\<close>

lemma main_start_state:
  assumes "main_start e program args w = Runs cfg w'"
  shows "\<exists>given. parse_args args Config_default = Inr given \<and> \<not> cfg_help given
    \<and> cfg = default_log_file (resolve_paths (realpath_dot e (w_proc w)) given)
    \<and> pr_cwd (w_proc w') = (if cfg_foreground given then pr_cwd (w_proc w) else ''/'')
    \<and> pr_handled (w_proc w') = pr_handled (w_proc w)
    \<and> w_tree w' = snd (mkdir_p (se_may_create e) (cwd_names (w_proc w)) (cfg_upload_dir cfg) (w_tree w))
    \<and> (fs_wf (lw_fs (w_log w)) \<longrightarrow> fs_wf (lw_fs (w_log w')))"
proof -
  obtain given where g: "parse_args args Config_default = Inr given" "\<not> cfg_help given"
    using assms by (auto simp: main_start_def split: sum.splits if_splits)
  obtain ok tree where made: "mkdir_p (se_may_create e) (cwd_names (w_proc w))
      (cfg_upload_dir (resolve_paths (realpath_dot e (w_proc w)) given)) (w_tree w) = (ok, tree)" by fastforce
  show ?thesis
    using assms g made
    by (auto simp: main_start_def daemonize_def config_kept fs_wf_start_logging fs_wf_write_pid_file Let_def
        split: if_splits)
qed

text \<open>
  How the start can end. It ends with 1 exactly if the arguments are refused or the process
  cannot become a daemon, and otherwise, if it ends, with 0 (the usage was asked for, or this is the
  parent of the daemon). In all these cases no file was touched, and the upload directory is created
  only if the arguments were accepted and no help was asked for.
\<close>

theorem main_start_ends:
  assumes "main_start e program args w = Ends code out w'"
  shows "lw_fs (w_log w') = lw_fs (w_log w) \<and> w_proc w' = w_proc w
    \<and> (code = 1 \<longleftrightarrow> (case parse_args args Config_default of Inl err \<Rightarrow> True
          | Inr cfg \<Rightarrow> \<not> cfg_help cfg \<and> (de_fork (se_daemon e) < 0
              \<or> de_fork (se_daemon e) = 0 \<and> (de_setsid (se_daemon e) < 0 \<or> de_fork2 (se_daemon e) < 0
                  \<or> de_fork2 (se_daemon e) = 0 \<and> de_chdir (se_daemon e) < 0))))
    \<and> (code = 1 \<or> code = 0)
    \<and> (case parse_args args Config_default of Inl err \<Rightarrow> w_tree w' = w_tree w \<and> out = []
          | Inr cfg \<Rightarrow> if cfg_help cfg then w' = w \<and> out = print_usage program else out = [])"
proof (cases "parse_args args Config_default")
  case (Inl err)
  with assms show ?thesis by (auto simp: main_start_def)
next
  case (Inr cfg)
  show ?thesis
  proof (cases "cfg_help cfg")
    case True
    with Inr assms show ?thesis by (auto simp: main_start_def)
  next
    case False
    with Inr assms show ?thesis
      by (auto simp: main_start_def daemonize_def Let_def split: prod.splits if_splits)
  qed
qed

definition start_env_ex :: "int \<Rightarrow> start_env" where
  "start_env_ex pid =
     \<lparr>se_io = io_all_ok, se_may_create = (\<lambda>_. True), se_realpath = True,
      se_daemon = daemon_env_ok\<lparr>de_fork := pid\<rparr>,
      se_time = \<lparr>tm_year = 125, tm_mon = 0, tm_mday = 1, tm_hour = 0, tm_min = 0, tm_sec = 0, tv_usec = 0\<rparr>,
      se_strerror = ''Permission denied''\<rparr>"

definition world_ex :: world where
  "world_ex = \<lparr>w_proc = proc_ex, w_tree = tree_ex,
     w_log = \<lparr>lw_logger = Logger_new, lw_fs = fs_empty, lw_stderr = []\<rparr>\<rparr>"

text \<open>The arguments \<open>--upload-dir up\<close>, with the process identifier \<open>fork\<close> returns.\<close>

lemma parse_upload_dir:
  "parse_args [''--upload-dir'', ''up''] Config_default = Inr (Config_default\<lparr>cfg_upload_dir := ''up''\<rparr>)"
  by (simp add: apply_option_def)

lemma Config_default_flags:
  "\<not> cfg_help Config_default" "\<not> cfg_foreground Config_default" "cfg_log_file Config_default = []"
  by (simp_all add: Config_default_def)

theorem main_start_ends_witness:
  "\<exists>out w'. main_start (start_env_ex 100) ''flashd'' [''--upload-dir'', ''up''] world_ex = Ends 0 out w'
    \<and> lw_fs (w_log w') = fs_empty \<and> w_proc w' = proc_ex \<and> out = []"
proof -
  have "\<exists>out w'. main_start (start_env_ex 100) ''flashd'' [''--upload-dir'', ''up''] world_ex = Ends 0 out w'"
    by (simp add: main_start_def parse_upload_dir Config_default_flags start_env_ex_def resolve_paths_def
        default_log_file_def daemonize_def Let_def
        del: parse_args.simps split: prod.splits)
  then obtain out w' where r: "main_start (start_env_ex 100) ''flashd'' [''--upload-dir'', ''up''] world_ex = Ends 0 out w'"
    by blast
  show ?thesis
    using main_start_ends [OF r] r by (simp add: parse_upload_dir world_ex_def Config_default_flags start_env_ex_def del: parse_args.simps)
qed

text \<open>The places on the way to an absolute path, and the directory that is made for it.\<close>

definition may_make :: "(string list \<Rightarrow> bool) \<Rightarrow> string list \<Rightarrow> tree \<Rightarrow> bool" where
  "may_make may p t \<longleftrightarrow> (\<forall>k<length p. t (take (Suc k) p) = None \<longrightarrow> may (take (Suc k) p) \<and> t (take k p) \<noteq> Some RegularFile)"

lemma mkdir_p_makes:
  assumes "tree_wf t" "list_all plain p" "p \<noteq> []" "may_make may p t"
  shows "snd (mkdir_p may cwd (abs_path p) t) p \<noteq> None"
proof -
  have m: "mkdir_p may cwd (abs_path p) t = make_dirs may [] p t"
    using mkdir_p_eq [OF assms(1-3), of "[]"] by simp
  have "t [] \<noteq> None" using assms(1) by (simp add: tree_wf_def)
  then have "fst (make_dirs may [] p t)"
    using assms(4) make_dirs_result [of t "[]" may p] by (simp add: may_make_def)
  moreover have "\<exists>k<length p. p = take (Suc k) p"
    using assms(3) by (intro exI [of _ "length p - 1"]) simp
  ultimately show ?thesis
    using make_dirs_tree [of may "[]" p t p] m by auto
qed



end
