(* ===== verification/SerialPort.thy ===== *)
theory SerialPort
  imports HttpCommand
begin

text \<open>
  The serial port of \<open>src/serial_port.cpp\<close>, the part of \<open>src/serial_daemon.cpp\<close> that opens and closes
  it, and the reader loop around it.

  libserialport and the kernel are the environment: whether a port can be found and opened, what a
  read gives, how many bytes a write takes. A read is a list of events, each with the milliseconds
  since the call began; \<open>readLine\<close> has no result (None) while the list has not decided it, so that
  not returning is visible.
\<close>

section \<open>Opening and closing\<close>

text \<open>
  \<open>mutex_\<close> is not recursive: \<open>open\<close> on an open port calls \<open>close\<close> while it holds the mutex, so the
  thread waits for itself; \<open>open_port\<close> has no result (None) then.
\<close>

record SerialPort =
  sp_port :: bool
  sp_raw_fd :: bool
  sp_device :: string

definition SerialPort_new :: SerialPort where
  "SerialPort_new = \<lparr>sp_port = False, sp_raw_fd = False, sp_device = []\<rparr>"

record port_env =
  pe_get_port :: bool
  pe_sp_open :: bool
  pe_posix_open :: bool
  pe_tcsetattr :: bool

definition port_is_open :: "SerialPort \<Rightarrow> bool" where
  "port_is_open p \<longleftrightarrow> sp_port p \<or> sp_raw_fd p"

text \<open>The speed set for a rate: the rate itself if it is in the table, 115200 otherwise.\<close>

definition baud_to_speed :: "int \<Rightarrow> int" where
  "baud_to_speed baud = (if baud \<in> {9600, 19200, 38400, 57600, 115200, 230400} then baud else 115200)"

definition open_posix :: "port_env \<Rightarrow> bool" where
  "open_posix e = (if \<not> pe_posix_open e then False else if \<not> pe_tcsetattr e then False else True)"

definition open_port :: "port_env \<Rightarrow> string \<Rightarrow> SerialPort \<Rightarrow> (bool \<times> SerialPort) option" where
  "open_port e device p =
     (if port_is_open p then None
      else let p = p\<lparr>sp_device := device\<rparr>
      in if pe_get_port e \<and> pe_sp_open e then Some (True, p\<lparr>sp_port := True\<rparr>)
      else let raw = open_posix e; p = p\<lparr>sp_raw_fd := raw\<rparr>
      in Some (raw, p))"

definition close_port :: "SerialPort \<Rightarrow> SerialPort" where
  "close_port p = p\<lparr>sp_port := False, sp_raw_fd := False\<rparr>"

section \<open>Lines\<close>

definition CR :: char where "CR = CHR 0x0D"

definition LF :: char where "LF = CHR 0x0A"

text \<open>\<open>wr n\<close> is what the write call returns for \<open>n\<close> bytes; the second component reached the line.\<close>

definition port_writeLine :: "(nat \<Rightarrow> int) \<Rightarrow> SerialPort \<Rightarrow> string \<Rightarrow> bool \<times> string" where
  "port_writeLine wr p cmd =
     (let data = cmd @ [CR, LF]
      in if port_is_open p then
           (let written = wr (length data)
            in if written < 0 then (False, []) else (True, take (nat written) data))
         else (False, []))"

datatype read_event = Byte char | NoData | ReadError

definition MAX_LINE_LEN :: nat where
  "MAX_LINE_LEN = 8192"

definition strip_cr :: "string \<Rightarrow> string" where
  "strip_cr response = (if response \<noteq> [] \<and> last response = CR then butlast response else response)"

fun read_loop ::
    "int \<Rightarrow> string \<Rightarrow> (int \<times> read_event) list \<Rightarrow> (bool \<times> string \<times> (int \<times> read_event) list) option" where
  "read_loop timeout_ms response [] = None"
| "read_loop timeout_ms response ((elapsed, ev) # evs) =
     (if timeout_ms \<le> elapsed then Some (False, response, (elapsed, ev) # evs)
      else case ev of
        Byte c \<Rightarrow>
          if c = LF then
            (let response = strip_cr response
             in if MAX_LINE_LEN < length response then Some (False, [], evs) else Some (True, response, evs))
          else read_loop timeout_ms (response @ [c]) evs
      | ReadError \<Rightarrow> Some (False, response, evs)
      | NoData \<Rightarrow> read_loop timeout_ms response evs)"

definition port_readLine ::
    "int \<Rightarrow> SerialPort \<Rightarrow> (int \<times> read_event) list \<Rightarrow> (bool \<times> string \<times> (int \<times> read_event) list) option" where
  "port_readLine timeout_ms p evs =
     (if \<not> port_is_open p then Some (False, [], evs) else read_loop timeout_ms [] evs)"

definition port_sendCommand ::
    "(nat \<Rightarrow> int) \<Rightarrow> int \<Rightarrow> SerialPort \<Rightarrow> string \<Rightarrow> (int \<times> read_event) list
       \<Rightarrow> (bool \<times> string \<times> (int \<times> read_event) list) option" where
  "port_sendCommand wr timeout_ms p cmd evs =
     (if \<not> fst (port_writeLine wr p cmd) then Some (False, [], evs) else port_readLine timeout_ms p evs)"

section \<open>The daemon around the port\<close>

definition daemon_start :: "port_env \<Rightarrow> Config \<Rightarrow> SerialPort \<Rightarrow> SerialPort option" where
  "daemon_start e cfg p =
     (if \<not> use_serial cfg then Some p else map_option snd (open_port e (cfg_serial_device cfg) p))"

definition daemon_stop :: "SerialPort \<Rightarrow> Owner \<Rightarrow> SerialPort \<times> Owner" where
  "daemon_stop p owner = (if port_is_open p then close_port p else p, NONE)"

definition daemon_writeLine :: "(nat \<Rightarrow> int) \<Rightarrow> SerialPort \<Rightarrow> string \<Rightarrow> bool \<times> string" where
  "daemon_writeLine wr p line = (if \<not> port_is_open p then (False, []) else port_writeLine wr p line)"

text \<open>
  One iteration of the reader loop: read a line for half a second; without one, reopen a closed
  port; with one, take the turn of \<open>serial_turn\<close> and write the answers. The result is the port, the
  unread events and what was done.
\<close>

datatype turn = Nothing | Turn serial_result string

definition reader_iteration ::
    "env \<Rightarrow> port_env \<Rightarrow> (nat \<Rightarrow> int) \<Rightarrow> Config \<Rightarrow> SerialPort \<Rightarrow> daemon \<Rightarrow> (int \<times> read_event) list
       \<Rightarrow> (SerialPort \<times> turn \<times> (int \<times> read_event) list) option" where
  "reader_iteration env pe wr cfg p d evs =
     (case port_readLine 500 p evs of
        None \<Rightarrow> None
      | Some (False, _, evs) \<Rightarrow>
          (if \<not> port_is_open p then
             map_option (\<lambda>(ok, p). (p, Nothing, evs)) (open_port pe (cfg_serial_device cfg) p)
           else Some (p, Nothing, evs))
      | Some (True, line, evs) \<Rightarrow>
          (let res = serial_turn env cfg line d;
               out = (case res of
                        Writes responses _ \<Rightarrow> concat (map (\<lambda>r. snd (daemon_writeLine wr p r)) responses)
                      | _ \<Rightarrow> [])
           in Some (p, Turn res out, evs)))"

text \<open>The loop never opens an open port, so it never waits for itself.\<close>

lemma reader_no_deadlock:
  "port_readLine 500 p evs \<noteq> None \<Longrightarrow> reader_iteration env pe wr cfg p d evs \<noteq> None"
  by (auto simp: reader_iteration_def open_port_def Let_def split: option.splits bool.splits)

section \<open>Properties\<close>

fun event_bytes :: "(int \<times> read_event) list \<Rightarrow> string" where
  "event_bytes [] = []"
| "event_bytes ((_, Byte c) # evs) = c # event_bytes evs"
| "event_bytes ((_, NoData) # evs) = event_bytes evs"
| "event_bytes ((_, ReadError) # evs) = event_bytes evs"

lemma read_loop_line:
  assumes "event_bytes evs = cmd" "LF \<notin> set cmd" "\<forall>(t, ev) \<in> set evs. t < timeout_ms \<and> ev \<noteq> ReadError"
  shows "read_loop timeout_ms response (evs @ later) = read_loop timeout_ms (response @ cmd) later"
  using assms
  by (induction evs arbitrary: cmd response rule: event_bytes.induct) auto

lemma strip_cr_snoc: "strip_cr (s @ [CR]) = s"
  by (simp add: strip_cr_def)

text \<open>
  C33: a line survives the wire. Whatever \<open>writeLine\<close> sends for a command without line feed of at
  most 8192 characters, when all of it was taken and arrives before the timeout, in pieces and with
  pauses of any pattern, \<open>readLine\<close> returns exactly the command and leaves what follows unread.
\<close>

theorem line_roundtrip:
  assumes "port_writeLine wr p cmd = (True, out)" "wr (length cmd + 2) = int (length cmd + 2)"
    and "LF \<notin> set cmd" "length cmd \<le> MAX_LINE_LEN"
    and "event_bytes evs = butlast out" "\<forall>(t, ev) \<in> set evs. t < timeout_ms \<and> ev \<noteq> ReadError" "t < timeout_ms"
  shows "port_readLine timeout_ms p (evs @ (t, Byte (last out)) # later) = Some (True, cmd, later)"
proof -
  have p: "port_is_open p" and out: "out = cmd @ [CR, LF]"
    using assms(1,2) by (auto simp: port_writeLine_def Let_def split: if_splits)
  have "event_bytes evs = cmd @ [CR]" "last out = LF" "LF \<notin> set (cmd @ [CR])"
    using assms(3,5) out by (auto simp: butlast_append CR_def LF_def)
  then show ?thesis
    using read_loop_line [OF _ _ assms(6), of "cmd @ [CR]" "[]" "(t, Byte LF) # later"] p assms(4,7)
    by (simp add: port_readLine_def strip_cr_snoc not_less)
qed

theorem line_roundtrip_witness:
  "port_readLine 500 (SerialPort_new\<lparr>sp_raw_fd := True\<rparr>)
      ([(0, NoData), (3, Byte CHR ''O''), (101, NoData), (102, Byte CHR ''K''), (103, Byte CR)]
        @ (104, Byte (last (''OK'' @ [CR, LF]))) # [(0, Byte CHR ''A'')])
   = Some (True, ''OK'', [(0, Byte CHR ''A'')])"
  by (rule line_roundtrip [where wr = int])
     (simp_all add: port_writeLine_def port_is_open_def SerialPort_new_def MAX_LINE_LEN_def CR_def LF_def)

lemma read_loop_bound:
  assumes "read_loop timeout_ms response evs = Some (True, line, rest)" "LF \<notin> set response"
  shows "length line \<le> MAX_LINE_LEN \<and> LF \<notin> set line"
  using assms
proof (induction timeout_ms response evs rule: read_loop.induct)
  case (1 timeout_ms response)
  then show ?case by simp
next
  case (2 timeout_ms response elapsed ev evs)
  then show ?case
    by (auto simp: strip_cr_def Let_def dest: in_set_butlastD split: if_splits read_event.splits)
qed

lemma read_loop_returns:
  assumes "\<exists>x \<in> set evs. timeout_ms \<le> fst x"
  shows "read_loop timeout_ms response evs \<noteq> None"
  using assms
proof (induction evs arbitrary: response)
  case (Cons x evs)
  obtain t ev where x: "x = (t, ev)" by fastforce
  show ?case
  proof (cases "timeout_ms \<le> t")
    case False
    with Cons.prems x have "\<exists>x \<in> set evs. timeout_ms \<le> fst x" by auto
    with Cons.IH show ?thesis
      by (cases ev) (simp_all add: x Let_def del: not_None_eq)
  qed (simp add: x)
qed simp

text \<open>
  C34: reading is bounded in time and its result in size: once the clock has passed the timeout the
  call has returned, whatever was or was not received, and a line it returns has at most 8192
  characters, none of them a line feed.
\<close>

theorem readLine_bounded:
  assumes "\<exists>x \<in> set evs. timeout_ms \<le> fst x"
  shows "\<exists>ok line rest. port_readLine timeout_ms p evs = Some (ok, line, rest)
    \<and> (\<not> ok \<or> length line \<le> MAX_LINE_LEN \<and> LF \<notin> set line)"
proof (cases "port_is_open p")
  case True
  then obtain ok line rest where r: "port_readLine timeout_ms p evs = Some (ok, line, rest)"
    using read_loop_returns [OF assms, of "[]"] by (auto simp: port_readLine_def)
  then show ?thesis
    using True read_loop_bound [of timeout_ms "[]" evs line rest] by (cases ok) (auto simp: port_readLine_def)
qed (auto simp: port_readLine_def)

theorem readLine_bounded_witness:
  "\<exists>ok line rest. port_readLine 500 (SerialPort_new\<lparr>sp_port := True\<rparr>) [(0, Byte CHR ''x''), (600, NoData)] = Some (ok, line, rest)
    \<and> (\<not> ok \<or> length line \<le> MAX_LINE_LEN \<and> LF \<notin> set line)"
  by (rule readLine_bounded) simp

end
