(* ===== verification/Lifecycle.thy ===== *)
theory Lifecycle
  imports HttpUpload SerialPort Daemonize Transition
begin

text \<open>
  The whole daemon at work: \<open>main\<close> of \<open>src/main.cpp\<close> from the signal handlers on, the serial reader
  thread (\<open>start_reader\<close>, \<open>stop_reader\<close>, \<open>start\<close>, \<open>stop\<close> of \<open>src/serial_daemon.cpp\<close>), the HTTP thread
  (\<open>start\<close>, \<open>stop\<close> of \<open>src/http_server.cpp\<close>), the flash worker and the signals, in any interleaving.

  Each thread is at a statement; a step executes one. What is done under \<open>io_mutex_\<close> is one step, as
  is the processing of one command by \<open>AtCommand::process\<close> (how the threads interleave at the session
  lock inside a command is the subject of theory \<open>Session\<close>). A step has no result (None) while its
  thread waits: for the reader to be joined, for the HTTP thread to end its request, for the flash
  worker, for the end of a read.
\<close>

section \<open>The state\<close>

text \<open>Who called \<open>stop_reader\<close>: \<open>main\<close>, \<open>stop\<close>, or \<open>stop\<close> in the destructor.\<close>

datatype stop_call = FromMain | FromStop | FromDtor

datatype main_pc =
    MSignals | MSerialStart | MReaderStart | MHttpStart | MWait | MHttpStop
  | MStopReader stop_call | MStopReaderClose stop_call | MStopReaderJoin stop_call
  | MStopClose bool | MStopOwner bool | MCleanup | MLogShutdown | MHttpDtor | MAtDtor | MReturn

text \<open>
  \<open>NoThread\<close>: \<open>reader_thread_\<close> is not joinable; \<open>RDone\<close>: the loop has ended and the thread was not
  joined. \<open>RHandle line\<close> is before the call of the handler, \<open>RWait\<close> inside it.
\<close>

datatype reader_pc =
    NoThread | RTest | RRead | RFailed | RReconnect | RGot string | ROwner string | RBusy
  | RHandle string | RWait flash_wait | RWrite string | RDone

text \<open>
  \<open>Aborted\<close>: \<open>std::terminate\<close> was called. \<open>y_conns\<close> are the \<open>ConnectionState\<close> objects on the heap, by the
  number of the request each was made for (a number is used once); \<open>y_reqs\<close> are the requests that
  libmicrohttpd has in progress, those it calls \<open>accessHandler\<close> for.
\<close>

datatype proc_status = Alive | Exited int | Aborted | Killed signal

record sys =
  y_status :: proc_status
  y_main :: main_pc
  y_code :: int
  y_proc :: proc
  y_port :: SerialPort
  y_wire :: string
  y_reader_running :: bool
  y_reader :: reader_pc
  y_http :: bool
  y_http_wait :: "flash_wait option"
  y_conns :: "nat \<Rightarrow> ConnectionState option"
  y_reqs :: "nat set"
  y_d :: daemon

definition sys_start :: "proc \<Rightarrow> fs \<Rightarrow> sys" where
  "sys_start p fs =
     \<lparr>y_status = Alive, y_main = MSignals, y_code = 0, y_proc = p, y_port = SerialPort_new, y_wire = [],
      y_reader_running = False, y_reader = NoThread, y_http = False, y_http_wait = None,
      y_conns = (\<lambda>_. None), y_reqs = {}, y_d = daemon_new fs\<rparr>"

section \<open>The main thread\<close>

definition start_reader :: "Config \<Rightarrow> sys \<Rightarrow> sys" where
  "start_reader cfg s =
     (if \<not> use_serial cfg then s
      else if y_reader_running s then s
      else let s = s\<lparr>y_reader_running := True\<rparr>
      in if y_reader s \<noteq> NoThread then s\<lparr>y_status := Aborted\<rparr> else s\<lparr>y_reader := RTest\<rparr>)"

text \<open>Where \<open>stop_reader\<close> returns to.\<close>

fun after_stop :: "stop_call \<Rightarrow> main_pc" where
  "after_stop FromMain = MStopReader FromStop"
| "after_stop FromStop = MStopClose False"
| "after_stop FromDtor = MStopClose True"

definition close_if_open :: "SerialPort \<Rightarrow> SerialPort" where
  "close_if_open p = (if port_is_open p then close_port p else p)"

text \<open>The three steps of \<open>stop_reader\<close> (\<open>join\<close> waits for the end of the loop), and the rest of \<open>stop\<close>.\<close>

definition stop_reader_test :: "stop_call \<Rightarrow> sys \<Rightarrow> sys" where
  "stop_reader_test k s =
     (if \<not> y_reader_running s then s\<lparr>y_main := after_stop k\<rparr>
      else s\<lparr>y_reader_running := False, y_main := MStopReaderClose k\<rparr>)"

definition stop_reader_close :: "stop_call \<Rightarrow> sys \<Rightarrow> sys" where
  "stop_reader_close k s = s\<lparr>y_port := close_if_open (y_port s), y_main := MStopReaderJoin k\<rparr>"

definition stop_reader_join :: "stop_call \<Rightarrow> sys \<Rightarrow> sys option" where
  "stop_reader_join k s =
     (if y_reader s \<noteq> NoThread \<and> y_reader s \<noteq> RDone then None
      else Some (s\<lparr>y_reader := NoThread, y_main := after_stop k\<rparr>))"

definition stop_close :: "bool \<Rightarrow> sys \<Rightarrow> sys" where
  "stop_close b s = s\<lparr>y_port := close_if_open (y_port s), y_main := MStopOwner b\<rparr>"

definition stop_owner :: "bool \<Rightarrow> sys \<Rightarrow> sys" where
  "stop_owner b s = s\<lparr>y_d := (y_d s)\<lparr>d_owner := NONE\<rparr>, y_main := (if b then MReturn else MCleanup)\<rparr>"

text \<open>
  \<open>HttpServer::start\<close> keeps what \<open>MHD_start_daemon\<close> returns (the member is not initialised before, but
  nothing reads it before either).
\<close>

definition http_start :: "bool \<Rightarrow> sys \<Rightarrow> sys" where
  "http_start starts s = s\<lparr>y_http := starts\<rparr>"

definition http_is_running :: "sys \<Rightarrow> bool" where
  "http_is_running s \<longleftrightarrow> y_http s"

text \<open>
  \<open>HttpServer::stop\<close>: \<open>MHD_stop_daemon\<close> waits for the thread that serves requests.
\<close>

definition http_stop :: "sys \<Rightarrow> sys option" where
  "http_stop s =
     (if y_http s then
        (if y_http_wait s \<noteq> None then None else Some (s\<lparr>y_http := False\<rparr>))
      else Some s)"

record main_env =
  me_port :: port_env
  me_mhd_start :: bool
  me_io :: io

text \<open>
  \<open>main\<close> from line 86 on. The end of \<open>main\<close> destroys the members and the function-local statics: a
  joinable \<open>std::thread\<close> in \<open>SerialDaemon\<close> or \<open>FlashOp\<close> calls \<open>std::terminate\<close>.
\<close>

definition main_step :: "Config \<Rightarrow> main_env \<Rightarrow> sys \<Rightarrow> sys option" where
  "main_step cfg e s =
     (case y_main s of
        MSignals \<Rightarrow> Some (s\<lparr>y_proc := setup_signals (y_proc s), y_main := MSerialStart\<rparr>)
      | MSerialStart \<Rightarrow>
          map_option (\<lambda>p. s\<lparr>y_port := p, y_main := MReaderStart\<rparr>) (daemon_start (me_port e) cfg (y_port s))
      | MReaderStart \<Rightarrow> Some ((if use_serial cfg then start_reader cfg s else s)\<lparr>y_main := MHttpStart\<rparr>)
      | MHttpStart \<Rightarrow>
          (let s = http_start (me_mhd_start e) s
           in if http_is_running s then Some (s\<lparr>y_main := MWait\<rparr>)
              else Some (s\<lparr>y_code := 1, y_main := MStopReader FromStop\<rparr>))
      | MWait \<Rightarrow> if is_running (y_proc s) then Some s else Some (s\<lparr>y_main := MHttpStop\<rparr>)
      | MHttpStop \<Rightarrow> map_option (\<lambda>s. s\<lparr>y_main := MStopReader FromMain\<rparr>) (http_stop s)
      | MStopReader k \<Rightarrow> Some (stop_reader_test k s)
      | MStopReaderClose k \<Rightarrow> Some (stop_reader_close k s)
      | MStopReaderJoin k \<Rightarrow> stop_reader_join k s
      | MStopClose b \<Rightarrow> Some (stop_close b s)
      | MStopOwner b \<Rightarrow> Some (stop_owner b s)
      | MCleanup \<Rightarrow>
          Some ((if \<not> cfg_foreground cfg
                 then s\<lparr>y_d := (y_d s)\<lparr>d_fs := cleanup_pid_file (me_io e) cfg (y_proc s, d_fs (y_d s))\<rparr>\<rparr> else s)
            \<lparr>y_main := (if y_code s = 0 then MLogShutdown else MHttpDtor)\<rparr>)
      | MLogShutdown \<Rightarrow> Some (s\<lparr>y_main := MHttpDtor\<rparr>)
      | MHttpDtor \<Rightarrow> map_option (\<lambda>s. s\<lparr>y_main := MAtDtor\<rparr>) (http_stop s)
      | MAtDtor \<Rightarrow> Some (s\<lparr>y_main := MStopReader FromDtor\<rparr>)
      | MReturn \<Rightarrow>
          Some (s\<lparr>y_status := (if y_reader s \<noteq> NoThread \<or> f_worker (d_flash (y_d s)) \<noteq> NotJoinable
                              then Aborted else Exited (y_code s))\<rparr>))"

lemmas main_step_defs = main_step_def stop_reader_test_def stop_reader_close_def stop_reader_join_def
  stop_close_def stop_owner_def http_start_def http_is_running_def Let_def

section \<open>The reader thread\<close>

text \<open>\<open>SerialDaemon::readLine\<close>\<close>

definition daemon_readLine ::
    "int \<Rightarrow> SerialPort \<Rightarrow> (int \<times> read_event) list \<Rightarrow> (bool \<times> string \<times> (int \<times> read_event) list) option" where
  "daemon_readLine timeout_ms p evs =
     (if \<not> port_is_open p then Some (False, [], evs) else port_readLine timeout_ms p evs)"

record reader_env =
  re_env :: env
  re_port :: port_env
  re_write :: "nat \<Rightarrow> int"
  re_events :: "(int \<times> read_event) list"

text \<open>The environment of a command; \<open>is_open()\<close> is answered by the port.\<close>

definition cmd_env :: "env \<Rightarrow> sys \<Rightarrow> env" where
  "cmd_env env s = env\<lparr>e_serial_open := port_is_open (y_port s)\<rparr>"

definition send_line :: "(nat \<Rightarrow> int) \<Rightarrow> string \<Rightarrow> sys \<Rightarrow> sys" where
  "send_line wr line s = s\<lparr>y_wire := y_wire s @ snd (daemon_writeLine wr (y_port s) line)\<rparr>"

definition reader_step :: "Config \<Rightarrow> reader_env \<Rightarrow> sys \<Rightarrow> sys option" where
  "reader_step cfg e s =
     (case y_reader s of
        NoThread \<Rightarrow> None
      | RTest \<Rightarrow> Some (s\<lparr>y_reader := (if y_reader_running s then RRead else RDone)\<rparr>)
      | RRead \<Rightarrow>
          map_option (\<lambda>(ok, line, _). s\<lparr>y_reader := (if ok then RGot line else RFailed)\<rparr>)
            (daemon_readLine 500 (y_port s) (re_events e))
      | RFailed \<Rightarrow> Some (s\<lparr>y_reader := (if \<not> y_reader_running s then RDone else RReconnect)\<rparr>)
      | RReconnect \<Rightarrow>
          if \<not> port_is_open (y_port s) then
            map_option (\<lambda>(_, p). s\<lparr>y_port := p, y_reader := RTest\<rparr>)
              (open_port (re_port e) (cfg_serial_device cfg) (y_port s))
          else Some (s\<lparr>y_reader := RTest\<rparr>)
      | RGot line \<Rightarrow>
          (let (acquired, owner) = try_acquire SERIAL (d_owner (y_d s))
           in Some (s\<lparr>y_d := (y_d s)\<lparr>d_owner := owner\<rparr>, y_reader := (if acquired then RHandle line else ROwner line)\<rparr>))
      | ROwner line \<Rightarrow> Some (s\<lparr>y_reader := (if d_owner (y_d s) \<noteq> SERIAL then RBusy else RHandle line)\<rparr>)
      | RBusy \<Rightarrow> Some ((send_line (re_write e) ''BUSY'' s)\<lparr>y_reader := RTest\<rparr>)
      | RHandle line \<Rightarrow>
          (case process (cmd_env (re_env e) s) cfg line SERIAL (y_d s) of
             Replies response d \<Rightarrow> Some (s\<lparr>y_d := d, y_reader := RWrite response\<rparr>)
           | Joins w d \<Rightarrow> Some (s\<lparr>y_d := d, y_reader := RWait w\<rparr>)
           | Dies \<Rightarrow> Some (s\<lparr>y_status := Aborted\<rparr>))
      | RWait w \<Rightarrow>
          if can_join (d_flash (y_d s)) then
            (let (response, d) = process_joined w (y_d s) in Some (s\<lparr>y_d := d, y_reader := RWrite response\<rparr>))
          else None
      | RWrite response \<Rightarrow>
          Some ((if response \<noteq> [] then send_line (re_write e) response s else s)\<lparr>y_reader := RTest\<rparr>)
      | RDone \<Rightarrow> None)"

section \<open>The HTTP thread\<close>

text \<open>
  Calls of libmicrohttpd: the first and the later calls of \<open>accessHandler\<close> for a request (a number),
  and the rest of a call that waited for the flash worker. A queued response ends the request, and so
  does \<open>HGone\<close>: the client disconnected, or the connection timed out (120 seconds). The daemon is
  started without a completion callback, so no code runs when a request ends. The first call makes a
  \<open>ConnectionState\<close>, which only the debug endpoint deletes, in the same call.
\<close>

datatype http_call =
    HFirst nat string string bool bool
  | HCall nat env string "part list"
  | HJoined
  | HGone nat

definition http_step ::
    "(string \<Rightarrow> json_request) \<Rightarrow> (string \<Rightarrow> bool) \<Rightarrow> Config \<Rightarrow> http_call \<Rightarrow> sys \<Rightarrow> sys option" where
  "http_step parse dumpable cfg call s =
     (if \<not> y_http s then None
      else case call of
        HFirst n url meth debug multipart \<Rightarrow>
          if y_http_wait s \<noteq> None \<or> y_conns s n \<noteq> None then None
          else (case access_first debug multipart cfg url meth (d_owner (y_d s)) of
              Accepts c \<Rightarrow> Some (s\<lparr>y_conns := (y_conns s)(n \<mapsto> c), y_reqs := insert n (y_reqs s)\<rparr>)
            | Debug code json owner \<Rightarrow> Some (s\<lparr>y_d := (y_d s)\<lparr>d_owner := owner\<rparr>\<rparr>))
      | HCall n env upload_data parts \<Rightarrow>
          if y_http_wait s \<noteq> None \<or> n \<notin> y_reqs s then None
          else (case y_conns s n of
              None \<Rightarrow> None
            | Some c \<Rightarrow>
                (case access_handler parse dumpable (cmd_env env s) cfg upload_data parts c (y_d s) of
                   Yes c d \<Rightarrow> Some (s\<lparr>y_d := d, y_conns := (y_conns s)(n \<mapsto> c)\<rparr>)
                 | Queues code json c d \<Rightarrow>
                     Some (s\<lparr>y_d := d, y_conns := (y_conns s)(n \<mapsto> c), y_reqs := y_reqs s - {n}\<rparr>)
                 | AccessJoins w d \<Rightarrow> Some (s\<lparr>y_d := d, y_reqs := y_reqs s - {n}, y_http_wait := Some w\<rparr>)
                 | AccessDies \<Rightarrow> Some (s\<lparr>y_status := Aborted\<rparr>)))
      | HJoined \<Rightarrow>
          (case y_http_wait s of
             None \<Rightarrow> None
           | Some w \<Rightarrow>
               if \<not> can_join (d_flash (y_d s)) then None
               else (case http_joined dumpable w (y_d s) of
                   Response code json d \<Rightarrow> Some (s\<lparr>y_d := d, y_http_wait := None\<rparr>)
                 | _ \<Rightarrow> Some (s\<lparr>y_status := Aborted\<rparr>)))
      | HGone n \<Rightarrow>
          if y_http_wait s \<noteq> None \<or> n \<notin> y_reqs s then None else Some (s\<lparr>y_reqs := y_reqs s - {n}\<rparr>))"

section \<open>All of them together\<close>

datatype sys_label =
    Main main_env | Reader reader_env | Http http_call | Worker worker_event | Signal signal

inductive sys_step ::
    "(string \<Rightarrow> json_request) \<Rightarrow> (string \<Rightarrow> bool) \<Rightarrow> Config \<Rightarrow> sys \<Rightarrow> sys_label \<Rightarrow> sys \<Rightarrow> bool"
  for parse :: "string \<Rightarrow> json_request" and dumpable :: "string \<Rightarrow> bool" and cfg :: Config where
  by_main: "y_status s = Alive \<Longrightarrow> main_step cfg e s = Some t \<Longrightarrow> sys_step parse dumpable cfg s (Main e) t"
| by_reader: "y_status s = Alive \<Longrightarrow> reader_step cfg e s = Some t \<Longrightarrow> sys_step parse dumpable cfg s (Reader e) t"
| by_http: "y_status s = Alive \<Longrightarrow> http_step parse dumpable cfg c s = Some t \<Longrightarrow>
    sys_step parse dumpable cfg s (Http c) t"
| by_worker: "y_status s = Alive \<Longrightarrow> worker_step e (d_flash (y_d s)) = Some op \<Longrightarrow>
    sys_step parse dumpable cfg s (Worker e) (s\<lparr>y_d := (y_d s)\<lparr>d_flash := op\<rparr>\<rparr>)"
| by_signal: "y_status s = Alive \<Longrightarrow> deliver sig (y_proc s) = Some p \<Longrightarrow>
    sys_step parse dumpable cfg s (Signal sig) (s\<lparr>y_proc := p\<rparr>)"
| by_signal_kills: "y_status s = Alive \<Longrightarrow> deliver sig (y_proc s) = None \<Longrightarrow>
    sys_step parse dumpable cfg s (Signal sig) (s\<lparr>y_status := Killed sig\<rparr>)"

inductive_cases sys_stepE: "sys_step parse dumpable cfg s l t"

inductive_cases sys_step_mainE: "sys_step parse dumpable cfg s (Main e) t"

inductive_cases sys_step_readerE: "sys_step parse dumpable cfg s (Reader e) t"

abbreviation sys_run ::
    "(string \<Rightarrow> json_request) \<Rightarrow> (string \<Rightarrow> bool) \<Rightarrow> Config \<Rightarrow> sys \<Rightarrow> sys_label list \<Rightarrow> sys \<Rightarrow> bool" where
  "sys_run parse dumpable cfg \<equiv> runs (sys_step parse dumpable cfg)"

end
