(* ===== verification/Daemon_Inv.thy ===== *)
theory Daemon_Inv
  imports HttpUpload
begin

text \<open>
  Well-formedness of the daemon's state in every environment, and its preservation by every command,
  every HTTP call, every step of the flash worker: the upload session is active exactly when it has a
  stream, the flags of the flash job fit the worker's position, no two names share an inode.
\<close>

definition daemon_wf :: "daemon \<Rightarrow> bool" where
  "daemon_wf d \<longleftrightarrow> upload_shape (d_upload d) \<and> flash_inv (d_flash d) \<and> fs_wf (d_fs d)"

lemma daemon_wf_new: "fs_wf fs \<Longrightarrow> daemon_wf (daemon_new fs)"
  by (simp add: daemon_wf_def daemon_new_def flash_inv_new upload_shape_def UploadState_new_def)

lemma daemon_wf_owner [simp]: "daemon_wf (d\<lparr>d_owner := w\<rparr>) = daemon_wf d"
  by (simp add: daemon_wf_def)

lemma daemon_wf_flash: "daemon_wf d \<Longrightarrow> flash_inv op \<Longrightarrow> daemon_wf (d\<lparr>d_flash := op\<rparr>)"
  by (simp add: daemon_wf_def)

lemma daemon_wf_fs: "daemon_wf d \<Longrightarrow> fs_wf fs \<Longrightarrow> daemon_wf (d\<lparr>d_fs := fs\<rparr>)"
  by (simp add: daemon_wf_def)

section \<open>The upload handlers\<close>

definition upload_wf :: "UploadState \<times> fs \<Rightarrow> bool" where
  "upload_wf = (\<lambda>(u, fs). upload_shape u \<and> fs_wf fs)"

lemma upload_wf_preupload: "upload_wf s \<Longrightarrow> upload_wf (snd (handle_preupload io cfg arg s))"
proof -
  assume wf: "upload_wf s"
  obtain u fs where s: "s = (u, fs)" by fastforce
  obtain reply u' fs' where h: "handle_preupload io cfg arg (u, fs) = (reply, u', fs')" by (rule prod_cases3)
  then show ?thesis
  proof (cases rule: handle_preupload_cases)
    case refused
    with wf s h show ?thesis by simp
  next
    case (opened name n md5 f)
    with wf s h fs_wf_fopen [OF _ opened(4)] show ?thesis
      by (simp add: upload_wf_def upload_shape_def)
  qed
qed

lemma upload_wf_frame: "upload_wf s \<Longrightarrow> upload_wf (snd (handle_upload_frame io arg s))"
proof -
  assume wf: "upload_wf s"
  obtain u fs where s: "s = (u, fs)" by fastforce
  obtain reply u' fs' where h: "handle_upload_frame io arg (u, fs) = (reply, u', fs')" by (rule prod_cases3)
  then show ?thesis
  proof (cases rule: handle_upload_frame_cases)
    case refused
    with wf s h show ?thesis by simp
  next
    case (stored f crc bin)
    from stored(3) have "upload_shape u'"
      by (cases rule: store_frame_cases)
         (use wf s stored(1,2) in \<open>auto simp: upload_wf_def upload_shape_def MD5_update_wf\<close>)
    with wf s h stored(4) show ?thesis by (simp add: upload_wf_def)
  qed
qed

lemma upload_wf_done: "upload_wf s \<Longrightarrow> upload_wf (snd (handle_uploaddone io cfg s))"
proof -
  assume wf: "upload_wf s"
  obtain u fs where s: "s = (u, fs)" by fastforce
  obtain reply u' fs' where h: "handle_uploaddone io cfg (u, fs) = (reply, u', fs')" by (rule prod_cases3)
  then show ?thesis
  proof (cases rule: handle_uploaddone_cases)
    case idle
    with wf s h show ?thesis by simp
  next
    case (failed f)
    with wf s h show ?thesis by (simp add: upload_wf_def upload_shape_def fs_wf_unlink fs_wf_fclose)
  next
    case (saved f)
    with wf s h show ?thesis
      by (auto simp: upload_wf_def upload_shape_def intro: fs_wf_rename [OF fs_wf_fclose])
  qed
qed

lemma upload_wf_cancel: "upload_wf s \<Longrightarrow> upload_wf (snd (handle_uploadcancel io s))"
proof -
  assume wf: "upload_wf s"
  obtain u fs where s: "s = (u, fs)" by fastforce
  have fs: "fs_wf (snd (snd (handle_uploadcancel io (u, fs))))"
    using wf s by (auto simp: handle_uploadcancel_def upload_wf_def Let_def fs_wf_unlink fs_wf_fclose split: option.splits)
  obtain reply u' fs' where h: "handle_uploadcancel io (u, fs) = (reply, u', fs')" by (rule prod_cases3)
  then show ?thesis
    using wf s fs h by (cases rule: handle_uploadcancel_cases) (auto simp: upload_wf_def upload_shape_def)
qed

lemma upload_wf_call: "upload_wf s \<Longrightarrow> upload_wf (snd (upload_call cfg (io, c) s))"
  by (cases c) (simp_all add: upload_wf_preupload upload_wf_frame upload_wf_done upload_wf_cancel)

section \<open>Commands\<close>

definition outcome_wf :: "outcome \<Rightarrow> bool" where
  "outcome_wf out = (case out of Replies r d \<Rightarrow> daemon_wf d | Joins w d \<Rightarrow> daemon_wf d | Dies \<Rightarrow> True)"

lemma outcome_wf_upload:
  assumes "daemon_wf d"
  shows "outcome_wf (with_upload d (upload_call cfg (io, c) (d_upload d, d_fs d)))"
proof -
  have "upload_wf (snd (upload_call cfg (io, c) (d_upload d, d_fs d)))"
    by (rule upload_wf_call) (use assms in \<open>simp add: upload_wf_def daemon_wf_def\<close>)
  then show ?thesis
    using assms by (auto simp: with_upload_def outcome_wf_def daemon_wf_def upload_wf_def split: prod.splits)
qed

lemma outcome_wf_flash:
  assumes "daemon_wf d"
  shows "outcome_wf (with_flash d (handle_flash cfg arg (d_flash d)))"
    and "outcome_wf (with_flash d (handle_flashdone now (d_flash d)))"
proof -
  have inv: "flash_inv (d_flash d)" using assms by (simp add: daemon_wf_def)
  show "outcome_wf (with_flash d (handle_flash cfg arg (d_flash d)))"
    using assms flash_inv_submit [OF _ inv, of cfg arg]
    by (auto simp: with_flash_def outcome_wf_def daemon_wf_flash handle_flash_def Let_def
        split: flash_result.splits sum.splits if_splits)
  show "outcome_wf (with_flash d (handle_flashdone now (d_flash d)))"
    using assms flash_inv_poll [OF _ inv, of now] wait_inv_poll [OF _ inv, of now]
    by (auto simp: with_flash_def outcome_wf_def daemon_wf_flash split: flash_result.splits)
qed

lemma outcome_wf_action:
  assumes "daemon_wf d"
  shows "outcome_wf (run_action env cfg caller action arg d)"
proof (cases "action \<in> {''PREUPLOAD'', ''UPLOAD'', ''UPLOADDONE'', ''UPLOADCANCEL''}")
  case True
  then show ?thesis
    by (auto simp: run_action_simps simp del: upload_call.simps intro!: outcome_wf_upload [OF assms])
next
  case False
  show ?thesis
  proof (cases "action \<in> {''FLASH'', ''TRYFLASHDONE'', ''RESET'', ''FORCERESET''}")
    case True
    have owner: "outcome_wf (with_owner d x)" for x
      using assms by (cases x) (simp add: with_owner_def outcome_wf_def)
    from True show ?thesis
      by (auto simp only: insert_iff empty_iff run_action_simps outcome_wf_flash [OF assms] owner)
  next
    case no: False
    obtain r where "run_action env cfg caller action arg d = Replies r d"
      using run_action_other [of action env cfg caller arg d] False no by blast
    then show ?thesis using assms by (simp add: outcome_wf_def)
  qed
qed

lemma process_wf: "daemon_wf d \<Longrightarrow> outcome_wf (process env cfg raw caller d)"
  by (auto simp: process_def outcome_wf_action split: sum.splits) (simp add: outcome_wf_def)

lemma process_joined_wf: "daemon_wf d \<Longrightarrow> process_joined w d = (r, d') \<Longrightarrow> daemon_wf d'"
  using flash_inv_joined by (auto simp: process_joined_def daemon_wf_flash Let_def split: prod.splits)

lemma worker_wf: "daemon_wf d \<Longrightarrow> worker_step e (d_flash d) = Some op \<Longrightarrow> daemon_wf (d\<lparr>d_flash := op\<rparr>)"
  using flash_inv_work by (simp add: daemon_wf_def)

section \<open>HTTP calls\<close>

lemma fs_wf_post_field: "fs_wf fs \<Longrightarrow> fs_wf (snd (snd (post_field io now p (c, fs))))"
  by (auto simp: post_field_def Let_def fs_wf_fopen split: option.splits prod.splits if_splits)

lemma fs_wf_post_process: "fs_wf (snd s) \<Longrightarrow> fs_wf (snd (post_process io now ps s))"
proof (induction ps arbitrary: s)
  case (Cons p ps)
  obtain c fs where s: "s = (c, fs)" by fastforce
  have "fs_wf (snd (snd (post_field io now p s)))"
    using fs_wf_post_field Cons.prems by (simp add: s)
  then show ?case
    using Cons.IH [of "snd (post_field io now p s)"] by (simp add: case_prod_unfold Let_def)
qed simp

fun upload_result_fs :: "upload_result \<Rightarrow> fs" where
  "upload_result_fs (Waits c fs) = fs"
| "upload_result_fs (Answers code json c fs) = fs"

lemma fs_wf_handle_upload:
  assumes "fs_wf fs"
  shows "fs_wf (upload_result_fs (handle_upload io cfg now data (c, fs)))"
proof (cases data)
  case (Some parts)
  then show ?thesis
    using assms fs_wf_post_process [of "(c\<lparr>c_upload_data_received := True\<rparr>, fs)" io now parts]
    by (simp add: handle_upload_def case_prod_unfold Let_def)
next
  case None
  show ?thesis
  proof (cases "c_upload_file c")
    case None
    with assms \<open>data = None\<close> show ?thesis by (simp add: handle_upload_def)
  next
    case (Some f)
    obtain moved fs' where m: "rename io (fclose io fs f) (c_upload_tmp_path c) (cfg_upload_dir cfg @ ''/'' @ c_upload_filename c)
        = (moved, fs')" by fastforce
    have "fs_wf (fclose io fs f)" "fs_wf fs'"
      using assms fs_wf_rename [OF _ m] by (simp_all add: fs_wf_fclose)
    with Some assms \<open>data = None\<close> m show ?thesis
      by (simp add: handle_upload_def Let_def fs_wf_unlink)
  qed
qed

definition http_result_wf :: "http_result \<Rightarrow> bool" where
  "http_result_wf res = (case res of More body d \<Rightarrow> daemon_wf d | Response code json d \<Rightarrow> daemon_wf d
     | HttpJoins w d \<Rightarrow> daemon_wf d | HttpDies \<Rightarrow> True)"

lemma send_json_wf: "daemon_wf d \<Longrightarrow> http_result_wf (send_json dumpable code json d)"
  by (simp add: send_json_def http_result_wf_def)

lemma command_response_wf: "outcome_wf out \<Longrightarrow> http_result_wf (command_response dumpable out)"
  by (cases out) (simp_all add: command_response_def outcome_wf_def send_json_wf, simp_all add: http_result_wf_def)

lemma handle_command_wf:
  assumes "daemon_wf d"
  shows "http_result_wf (handle_command parse dumpable env cfg upload_data body d)"
proof -
  have "http_result_wf (command_response dumpable (process env cfg cmd HTTP (d\<lparr>d_owner := w\<rparr>)))" for cmd w
    using assms by (intro command_response_wf process_wf) simp
  then show ?thesis
    using assms by (auto simp: handle_command_def Let_def send_json_wf split: json_request.splits prod.splits)
       (simp_all add: http_result_wf_def)
qed

definition access_wf :: "access_result \<Rightarrow> bool" where
  "access_wf res = (case res of Yes c d \<Rightarrow> daemon_wf d | Queues code json c d \<Rightarrow> daemon_wf d
     | AccessJoins w d \<Rightarrow> daemon_wf d | AccessDies \<Rightarrow> True)"

lemma access_handler_wf:
  assumes "daemon_wf d"
  shows "access_wf (access_handler parse dumpable env cfg upload_data parts c d)"
proof -
  have fs: "fs_wf (upload_result_fs (handle_upload io cfg now data (c, d_fs d)))" for io now data
    by (rule fs_wf_handle_upload) (use assms in \<open>simp add: daemon_wf_def\<close>)
  have reset: "http_result_wf (handle_http_reset d)" "http_result_wf (handle_http_status dumpable env cfg d)"
    using assms by (simp_all add: handle_http_reset_def handle_http_status_def send_json_wf)
       (simp_all add: http_result_wf_def)
  show ?thesis
  proof (cases "c_type c")
    case RT_UPLOAD
    let ?u = "handle_upload (e_io env) cfg (e_now env) (if upload_data \<noteq> [] then Some parts else None) (c, d_fs d)"
    show ?thesis
      using fs [of "e_io env" "e_now env" "if upload_data \<noteq> [] then Some parts else None"] assms RT_UPLOAD
      by (cases ?u) (simp_all add: access_handler_def access_wf_def daemon_wf_fs)
  qed (use assms reset handle_command_wf [OF assms, of parse dumpable env cfg upload_data "c_cmd_body c"] in
      \<open>auto simp: access_handler_def access_wf_def http_result_wf_def split: http_result.splits\<close>)
qed

end
