(* ===== verification/Lifecycle_Inv.thy ===== *)
theory Lifecycle_Inv
  imports Lifecycle Daemon_Inv
begin

text \<open>
  The invariant of the whole daemon: at each statement of the main thread it says whether the reader
  thread exists, whether \<open>reader_running_\<close> is set, whether requests are served, whether the port is
  closed and the lock free; and that no reachable state is stuck.
\<close>

section \<open>The invariant\<close>

text \<open>The reader thread and its flag: no thread; a thread that loops or none; a thread told to stop.\<close>

definition no_reader :: "bool \<Rightarrow> reader_pc \<Rightarrow> bool" where
  "no_reader flag r \<longleftrightarrow> \<not> flag \<and> r = NoThread"

definition reader_may_loop :: "bool \<Rightarrow> reader_pc \<Rightarrow> bool" where
  "reader_may_loop flag r \<longleftrightarrow> (if flag then r \<noteq> NoThread \<and> r \<noteq> RDone else r = NoThread)"

definition reader_stopping :: "bool \<Rightarrow> reader_pc \<Rightarrow> bool" where
  "reader_stopping flag r \<longleftrightarrow> \<not> flag \<and> r \<noteq> NoThread"

lemmas reader_defs = no_reader_def reader_may_loop_def reader_stopping_def

fun main_wf :: "main_pc \<Rightarrow> bool \<Rightarrow> reader_pc \<Rightarrow> bool \<Rightarrow> bool" where
  "main_wf MHttpStart flag r http \<longleftrightarrow> reader_may_loop flag r \<and> \<not> http"
| "main_wf MWait flag r http \<longleftrightarrow> reader_may_loop flag r \<and> http"
| "main_wf MHttpStop flag r http \<longleftrightarrow> reader_may_loop flag r \<and> http"
| "main_wf (MStopReader FromDtor) flag r http \<longleftrightarrow> no_reader flag r \<and> \<not> http"
| "main_wf (MStopReader k) flag r http \<longleftrightarrow> reader_may_loop flag r \<and> \<not> http"
| "main_wf (MStopReaderClose k) flag r http \<longleftrightarrow> k \<noteq> FromDtor \<and> reader_stopping flag r \<and> \<not> http"
| "main_wf (MStopReaderJoin k) flag r http \<longleftrightarrow> k \<noteq> FromDtor \<and> reader_stopping flag r \<and> \<not> http"
| "main_wf pc flag r http \<longleftrightarrow> no_reader flag r \<and> \<not> http"

text \<open>The statements at which the port is closed, and those at which the lock is free for good.\<close>

fun port_closed_at :: "main_pc \<Rightarrow> bool" where
  "port_closed_at MSignals \<longleftrightarrow> True"
| "port_closed_at MSerialStart \<longleftrightarrow> True"
| "port_closed_at (MStopReader k) \<longleftrightarrow> k = FromDtor"
| "port_closed_at (MStopClose b) \<longleftrightarrow> b"
| "port_closed_at (MStopOwner b) \<longleftrightarrow> True"
| "port_closed_at MCleanup \<longleftrightarrow> True"
| "port_closed_at MLogShutdown \<longleftrightarrow> True"
| "port_closed_at MHttpDtor \<longleftrightarrow> True"
| "port_closed_at MAtDtor \<longleftrightarrow> True"
| "port_closed_at MReturn \<longleftrightarrow> True"
| "port_closed_at pc \<longleftrightarrow> False"

fun lock_free_at :: "main_pc \<Rightarrow> bool" where
  "lock_free_at (MStopReader k) \<longleftrightarrow> k = FromDtor"
| "lock_free_at (MStopClose b) \<longleftrightarrow> b"
| "lock_free_at (MStopOwner b) \<longleftrightarrow> b"
| "lock_free_at MCleanup \<longleftrightarrow> True"
| "lock_free_at MLogShutdown \<longleftrightarrow> True"
| "lock_free_at MHttpDtor \<longleftrightarrow> True"
| "lock_free_at MAtDtor \<longleftrightarrow> True"
| "lock_free_at MReturn \<longleftrightarrow> True"
| "lock_free_at pc \<longleftrightarrow> False"

definition sys_wf :: "sys \<Rightarrow> bool" where
  "sys_wf s \<longleftrightarrow> main_wf (y_main s) (y_reader_running s) (y_reader s) (y_http s)
     \<and> (port_closed_at (y_main s) \<longrightarrow> \<not> port_is_open (y_port s))
     \<and> (lock_free_at (y_main s) \<longrightarrow> d_owner (y_d s) = NONE)
     \<and> (y_http_wait s \<noteq> None \<longrightarrow> y_http s)
     \<and> (y_main s \<noteq> MSignals \<longrightarrow> {SIGTERM, SIGINT, SIGHUP} \<subseteq> set (pr_handled (y_proc s)))
     \<and> daemon_wf (y_d s)"

text \<open>Where the main thread can be while the others run.\<close>

lemma reader_main_pc:
  assumes "main_wf pc flag r http" "r \<noteq> NoThread"
  shows "\<not> port_closed_at pc" "\<not> lock_free_at pc" "pc \<noteq> MSignals"
  using assms by (cases "(pc, flag, r, http)" rule: main_wf.cases; simp add: reader_defs)+

lemma reader_main_wf:
  assumes "main_wf pc flag r http" "r \<noteq> NoThread" "r \<noteq> RDone" "r' \<noteq> NoThread" "flag \<longrightarrow> r' \<noteq> RDone"
  shows "main_wf pc flag r' http"
  using assms by (cases "(pc, flag, r, http)" rule: main_wf.cases) (auto simp: reader_defs split: if_splits)

lemma http_main_pc:
  assumes "main_wf pc flag r True"
  shows "\<not> port_closed_at pc" "\<not> lock_free_at pc" "pc \<in> {MWait, MHttpStop}"
  using assms by (cases "(pc, flag, r, True)" rule: main_wf.cases; simp)+

lemma sys_wf_start:
  assumes "fs_wf fs" "pr_handled p = []"
  shows "sys_wf (sys_start p fs)"
  using assms daemon_wf_new by (simp add: sys_wf_def sys_start_def reader_defs port_is_open_def SerialPort_new_def)

lemma port_closed [simp]: "\<not> port_is_open (close_if_open p)" "\<not> port_is_open (close_port p)"
  by (simp_all add: close_if_open_def close_port_def port_is_open_def)

section \<open>The main thread\<close>

lemma start_reader_simp:
  "y_reader s = NoThread \<Longrightarrow> \<not> y_reader_running s \<Longrightarrow> use_serial cfg \<Longrightarrow>
     start_reader cfg s = s\<lparr>y_reader_running := True, y_reader := RTest\<rparr>"
  by (simp add: start_reader_def)

lemma sys_wf_cleanup: "daemon_wf d \<Longrightarrow> daemon_wf (d\<lparr>d_fs := cleanup_pid_file io cfg (p, d_fs d)\<rparr>)"
  by (simp add: daemon_wf_def cleanup_pid_file_def fs_wf_unlink)

lemma sys_wf_main:
  assumes "main_step cfg e s = Some t" "sys_wf s"
  shows "sys_wf t"
proof (cases "y_main s")
  case MSignals
  with assms show ?thesis by (auto simp: main_step_defs sys_wf_def setup_signals_def reader_defs)
next
  case MSerialStart
  with assms show ?thesis by (auto simp: main_step_defs sys_wf_def reader_defs)
next
  case MReaderStart
  with assms show ?thesis
    by (cases "use_serial cfg") (auto simp: main_step_defs sys_wf_def reader_defs start_reader_simp)
next
  case MHttpStart
  with assms show ?thesis by (auto simp: main_step_defs sys_wf_def split: if_splits)
next
  case MWait
  with assms show ?thesis by (auto simp: main_step_defs sys_wf_def split: if_splits)
next
  case MHttpStop
  with assms show ?thesis by (auto simp: main_step_defs sys_wf_def http_stop_def split: if_splits)
next
  case (MStopReader k)
  with assms show ?thesis
    by (cases k) (auto simp: main_step_defs sys_wf_def reader_defs split: if_splits)
next
  case (MStopReaderClose k)
  with assms show ?thesis by (auto simp: main_step_defs sys_wf_def)
next
  case (MStopReaderJoin k)
  with assms show ?thesis
    by (cases k) (auto simp: main_step_defs sys_wf_def reader_defs split: if_splits)
next
  case (MStopClose b)
  with assms show ?thesis by (cases b) (auto simp: main_step_defs sys_wf_def)
next
  case (MStopOwner b)
  with assms show ?thesis by (cases b) (auto simp: main_step_defs sys_wf_def)
next
  case MCleanup
  with assms show ?thesis
    by (auto simp: main_step_defs sys_wf_def sys_wf_cleanup split: if_splits)
next
  case MLogShutdown
  with assms show ?thesis by (auto simp: main_step_defs sys_wf_def)
next
  case MHttpDtor
  with assms show ?thesis by (auto simp: main_step_defs sys_wf_def http_stop_def)
next
  case MAtDtor
  with assms show ?thesis by (auto simp: main_step_defs sys_wf_def)
next
  case MReturn
  with assms show ?thesis by (auto simp: main_step_defs sys_wf_def)
qed

section \<open>The other threads\<close>

text \<open>What the reader and the HTTP thread leave alone.\<close>

definition same_main :: "sys \<Rightarrow> sys \<Rightarrow> bool" where
  "same_main s t \<longleftrightarrow> y_main t = y_main s \<and> y_reader_running t = y_reader_running s \<and> y_http t = y_http s
     \<and> y_proc t = y_proc s \<and> y_code t = y_code s"

lemma sys_wf_reader_goto:
  assumes "sys_wf s" "y_reader s \<noteq> NoThread" "y_reader s \<noteq> RDone"
    and "same_main s t" "y_http_wait t = y_http_wait s" "y_reader t \<noteq> NoThread"
    and "y_reader_running s \<longrightarrow> y_reader t \<noteq> RDone" "daemon_wf (y_d t)"
  shows "sys_wf t"
proof -
  have m: "main_wf (y_main s) (y_reader_running s) (y_reader s) (y_http s)" using assms(1) by (simp add: sys_wf_def)
  show ?thesis
    using assms reader_main_pc [OF m assms(2)] reader_main_wf [OF m assms(2,3,6,7)]
    by (simp add: sys_wf_def same_main_def)
qed

lemma reader_step_frame:
  assumes "reader_step cfg e s = Some t"
  shows "same_main s t \<and> y_http_wait t = y_http_wait s \<and> y_conns t = y_conns s
    \<and> y_reader s \<noteq> NoThread \<and> y_reader s \<noteq> RDone \<and> y_reader t \<noteq> NoThread"
  using assms
  by (cases "y_reader s")
     (auto simp: reader_step_def same_main_def send_line_def split: if_splits outcome.splits prod.splits)

lemma reader_step_done:
  assumes "reader_step cfg e s = Some t" "y_reader t = RDone"
  shows "\<not> y_reader_running s"
  using assms
  by (cases "y_reader s")
     (auto simp: reader_step_def send_line_def split: if_splits outcome.splits prod.splits)

lemma reader_step_daemon:
  assumes "reader_step cfg e s = Some t" "daemon_wf (y_d s)"
  shows "daemon_wf (y_d t)"
proof (cases "y_reader s")
  case (RHandle line)
  have "outcome_wf (process (cmd_env (re_env e) s) cfg line SERIAL (y_d s))" by (rule process_wf [OF assms(2)])
  then show ?thesis
    using RHandle assms by (auto simp: reader_step_def outcome_wf_def split: outcome.splits)
next
  case (RWait w)
  obtain r d' where j: "process_joined w (y_d s) = (r, d')" by fastforce
  with RWait assms(1) process_joined_wf [OF assms(2) j] show ?thesis
    by (auto simp: reader_step_def split: if_splits)
qed (use assms in \<open>auto simp: reader_step_def send_line_def split: if_splits prod.splits\<close>)

lemma sys_wf_reader:
  assumes "reader_step cfg e s = Some t" "sys_wf s"
  shows "sys_wf t"
proof -
  have "daemon_wf (y_d t)" using reader_step_daemon [OF assms(1)] assms(2) by (simp add: sys_wf_def)
  then show ?thesis
    using reader_step_frame [OF assms(1)] reader_step_done [OF assms(1)] sys_wf_reader_goto [OF assms(2)] by blast
qed

lemma http_step_frame:
  assumes "http_step parse dumpable cfg c s = Some t"
  shows "same_main s t \<and> y_reader t = y_reader s \<and> y_port t = y_port s \<and> y_wire t = y_wire s \<and> y_http s"
  using assms
  by (auto simp: http_step_def same_main_def
      split: if_splits http_call.splits first_call.splits option.splits access_result.splits http_result.splits)

lemma http_joined_wf: "daemon_wf d \<Longrightarrow> http_result_wf (http_joined dumpable w d)"
proof -
  assume d: "daemon_wf d"
  obtain r d' where j: "process_joined w d = (r, d')" by fastforce
  have "outcome_wf (Replies r d')" using process_joined_wf [OF d j] by (simp add: outcome_wf_def)
  then show ?thesis by (simp add: http_joined_def j command_response_wf)
qed

lemma http_step_daemon:
  assumes "http_step parse dumpable cfg c s = Some t" "daemon_wf (y_d s)"
  shows "daemon_wf (y_d t)"
proof (cases c)
  case (HFirst n url meth debug multipart)
  with assms show ?thesis
    by (auto simp: http_step_def split: if_splits first_call.splits)
next
  case (HCall n env upload_data parts)
  with assms(1) obtain c where "y_conns s n = Some c"
    by (auto simp: http_step_def split: if_splits option.splits)
  with HCall assms access_handler_wf [OF assms(2), of parse dumpable "cmd_env env s" cfg upload_data parts c]
  show ?thesis
    by (auto simp: http_step_def access_wf_def split: if_splits access_result.splits)
next
  case HJoined
  with assms(1) obtain w where "y_http_wait s = Some w"
    by (auto simp: http_step_def split: if_splits option.splits)
  with HJoined assms http_joined_wf [OF assms(2), of dumpable w] show ?thesis
    by (auto simp: http_step_def http_result_wf_def split: if_splits http_result.splits)
next
  case (HGone n)
  with assms show ?thesis
    by (auto simp: http_step_def split: if_splits option.splits)
qed

lemma sys_wf_http:
  assumes "http_step parse dumpable cfg c s = Some t" "sys_wf s"
  shows "sys_wf t"
proof -
  have f: "same_main s t" "y_reader t = y_reader s" "y_port t = y_port s" "y_http s"
    using http_step_frame [OF assms(1)] by simp_all
  have "daemon_wf (y_d t)" using http_step_daemon [OF assms(1)] assms(2) by (simp add: sys_wf_def)
  moreover have "main_wf (y_main s) (y_reader_running s) (y_reader s) True" using assms(2) f(4) by (simp add: sys_wf_def)
  note http_main_pc [OF this]
  ultimately show ?thesis using assms(2) f by (simp add: sys_wf_def same_main_def)
qed

lemma deliver_frame:
  assumes "deliver sig p = Some p'"
  shows "pr_handled p' = pr_handled p \<and> (pr_running p' \<longrightarrow> pr_running p)"
  using assms by (cases sig) (auto simp: deliver_def signal_handler_def split: if_splits)

text \<open>Every step keeps the invariant.\<close>

lemma sys_wf_step: "sys_step parse dumpable cfg s l t \<Longrightarrow> sys_wf s \<Longrightarrow> sys_wf t"
proof (induction rule: sys_step.induct)
  case (by_main s e t)
  then show ?case using sys_wf_main by blast
next
  case (by_reader s e t)
  then show ?case using sys_wf_reader by blast
next
  case (by_http s c t)
  then show ?case using sys_wf_http by blast
next
  case (by_worker s e op)
  then show ?case using worker_wf by (simp add: sys_wf_def del: worker_step.simps)
next
  case (by_signal s sig p)
  then show ?case using deliver_frame [OF by_signal(2)] by (simp add: sys_wf_def)
next
  case (by_signal_kills s sig)
  then show ?case by (simp add: sys_wf_def)
qed

interpretation sys_inv: step_invariant "sys_step parse dumpable cfg" sys_wf for parse dumpable cfg
  by unfold_locales (rule sys_wf_step)

lemma sys_wf_reachable:
  "sys_run parse dumpable cfg (sys_start p fs) ls s \<Longrightarrow> fs_wf fs \<Longrightarrow> pr_handled p = [] \<Longrightarrow> sys_wf s"
  using sys_inv.inv_runs sys_wf_start by blast

section \<open>Progress\<close>

text \<open>The statements of the worker that are left, and a step of every worker that has not returned.\<close>

fun worker_rank :: "worker \<Rightarrow> nat" where
  "worker_rank (Active AtRunning) = 7"
| "worker_rank (Active AtStart) = 6"
| "worker_rank (Active AtPopen) = 5"
| "worker_rank (Active AtRead) = 4"
| "worker_rank (Active AtClose) = 3"
| "worker_rank (Active AtDone) = 2"
| "worker_rank (Active AtRunningOff) = 1"
| "worker_rank w = 0"

lemma worker_rank_le: "worker_rank w \<le> 7"
  by (cases w rule: worker_rank.cases) simp_all

lemma worker_progress:
  assumes "\<not> can_join op"
  obtains e op' where "worker_step e op = Some op'" "worker_rank (f_worker op') < worker_rank (f_worker op)"
proof -
  obtain pc where pc: "f_worker op = Active pc" using assms by (cases "f_worker op") (auto simp: can_join_def)
  let ?e = "case pc of AtStart \<Rightarrow> Clock 0 | AtPopen \<Rightarrow> PopenOk | AtRead \<Rightarrow> Eof | AtClose \<Rightarrow> WaitStatus 0 | _ \<Rightarrow> Step"
  have "\<exists>op'. worker_step ?e op = Some op' \<and> worker_rank (f_worker op') < worker_rank (f_worker op)"
    using pc by (cases pc) simp_all
  then show ?thesis using that by blast
qed

text \<open>The statements the reader still executes once it was told to stop.\<close>

fun reader_rank :: "reader_pc \<Rightarrow> nat" where
  "reader_rank RRead = 7"
| "reader_rank (RGot line) = 6"
| "reader_rank (ROwner line) = 5"
| "reader_rank (RHandle line) = 4"
| "reader_rank (RWait w) = 3"
| "reader_rank (RWrite r) = 2"
| "reader_rank RBusy = 2"
| "reader_rank RReconnect = 2"
| "reader_rank RTest = 1"
| "reader_rank RFailed = 1"
| "reader_rank NoThread = 0"
| "reader_rank RDone = 0"

lemma reader_rank_le: "reader_rank r \<le> 7"
  by (cases r) simp_all

lemma reader_rank_step:
  assumes "reader_step cfg e s = Some t" "\<not> y_reader_running s"
  shows "reader_rank (y_reader t) < reader_rank (y_reader s) \<or> y_status t = Aborted \<and> y_reader t = y_reader s"
  using assms
  by (cases "y_reader s")
     (auto simp: reader_step_def send_line_def split: if_splits outcome.splits prod.splits)

lemma open_port_closed: "\<not> port_is_open p \<Longrightarrow> \<exists>r. open_port e dev p = Some r"
  by (auto simp: open_port_def Let_def)

text \<open>A reader that has a statement to execute and does not wait for the flash worker can go on.\<close>

definition reader_env_ex :: reader_env where
  "reader_env_ex =
     \<lparr>re_env = env_ok, re_port = \<lparr>pe_get_port = True, pe_sp_open = True, pe_posix_open = True, pe_tcsetattr = True\<rparr>,
      re_write = int, re_events = [(500, NoData)]\<rparr>"

lemma reader_progress:
  assumes "y_reader s \<noteq> NoThread" "y_reader s \<noteq> RDone" "can_join (d_flash (y_d s))"
  shows "\<exists>t. reader_step cfg reader_env_ex s = Some t"
proof (cases "y_reader s")
  case RRead
  then show ?thesis
    by (auto simp: reader_step_def daemon_readLine_def port_readLine_def reader_env_ex_def)
next
  case RReconnect
  then show ?thesis
    using open_port_closed [of "y_port s" "re_port reader_env_ex" "cfg_serial_device cfg"]
    by (auto simp: reader_step_def)
qed (use assms in \<open>auto simp: reader_step_def split: prod.split outcome.split\<close>)

text \<open>The main thread is blocked in two places only.\<close>

lemma main_blocked:
  assumes "sys_wf s" "main_step cfg e s = None"
  shows "(\<exists>k. y_main s = MStopReaderJoin k) \<and> y_reader s \<noteq> NoThread \<and> y_reader s \<noteq> RDone \<and> \<not> y_reader_running s
    \<or> y_main s = MHttpStop \<and> y_http s \<and> y_http_wait s \<noteq> None"
proof (cases "y_main s")
  case MSerialStart
  with assms have "\<not> port_is_open (y_port s)" by (simp add: sys_wf_def)
  with MSerialStart assms(2) open_port_closed [of "y_port s" "me_port e" "cfg_serial_device cfg"] show ?thesis
    by (auto simp: main_step_defs daemon_start_def split: if_splits)
next
  case (MStopReaderJoin k)
  with assms show ?thesis
    by (auto simp: main_step_defs sys_wf_def reader_stopping_def split: if_splits)
qed (use assms in \<open>auto simp: main_step_defs http_stop_def sys_wf_def split: if_splits\<close>)

end
