(* ===== verification/Lifecycle_Props.thy ===== *)
theory Lifecycle_Props
  imports Lifecycle_Inv
begin

text \<open>
  What holds of the whole daemon in every interleaving of its threads, requests and signals: it is
  never stuck, its callbacks never outlive what they use, it can always be shut down, a regular exit
  leaves nothing behind, the reader stops within a few statements; and when the exit is not regular.
\<close>

section \<open>Progress and lifetimes\<close>

text \<open>A step of the daemon's own threads: no new request and no signal is needed for it.\<close>

fun internal :: "sys_label \<Rightarrow> bool" where
  "internal (Http c) \<longleftrightarrow> c = HJoined"
| "internal (Signal sig) \<longleftrightarrow> False"
| "internal l \<longleftrightarrow> True"

fun main_rank :: "main_pc \<Rightarrow> nat" where
  "main_rank MSignals = 24" | "main_rank MSerialStart = 23" | "main_rank MReaderStart = 22"
| "main_rank MHttpStart = 21" | "main_rank MWait = 20" | "main_rank MHttpStop = 19"
| "main_rank (MStopReader FromMain) = 18" | "main_rank (MStopReaderClose FromMain) = 17"
| "main_rank (MStopReaderJoin FromMain) = 16" | "main_rank (MStopReader FromStop) = 15"
| "main_rank (MStopReaderClose FromStop) = 14" | "main_rank (MStopReaderJoin FromStop) = 13"
| "main_rank (MStopClose False) = 12" | "main_rank (MStopOwner False) = 11" | "main_rank MCleanup = 10"
| "main_rank MLogShutdown = 9" | "main_rank MHttpDtor = 8" | "main_rank MAtDtor = 7"
| "main_rank (MStopReader FromDtor) = 6" | "main_rank (MStopReaderClose FromDtor) = 5"
| "main_rank (MStopReaderJoin FromDtor) = 4" | "main_rank (MStopClose True) = 3"
| "main_rank (MStopOwner True) = 2" | "main_rank MReturn = 1"

definition sys_rank :: "sys \<Rightarrow> nat" where
  "sys_rank s = (if y_status s \<noteq> Alive then 0
     else 200 * main_rank (y_main s) + 10 * reader_rank (y_reader s)
       + (if y_http_wait s \<noteq> None then 1 else 0) + worker_rank (f_worker (d_flash (y_d s))))"

definition shutting_down :: "sys \<Rightarrow> bool" where
  "shutting_down s \<longleftrightarrow> sys_wf s \<and> \<not> is_running (y_proc s)"

definition internal_step ::
    "(string \<Rightarrow> json_request) \<Rightarrow> (string \<Rightarrow> bool) \<Rightarrow> Config \<Rightarrow> sys \<Rightarrow> sys_label \<Rightarrow> sys \<Rightarrow> bool" where
  "internal_step parse dumpable cfg s l t \<longleftrightarrow> sys_step parse dumpable cfg s l t \<and> internal l"

lemma main_rank_pos: "0 < main_rank pc"
  by (cases pc rule: main_rank.cases) simp_all

lemma main_rank_le: "main_rank pc \<le> 24"
  by (cases pc rule: main_rank.cases) simp_all

lemma sys_rank_pos: "y_status s = Alive \<Longrightarrow> 0 < sys_rank s"
  using main_rank_pos [of "y_main s"] by (simp add: sys_rank_def)

lemma sys_rank_le: "sys_rank s \<le> 4878"
  using main_rank_le [of "y_main s"] reader_rank_le [of "y_reader s"] worker_rank_le [of "f_worker (d_flash (y_d s))"]
  by (simp add: sys_rank_def)

lemma main_step_rank:
  assumes "main_step cfg e s = Some t" "\<not> is_running (y_proc s)" "y_status s = Alive"
  shows "y_status t \<noteq> Alive \<or> main_rank (y_main t) < main_rank (y_main s)"
proof (cases "y_main s" rule: main_rank.cases)
  case 3
  with assms show ?thesis by (auto simp: main_step_defs)
qed (use assms in \<open>auto simp: main_step_defs http_stop_def split: if_splits\<close>)

lemma main_step_sys_rank:
  assumes "main_step cfg e s = Some t" "\<not> is_running (y_proc s)" "y_status s = Alive"
  shows "sys_rank t < sys_rank s"
  using main_step_rank [OF assms] sys_rank_pos [OF assms(3)] assms(3)
    reader_rank_le [of "y_reader t"] worker_rank_le [of "f_worker (d_flash (y_d t))"]
  by (auto simp: sys_rank_def)

lemma worker_step_sys_rank:
  assumes "\<not> can_join (d_flash (y_d s))" "y_status s = Alive"
  shows "\<exists>e t. sys_step parse dumpable cfg s (Worker e) t \<and> sys_rank t < sys_rank s"
proof -
  obtain e op' where e: "worker_step e (d_flash (y_d s)) = Some op'"
    and r: "worker_rank (f_worker op') < worker_rank (f_worker (d_flash (y_d s)))"
    by (rule worker_progress [OF assms(1)])
  show ?thesis
    using by_worker [OF assms(2) e, of parse dumpable cfg] r assms(2) by (fastforce simp: sys_rank_def)
qed

lemma reader_step_sys_rank:
  assumes "reader_step cfg e s = Some t" "\<not> y_reader_running s" "y_status s = Alive"
  shows "sys_rank t < sys_rank s"
proof -
  have same: "y_main t = y_main s" "y_http_wait t = y_http_wait s"
    using reader_step_frame [OF assms(1)] by (simp_all add: same_main_def)
  show ?thesis
    using reader_rank_step [OF assms(1,2)] sys_rank_pos [OF assms(3)] assms(3) worker_rank_le [of "f_worker (d_flash (y_d t))"]
    by (auto simp: sys_rank_def same)
qed

lemma joined_step_sys_rank:
  assumes "y_http s" "y_http_wait s \<noteq> None" "can_join (d_flash (y_d s))" "y_status s = Alive"
  shows "\<exists>t. http_step parse dumpable cfg HJoined s = Some t \<and> sys_rank t < sys_rank s"
proof -
  obtain w where w: "y_http_wait s = Some w" using assms(2) by blast
  obtain r d where j: "process_joined w (y_d s) = (r, d)" by fastforce
  have "f_worker (d_flash d) = NotJoinable"
    using j by (auto simp: process_joined_def flashdone_joined_def cancel_joined_def split: flash_wait.splits prod.splits)
  then have "\<exists>t. http_step parse dumpable cfg HJoined s = Some t \<and>
      (y_status t \<noteq> Alive \<or> y_main t = y_main s \<and> y_reader t = y_reader s \<and> y_http_wait t = None
        \<and> f_worker (d_flash (y_d t)) = NotJoinable)"
    using assms(1,3) w by (simp add: http_step_def http_joined_def j command_response_def send_json_def)
  then show ?thesis
    using sys_rank_pos [OF assms(4)] assms(2,4) by (fastforce simp: sys_rank_def)
qed

text \<open>Some thread of a daemon that is shutting down can go on, and is nearer to the end then.\<close>

lemma some_thread_progress:
  assumes "shutting_down s" "y_status s = Alive"
  shows "\<exists>l t. internal_step parse dumpable cfg s l t \<and> sys_rank t < sys_rank s"
proof (cases "main_step cfg \<lparr>me_port = re_port reader_env_ex, me_mhd_start = True, me_io = io_all_ok\<rparr> s")
  case (Some t)
  then show ?thesis
    using by_main [OF assms(2) Some, of parse dumpable] main_step_sys_rank [OF Some _ assms(2)] assms(1)
    by (fastforce simp: internal_step_def shutting_down_def)
next
  case None
  have wf: "sys_wf s" using assms(1) by (simp add: shutting_down_def)
  show ?thesis
  proof (cases "can_join (d_flash (y_d s))")
    case False
    then show ?thesis
      using worker_step_sys_rank [OF False assms(2), of parse dumpable cfg] by (fastforce simp: internal_step_def)
  next
    case True
    from main_blocked [OF wf None] show ?thesis
    proof
      assume r: "(\<exists>k. y_main s = MStopReaderJoin k) \<and> y_reader s \<noteq> NoThread \<and> y_reader s \<noteq> RDone \<and> \<not> y_reader_running s"
      with reader_progress [OF _ _ True, of cfg] obtain t where "reader_step cfg reader_env_ex s = Some t" by blast
      with r show ?thesis
        using by_reader [OF assms(2), of cfg _ t parse dumpable] reader_step_sys_rank [OF _ _ assms(2)]
        by (fastforce simp: internal_step_def)
    next
      assume "y_main s = MHttpStop \<and> y_http s \<and> y_http_wait s \<noteq> None"
      then show ?thesis
        using joined_step_sys_rank [OF _ _ True assms(2), of parse dumpable cfg]
          by_http [OF assms(2), of parse dumpable cfg HJoined]
        by (fastforce simp: internal_step_def)
    qed
  qed
qed

lemma main_step_running:
  assumes "main_step cfg e s = Some t"
  shows "pr_running (y_proc t) = pr_running (y_proc s)"
  using assms
  by (cases "y_main s")
     (auto simp: main_step_defs http_stop_def setup_signals_def start_reader_def Let_def split: if_splits)

lemma shutting_down_step:
  assumes "internal_step parse dumpable cfg s l t" "shutting_down s"
  shows "shutting_down t"
proof -
  have "sys_wf t" using assms sys_wf_step by (auto simp: internal_step_def shutting_down_def)
  moreover have "pr_running (y_proc t) = pr_running (y_proc s)"
    using assms(1) unfolding internal_step_def
    by (auto elim!: sys_stepE dest: main_step_running reader_step_frame http_step_frame simp: same_main_def)
  ultimately show ?thesis using assms(2) by (simp add: shutting_down_def is_running_def)
qed

interpretation shutdown: ranked_relation "internal_step parse dumpable cfg" shutting_down
    "\<lambda>s. y_status s \<noteq> Alive" sys_rank for parse dumpable cfg
  by unfold_locales (use shutting_down_step some_thread_progress in auto)

lemma internal_runs:
  "runs (internal_step parse dumpable cfg) s ls t \<Longrightarrow> sys_run parse dumpable cfg s ls t \<and> list_all internal ls"
  by (induction rule: runs.induct) (auto simp: internal_step_def intro: runs.intros)

text \<open>
  C10: shutdown is always possible. Whatever the daemon is doing (commands, uploads, a flash job, a
  reader waiting for it, start or end of \<open>main\<close>), after a SIGTERM its own threads alone, without any
  further request or signal, can bring the process to its end, in at most 4878 steps.
\<close>

theorem shutdown_reachable:
  assumes "sys_run parse dumpable cfg (sys_start p fs) before s" "fs_wf fs" "pr_handled p = []" "y_status s = Alive"
  shows "\<exists>ls t. sys_run parse dumpable cfg s (Signal SIGTERM # ls) t \<and> list_all internal ls
    \<and> length ls \<le> 4878 \<and> y_status t \<noteq> Alive"
proof (cases "deliver SIGTERM (y_proc s)")
  case None
  then have "sys_step parse dumpable cfg s (Signal SIGTERM) (s\<lparr>y_status := Killed SIGTERM\<rparr>)"
    by (rule by_signal_kills [OF assms(4)])
  then show ?thesis
    by (intro exI [of _ "[]"] exI [of _ "s\<lparr>y_status := Killed SIGTERM\<rparr>"]) (auto intro: runs.intros)
next
  case (Some p')
  let ?s = "s\<lparr>y_proc := p'\<rparr>"
  have one: "sys_step parse dumpable cfg s (Signal SIGTERM) ?s"
    by (rule by_signal [OF assms(4) Some])
  have "sys_wf ?s" by (rule sys_wf_step [OF one sys_wf_reachable [OF assms(1-3)]])
  moreover have "\<not> pr_running p'" using Some by (auto simp: deliver_def signal_handler_def split: if_splits)
  ultimately have "shutting_down ?s" by (simp add: shutting_down_def is_running_def)
  then obtain ls t where "runs (internal_step parse dumpable cfg) ?s ls t" "y_status t \<noteq> Alive" "length ls \<le> sys_rank ?s"
    using shutdown.reaches_goal by blast
  then show ?thesis
    using internal_runs runs_Cons [of "sys_step parse dumpable cfg", OF one] sys_rank_le [of ?s]
    by (fastforce intro: order_trans)
qed

text \<open>A run for concrete instances: the daemon in the foreground without a serial port, ready.\<close>

definition main_env_ex :: main_env where
  "main_env_ex = \<lparr>me_port = re_port reader_env_ex, me_mhd_start = True, me_io = io_all_ok\<rparr>"

definition cfg_ex :: Config where
  "cfg_ex = Config_default\<lparr>cfg_foreground := True\<rparr>"

definition sys_ready :: sys where
  "sys_ready = (sys_start proc_ex fs_empty)\<lparr>y_main := MWait, y_http := True, y_proc := setup_signals proc_ex\<rparr>"

lemma run_main:
  "y_status s = Alive \<Longrightarrow> main_step cfg e s = Some t \<Longrightarrow> sys_run parse dumpable cfg t ls u \<Longrightarrow>
     sys_run parse dumpable cfg s (Main e # ls) u"
  using runs_Cons [where step = "sys_step parse dumpable cfg"] by_main by blast

lemma sys_ready_reachable:
  "sys_run parse dumpable cfg_ex (sys_start proc_ex fs_empty) [Main main_env_ex, Main main_env_ex, Main main_env_ex, Main main_env_ex] sys_ready"
proof -
  let ?s = "sys_start proc_ex fs_empty"
  have cfg: "\<not> use_serial cfg_ex" by (simp add: use_serial_def cfg_ex_def Config_default_def)
  have 1: "main_step cfg_ex main_env_ex ?s = Some (?s\<lparr>y_proc := setup_signals proc_ex, y_main := MSerialStart\<rparr>)"
    by (simp add: main_step_defs sys_start_def)
  have 2: "main_step cfg_ex main_env_ex (?s\<lparr>y_proc := setup_signals proc_ex, y_main := MSerialStart\<rparr>)
      = Some (?s\<lparr>y_proc := setup_signals proc_ex, y_main := MReaderStart\<rparr>)"
    by (simp add: main_step_defs sys_start_def daemon_start_def cfg)
  have 3: "main_step cfg_ex main_env_ex (?s\<lparr>y_proc := setup_signals proc_ex, y_main := MReaderStart\<rparr>)
      = Some (?s\<lparr>y_proc := setup_signals proc_ex, y_main := MHttpStart\<rparr>)"
    by (simp add: main_step_defs cfg)
  have 4: "main_step cfg_ex main_env_ex (?s\<lparr>y_proc := setup_signals proc_ex, y_main := MHttpStart\<rparr>) = Some sys_ready"
    by (simp add: main_step_defs main_env_ex_def sys_ready_def)
  have alive: "y_status (?s\<lparr>y_proc := p, y_main := pc\<rparr>) = Alive" "y_status ?s = Alive" for p pc
    by (simp_all add: sys_start_def)
  show ?thesis
    by (rule run_main [OF alive(2) 1], rule run_main [OF alive(1) 2], rule run_main [OF alive(1) 3],
        rule run_main [OF alive(1) 4], rule runs_Nil)
qed

theorem shutdown_reachable_witness:
  "\<exists>ls t. sys_run (\<lambda>_. NoCmd) (\<lambda>_. True) cfg_ex sys_ready (Signal SIGTERM # ls) t \<and> list_all internal ls
    \<and> length ls \<le> 4878 \<and> y_status t \<noteq> Alive"
  by (rule shutdown_reachable [OF sys_ready_reachable]) (simp_all add: proc_ex_def sys_ready_def sys_start_def)

text \<open>Where \<open>main\<close> is between the construction and the destruction of \<open>at_cmd\<close> and \<open>http_server\<close>.\<close>

fun at_command_alive :: "main_pc \<Rightarrow> bool" where
  "at_command_alive MSignals \<longleftrightarrow> False"
| "at_command_alive MSerialStart \<longleftrightarrow> False"
| "at_command_alive (MStopReader k) \<longleftrightarrow> k \<noteq> FromDtor"
| "at_command_alive (MStopReaderClose k) \<longleftrightarrow> k \<noteq> FromDtor"
| "at_command_alive (MStopReaderJoin k) \<longleftrightarrow> k \<noteq> FromDtor"
| "at_command_alive (MStopClose b) \<longleftrightarrow> \<not> b"
| "at_command_alive (MStopOwner b) \<longleftrightarrow> \<not> b"
| "at_command_alive MReturn \<longleftrightarrow> False"
| "at_command_alive pc \<longleftrightarrow> True"

text \<open>
  C12: the daemon is well-formed and never stuck. In every reachable state the invariant holds; a
  reader thread exists only while the command processor it refers to does, and requests are served
  only in the main loop and its two neighbours; and as long as the process has not ended, one of its
  own threads has a step: the main thread, or else the thread (reader, request or flash worker) it
  waits for.
\<close>

theorem sys_type_soundness:
  assumes "sys_run parse dumpable cfg (sys_start p fs) ls s" "fs_wf fs" "pr_handled p = []"
  shows "sys_wf s \<and> (y_reader s = NoThread \<or> at_command_alive (y_main s))
    \<and> (\<not> y_http s \<or> y_main s = MWait \<or> y_main s = MHttpStop)
    \<and> (y_status s = Alive \<longrightarrow> (\<exists>l t. internal l \<and> sys_step parse dumpable cfg s l t))"
proof -
  have wf: "sys_wf s" by (rule sys_wf_reachable [OF assms])
  then have m: "main_wf (y_main s) (y_reader_running s) (y_reader s) (y_http s)" by (simp add: sys_wf_def)
  have "y_reader s = NoThread \<or> at_command_alive (y_main s)"
    using m by (cases "y_main s" rule: at_command_alive.cases) (auto simp: reader_defs elim: stop_call.exhaust)
  moreover have "\<not> y_http s \<or> y_main s = MWait \<or> y_main s = MHttpStop"
    using m http_main_pc(3) by fastforce
  moreover have "\<exists>l t. internal l \<and> sys_step parse dumpable cfg s l t" if alive: "y_status s = Alive"
  proof (cases "main_step cfg main_env_ex s")
    case (Some t)
    then show ?thesis using by_main [OF alive Some] internal.simps(3) by blast
  next
    case None
    show ?thesis
    proof (cases "can_join (d_flash (y_d s))")
      case False
      then show ?thesis using worker_step_sys_rank [OF False alive] internal.simps(5) by blast
    next
      case True
      from main_blocked [OF wf None] show ?thesis
        using reader_progress [OF _ _ True, of cfg] by_reader [OF alive] joined_step_sys_rank [OF _ _ True alive, of parse dumpable cfg]
          by_http [OF alive] internal.simps(1) [of HJoined] internal.simps(4) by metis
    qed
  qed
  ultimately show ?thesis using wf by blast
qed

theorem sys_type_soundness_witness:
  "sys_wf sys_ready \<and> y_http sys_ready \<and> (y_main sys_ready = MWait \<or> y_main sys_ready = MHttpStop)
    \<and> (\<exists>l t. internal l \<and> sys_step (\<lambda>_. NoCmd) (\<lambda>_. True) cfg_ex sys_ready l t)"
proof -
  have "y_status sys_ready = Alive" "y_http sys_ready" by (simp_all add: sys_ready_def sys_start_def)
  then show ?thesis
    using sys_type_soundness [OF sys_ready_reachable, of "\<lambda>_. NoCmd" "\<lambda>_. True"] by (simp add: proc_ex_def)
qed

section \<open>A regular exit\<close>

text \<open>
  What holds of the exit status, the exit code and the PID file, beside \<^const>\<open>sys_wf\<close>; the last
  as far as the system lets the main thread remove the file.
\<close>

definition removes_pid_file :: "Config \<Rightarrow> string \<Rightarrow> sys_label \<Rightarrow> bool" where
  "removes_pid_file cfg cwd l \<longleftrightarrow> (\<forall>e. l = Main e \<longrightarrow> io_unlink (me_io e) (c_str (from_cwd cwd (cfg_pid_file cfg))))"

definition exit_wf :: "Config \<Rightarrow> string \<Rightarrow> bool \<Rightarrow> sys \<Rightarrow> bool" where
  "exit_wf cfg cwd removed s \<longleftrightarrow>
     (\<forall>c. y_status s = Exited c \<longrightarrow> y_main s = MReturn \<and> c = y_code s \<and> f_worker (d_flash (y_d s)) = NotJoinable)
     \<and> y_code s \<in> {0, 1} \<and> pr_cwd (y_proc s) = cwd
     \<and> (removed \<and> lock_free_at (y_main s) \<and> y_main s \<noteq> MCleanup \<longrightarrow> cfg_foreground cfg
         \<or> fs_lookup (d_fs (y_d s)) (from_cwd cwd (cfg_pid_file cfg)) = None)"

lemma exit_wf_main:
  assumes "main_step cfg e s = Some t" "sys_wf s" "exit_wf cfg cwd removed s" "y_status s = Alive"
    and "removed \<longrightarrow> removes_pid_file cfg cwd (Main e)"
  shows "exit_wf cfg cwd removed t"
proof (cases "y_main s")
  case MReaderStart
  with assms show ?thesis
    by (cases "use_serial cfg") (auto simp: main_step_defs exit_wf_def sys_wf_def reader_defs start_reader_simp)
next
  case (MStopReader k)
  with assms show ?thesis by (cases k) (auto simp: main_step_defs exit_wf_def sys_wf_def split: if_splits)
next
  case (MStopReaderJoin k)
  with assms show ?thesis by (cases k) (auto simp: main_step_defs exit_wf_def sys_wf_def split: if_splits)
next
  case MCleanup
  with assms show ?thesis
    by (auto simp: main_step_defs exit_wf_def removes_pid_file_def cleanup_pid_file_def fs_lookup_unlink split: if_splits)
next
  case (MStopClose b)
  with assms show ?thesis by (cases b) (auto simp: main_step_defs exit_wf_def)
next
  case (MStopOwner b)
  with assms show ?thesis by (cases b) (auto simp: main_step_defs exit_wf_def)
qed (use assms in \<open>auto simp: main_step_defs exit_wf_def http_stop_def setup_signals_def split: if_splits\<close>)

definition exit_step ::
    "(string \<Rightarrow> json_request) \<Rightarrow> (string \<Rightarrow> bool) \<Rightarrow> Config \<Rightarrow> string \<Rightarrow> bool \<Rightarrow> sys \<Rightarrow> sys_label \<Rightarrow> sys \<Rightarrow> bool" where
  "exit_step parse dumpable cfg cwd removed s l t \<longleftrightarrow>
     sys_step parse dumpable cfg s l t \<and> (removed \<longrightarrow> removes_pid_file cfg cwd l)"

lemma exit_wf_step:
  assumes "exit_step parse dumpable cfg cwd removed s l t" "sys_wf s \<and> exit_wf cfg cwd removed s"
  shows "sys_wf t \<and> exit_wf cfg cwd removed t"
proof -
  have st: "sys_step parse dumpable cfg s l t" and rm: "removed \<longrightarrow> removes_pid_file cfg cwd l"
    using assms(1) by (simp_all add: exit_step_def)
  have m: "main_wf (y_main s) (y_reader_running s) (y_reader s) (y_http s)" using assms(2) by (simp add: sys_wf_def)
  have ok: "exit_wf cfg cwd removed s" "sys_wf s" using assms(2) by simp_all
  from st have "exit_wf cfg cwd removed t"
  proof cases
    case (by_main e)
    with exit_wf_main ok rm show ?thesis by blast
  next
    case (by_reader e)
    have "y_status t = Alive \<or> y_status t = Aborted"
      using by_reader(2,3) by (cases "y_reader s")
        (auto simp: reader_step_def send_line_def split: if_splits outcome.splits prod.splits)
    then show ?thesis
      using ok(1) reader_step_frame [OF by_reader(3)] reader_main_pc(2) [OF m]
      by (auto simp: exit_wf_def same_main_def)
  next
    case (by_http c)
    have "y_status t = Alive \<or> y_status t = Aborted"
      using by_http(2,3) by (auto simp: http_step_def
          split: if_splits http_call.splits first_call.splits option.splits access_result.splits http_result.splits)
    then show ?thesis
      using ok(1) http_step_frame [OF by_http(3)] http_main_pc(2) [of "y_main s" "y_reader_running s" "y_reader s"] m
      by (auto simp: exit_wf_def same_main_def)
  next
    case (by_worker e op)
    with ok(1) show ?thesis by (simp add: exit_wf_def del: worker_step.simps)
  next
    case (by_signal sig p)
    have "pr_cwd p = pr_cwd (y_proc s)"
      using by_signal(4) by (cases sig) (auto simp: deliver_def signal_handler_def split: if_splits)
    with by_signal ok(1) show ?thesis by (simp add: exit_wf_def)
  next
    case (by_signal_kills sig)
    with ok(1) show ?thesis by (simp add: exit_wf_def)
  qed
  then show ?thesis using sys_wf_step [OF st ok(2)] by simp
qed

interpretation exit_inv: step_invariant "exit_step parse dumpable cfg cwd removed" "\<lambda>s. sys_wf s \<and> exit_wf cfg cwd removed s"
    for parse dumpable cfg cwd removed
  by unfold_locales (rule exit_wf_step)

text \<open>
  A regular exit leaves nothing behind. Whenever \<open>main\<close> has returned (with 0, or 1 if the HTTP
  server could not be started), after any commands, requests and signals: the reader was joined, the
  HTTP server is stopped, the flash worker was joined, the serial port is closed, the session lock is
  free, and outside the foreground mode the PID file is gone, if the system lets it be removed.
\<close>

lemma clean_exit:
  assumes "sys_run parse dumpable cfg (sys_start p fs) ls s" "fs_wf fs" "pr_handled p = []" "y_status s = Exited c"
  shows "(c = 0 \<or> c = 1) \<and> y_reader s = NoThread \<and> \<not> y_http s \<and> f_worker (d_flash (y_d s)) = NotJoinable
    \<and> \<not> port_is_open (y_port s) \<and> d_owner (y_d s) = NONE
    \<and> (list_all (removes_pid_file cfg (pr_cwd p)) ls \<longrightarrow>
        cfg_foreground cfg \<or> fs_lookup (d_fs (y_d s)) (from_cwd (pr_cwd p) (cfg_pid_file cfg)) = None)"
proof -
  obtain removed where removed: "removed \<longleftrightarrow> list_all (removes_pid_file cfg (pr_cwd p)) ls" by blast
  have run: "runs (exit_step parse dumpable cfg (pr_cwd p) removed) (sys_start p fs) ls s"
    using assms(1) by (rule runs_mono) (auto simp: exit_step_def removed list_all_iff)
  have "exit_wf cfg (pr_cwd p) removed (sys_start p fs)"
    by (simp add: exit_wf_def sys_start_def)
  then have wf: "sys_wf s" "exit_wf cfg (pr_cwd p) removed s"
    using exit_inv.inv_runs [OF run] sys_wf_start [OF assms(2,3)] by simp_all
  then have "y_main s = MReturn" "c = y_code s" "y_code s \<in> {0, 1}" "f_worker (d_flash (y_d s)) = NotJoinable"
    using assms(4) by (simp_all add: exit_wf_def)
  with wf show ?thesis by (auto simp: sys_wf_def exit_wf_def reader_defs removed)
qed

text \<open>The main thread alone, for concrete runs.\<close>

fun main_steps :: "Config \<Rightarrow> main_env \<Rightarrow> nat \<Rightarrow> sys \<Rightarrow> sys option" where
  "main_steps cfg e 0 s = Some s"
| "main_steps cfg e (Suc n) s =
     (if y_status s \<noteq> Alive then None else case main_step cfg e s of Some t \<Rightarrow> main_steps cfg e n t | None \<Rightarrow> None)"

lemma main_steps_run: "main_steps cfg e n s = Some t \<Longrightarrow> sys_run parse dumpable cfg s (replicate n (Main e)) t"
  by (induction n arbitrary: s) (auto intro: runs.intros run_main split: if_splits option.splits)

definition sys_stopped :: sys where
  "sys_stopped = sys_ready\<lparr>y_proc := (setup_signals proc_ex)\<lparr>pr_running := False\<rparr>\<rparr>"

lemma signal_stops: "sys_step parse dumpable cfg sys_ready (Signal SIGTERM) sys_stopped"
proof -
  have "deliver SIGTERM (y_proc sys_ready) = Some ((setup_signals proc_ex)\<lparr>pr_running := False\<rparr>)"
    by (simp add: deliver_def sys_ready_def setup_signals_def signal_handler_def)
  then show ?thesis
    using by_signal [of sys_ready SIGTERM] by (simp add: sys_stopped_def sys_ready_def sys_start_def)
qed

lemma sys_stopped_exits:
  "\<exists>t. main_steps cfg_ex main_env_ex 14 sys_stopped = Some t \<and> y_status t = Exited 0"
  unfolding sys_stopped_def sys_ready_def sys_start_def
  by (simp add: eval_nat_numeral main_step_defs http_stop_def is_running_def close_if_open_def cfg_ex_def daemon_new_def FlashOp_new_def)

lemma sys_exit_reachable:
  "\<exists>ls t. sys_run (\<lambda>_. NoCmd) (\<lambda>_. True) cfg_ex (sys_start proc_ex fs_empty) ls t \<and> y_status t = Exited 0"
proof -
  obtain t where t: "main_steps cfg_ex main_env_ex 14 sys_stopped = Some t" "y_status t = Exited 0"
    using sys_stopped_exits by blast
  have "\<exists>ls. sys_run (\<lambda>_. NoCmd) (\<lambda>_. True) cfg_ex (sys_start proc_ex fs_empty) ls t"
    using runs_append [OF sys_ready_reachable runs_Cons [of "sys_step (\<lambda>_. NoCmd) (\<lambda>_. True) cfg_ex", OF signal_stops main_steps_run [OF t(1)]]]
    by blast
  with t(2) show ?thesis by blast
qed

end
