(* ===== verification/Lifecycle_Runs.thy ===== *)
theory Lifecycle_Runs
  imports Lifecycle_Props
begin

text \<open>
  Particular behaviours of the whole daemon: an unpolled flash job at the end of \<open>main\<close>, the last
  statements of a reader that was told to stop, and the agreement of the reader's statements with the
  iteration of theory \<open>SerialPort\<close>.
\<close>

section \<open>An exit that is not regular\<close>

text \<open>A step that hands \<open>AT+TRYFLASHDONE\<close> to the processor, from the serial line or a request.\<close>

fun asks_result :: "(string \<Rightarrow> json_request) \<Rightarrow> sys \<Rightarrow> sys_label \<Rightarrow> bool" where
  "asks_result parse s (Reader e) \<longleftrightarrow> (\<exists>line. y_reader s = RHandle line \<and> at_action line = ''TRYFLASHDONE'')"
| "asks_result parse s (Http (HCall n env upload_data parts)) \<longleftrightarrow>
     (\<exists>c cmd. y_conns s n = Some c \<and> c_type c = RT_COMMAND \<and> upload_data = []
        \<and> parse (c_cmd_body c) = Cmd cmd \<and> at_action cmd = ''TRYFLASHDONE'')"
| "asks_result parse s l \<longleftrightarrow> False"

definition unasked_step ::
    "(string \<Rightarrow> json_request) \<Rightarrow> (string \<Rightarrow> bool) \<Rightarrow> Config \<Rightarrow> sys \<Rightarrow> sys_label \<Rightarrow> sys \<Rightarrow> bool" where
  "unasked_step parse dumpable cfg s l t \<longleftrightarrow> sys_step parse dumpable cfg s l t \<and> \<not> asks_result parse s l"

text \<open>A job was submitted, no call waits for it, and the process has not exited.\<close>

definition unpolled :: "sys \<Rightarrow> bool" where
  "unpolled s \<longleftrightarrow> f_worker (d_flash (y_d s)) \<noteq> NotJoinable \<and> (\<forall>c. y_status s \<noteq> Exited c)
     \<and> y_http_wait s = None \<and> (\<forall>w. y_reader s \<noteq> RWait w)"

lemma process_keeps_worker:
  assumes "f_worker (d_flash d) \<noteq> NotJoinable" "at_action raw \<noteq> ''TRYFLASHDONE''"
  shows "case process env cfg raw caller d of Replies r d' \<Rightarrow> f_worker (d_flash d') \<noteq> NotJoinable
    | Joins w d' \<Rightarrow> False | Dies \<Rightarrow> True"
proof (cases "at_request raw")
  case (Inl err)
  with assms(1) show ?thesis by (simp add: process_def)
next
  case (Inr r)
  obtain action arg where r: "r = (action, arg)" by fastforce
  with Inr assms(2) have a: "action \<noteq> ''TRYFLASHDONE''" "process env cfg raw caller d = run_action env cfg caller action arg d"
    by (simp_all add: at_action_def process_def)
  have "f_worker op' \<noteq> NotJoinable" if "handle_flash cfg arg (d_flash d) = Reply r op'" for r op'
    using that assms(1) by (auto simp: handle_flash_def Let_def split: sum.splits if_splits)
  moreover have "case run_action env cfg caller action arg d of
     Replies r d' \<Rightarrow> frame_of action caller d d' | Joins w d' \<Rightarrow> False | Dies \<Rightarrow> True"
    using run_action_frame [where env = env and cfg = cfg and caller = caller and action = action and arg = arg and d = d] a(1)
    by (auto split: outcome.splits)
  ultimately show ?thesis
    using a assms(1) by (cases "action = ''FLASH''")
      (auto simp: run_action_simps with_flash_def frame_of_def split: outcome.splits flash_result.splits)
qed

lemma unpolled_command:
  assumes "f_worker (d_flash d) \<noteq> NotJoinable"
    and "\<not> (upload_data = [] \<and> (\<exists>cmd. parse body = Cmd cmd \<and> at_action cmd = ''TRYFLASHDONE''))"
  shows "case handle_command parse dumpable env cfg upload_data body d of
      More body d' \<Rightarrow> f_worker (d_flash d') \<noteq> NotJoinable | Response code json d' \<Rightarrow> f_worker (d_flash d') \<noteq> NotJoinable
    | HttpJoins w d' \<Rightarrow> False | HttpDies \<Rightarrow> True"
proof (cases "upload_data \<noteq> [] \<or> body = [] \<or> (\<forall>cmd. parse body \<noteq> Cmd cmd)")
  case True
  with assms(1) show ?thesis
    by (auto simp: handle_command_def send_json_def split: json_request.splits)
next
  case False
  then obtain cmd where cmd: "parse body = Cmd cmd" "upload_data = []" "body \<noteq> []" by auto
  with assms(2) have a: "at_action cmd \<noteq> ''TRYFLASHDONE''" by auto
  obtain proceed owner where l: "http_lock cmd (d_owner d) = (proceed, owner)" by fastforce
  have "f_worker (d_flash (d\<lparr>d_owner := owner\<rparr>)) \<noteq> NotJoinable" using assms(1) by simp
  from process_keeps_worker [OF this a, of env cfg HTTP] show ?thesis
    using cmd l assms(1)
    by (cases "process env cfg cmd HTTP (d\<lparr>d_owner := owner\<rparr>)")
       (auto simp: handle_command_def command_response_def send_json_def Let_def)
qed

lemma unpolled_http:
  assumes "http_step parse dumpable cfg call s = Some t" "\<not> asks_result parse s (Http call)" "unpolled s" "y_status s = Alive"
  shows "unpolled t"
proof (cases call)
  case (HCall n env upload_data parts)
  with assms(1) obtain c where c: "y_conns s n = Some c" by (auto simp: http_step_def split: if_splits option.splits)
  show ?thesis
  proof (cases "c_type c = RT_COMMAND")
    case True
    have "\<not> (upload_data = [] \<and> (\<exists>cmd. parse (c_cmd_body c) = Cmd cmd \<and> at_action cmd = ''TRYFLASHDONE''))"
      using assms(2) HCall c True by auto
    moreover have "f_worker (d_flash (y_d s)) \<noteq> NotJoinable" using assms(3) by (simp add: unpolled_def)
    ultimately have "case handle_command parse dumpable (cmd_env env s) cfg upload_data (c_cmd_body c) (y_d s) of
        More body d' \<Rightarrow> f_worker (d_flash d') \<noteq> NotJoinable | Response code json d' \<Rightarrow> f_worker (d_flash d') \<noteq> NotJoinable
      | HttpJoins w d' \<Rightarrow> False | HttpDies \<Rightarrow> True"
      using unpolled_command by blast
    then show ?thesis
      using assms HCall c True
      by (auto simp: http_step_def access_handler_def unpolled_def split: if_splits http_result.splits)
  next
    case False
    with assms HCall c show ?thesis
      by (cases "c_type c") (auto simp: http_step_def access_handler_def unpolled_def handle_http_status_def
          handle_http_reset_def send_json_def split: if_splits upload_result.splits)
  qed
qed (use assms in \<open>auto simp: http_step_def unpolled_def split: if_splits first_call.splits option.splits\<close>)

lemma unpolled_step:
  assumes "unasked_step parse dumpable cfg s l t" "unpolled s"
  shows "unpolled t"
proof -
  have st: "sys_step parse dumpable cfg s l t" and n: "\<not> asks_result parse s l"
    using assms(1) by (simp_all add: unasked_step_def)
  from st show ?thesis
  proof cases
    case (by_main e)
    with assms(2) show ?thesis
      by (cases "y_main s")
         (auto simp: main_step_defs unpolled_def http_stop_def start_reader_def Let_def split: if_splits)
  next
    case (by_reader e)
    show ?thesis
    proof (cases "y_reader s")
      case (RHandle line)
      with n by_reader(1) have "at_action line \<noteq> ''TRYFLASHDONE''" by simp
      from process_keeps_worker [OF _ this, of "y_d s" "cmd_env (re_env e) s" cfg SERIAL] show ?thesis
        using RHandle by_reader assms(2) by (auto simp: reader_step_def unpolled_def split: outcome.splits)
    qed (use by_reader assms(2) in \<open>auto simp: reader_step_def unpolled_def send_line_def split: if_splits prod.splits\<close>)
  next
    case (by_http c)
    with unpolled_http n assms(2) show ?thesis by blast
  next
    case (by_worker e op)
    have "f_worker op \<noteq> NotJoinable"
      using by_worker(4) by (auto elim!: worker_step_cases split: worker.splits worker_pc.splits worker_event.splits)
    with by_worker assms(2) show ?thesis by (simp add: unpolled_def del: worker_step.simps)
  qed (use assms in \<open>auto simp: unpolled_def\<close>)
qed

interpretation unpolled_inv: step_invariant "unasked_step parse dumpable cfg" unpolled for parse dumpable cfg
  by unfold_locales (rule unpolled_step)

text \<open>
  C13: a flash job whose result nobody asks for (whether it has finished or not) makes a regular exit
  impossible. From a state with such a job, in which no call waits for it, through any run in which no
  \<open>AT+TRYFLASHDONE\<close> is processed (other commands, requests, lines, signals and the shutdown, with or
  without a serial device, in any interleaving), the process does not end with an exit code; and when
  \<open>main\<close> returns it is aborted: the destructor of the function-local \<open>FlashOp\<close> finds its thread joinable
  and calls \<open>std::terminate\<close>.
\<close>

theorem unpolled_flash_aborts:
  assumes "y_status s = Alive" "f_worker (d_flash (y_d s)) \<noteq> NotJoinable"
    and "y_http_wait s = None" "\<forall>w. y_reader s \<noteq> RWait w"
    and "runs (unasked_step parse dumpable cfg) s ls t"
  shows "y_status t \<noteq> Exited c \<and> f_worker (d_flash (y_d t)) \<noteq> NotJoinable
    \<and> (y_main t = MReturn \<and> sys_step parse dumpable cfg t (Main e) u \<longrightarrow> y_status u = Aborted)"
proof -
  have "unpolled t"
    by (rule unpolled_inv.inv_runs [OF assms(5)]) (use assms(1-4) in \<open>simp add: unpolled_def\<close>)
  then show ?thesis
    by (auto simp: unpolled_def main_step_defs elim!: sys_step_mainE)
qed

text \<open>The concrete run: \<open>AT+FLASH\<close> over HTTP, then SIGTERM.\<close>

definition flash_line :: string where
  "flash_line = ''AT+FLASH=fw.bin''"

definition sys_flashing :: sys where
  "sys_flashing = sys_ready\<lparr>y_d := (daemon_new fs_empty)\<lparr>d_owner := HTTP,
     d_flash := FlashOp_new\<lparr>f_cmd := ''/sbin/flash_full.sh fw.bin'', f_worker := Active AtRunning\<rparr>\<rparr>,
     y_conns := [0 \<mapsto> ConnectionState_new\<lparr>c_upload_dir := cfg_upload_dir cfg_ex, c_type := RT_COMMAND, c_cmd_body := ''x''\<rparr>]\<rparr>"

lemma flash_line_process:
  "process env cfg flash_line HTTP (daemon_new fs_empty\<lparr>d_owner := HTTP\<rparr>) =
     Replies (''OK submitted: '' @ cfg_scripts_dir cfg @ ''/flash_full.sh fw.bin'')
       (daemon_new fs_empty\<lparr>d_owner := HTTP,
          d_flash := FlashOp_new\<lparr>f_cmd := cfg_scripts_dir cfg @ ''/flash_full.sh fw.bin'', f_worker := Active AtRunning\<rparr>\<rparr>)"
proof -
  have "map to_upper ''FLASH'' = ''FLASH''" by (simp add: to_upper_def)
  then have "at_request flash_line = Inr (''FLASH'', ''fw.bin'')"
    using at_request_join [of "''FLASH''" "''fw.bin''" "[]"] by (simp add: flash_line_def)
  moreover have "flash_fields cfg ''fw.bin'' = Inr (cfg_scripts_dir cfg @ ''/flash_full.sh fw.bin'')"
    using find_comma_absent [of "''fw.bin''"] by (simp add: flash_fields_def FLASH_SCRIPTS_def del: find_char_None)
  ultimately show ?thesis
    by (simp add: process_def run_action_simps handle_flash_def with_flash_def daemon_new_def FlashOp_new_def)
qed

lemma run_http:
  "y_status s = Alive \<Longrightarrow> http_step parse dumpable cfg c s = Some t \<Longrightarrow> sys_run parse dumpable cfg t ls u \<Longrightarrow>
     sys_run parse dumpable cfg s (Http c # ls) u"
  using runs_Cons [where step = "sys_step parse dumpable cfg"] by_http by blast

definition flash_calls :: "sys_label list" where
  "flash_calls = [Http (HFirst 0 ''/api/command'' ''POST'' False False), Http (HCall 0 env_ok ''x'' []), Http (HCall 0 env_ok [] [])]"

lemma flash_calls_run:
  "sys_run (\<lambda>_. Cmd flash_line) (\<lambda>_. True) cfg_ex sys_ready flash_calls sys_flashing"
proof -
  let ?c = "ConnectionState_new\<lparr>c_upload_dir := cfg_upload_dir cfg_ex, c_type := RT_COMMAND\<rparr>"
  let ?s1 = "sys_ready\<lparr>y_conns := [0 \<mapsto> ?c], y_reqs := {0}\<rparr>"
    and ?s2 = "sys_ready\<lparr>y_conns := [0 \<mapsto> ?c\<lparr>c_cmd_body := ''x''\<rparr>], y_reqs := {0}\<rparr>"
  have alive: "y_status (sys_ready\<lparr>y_conns := cs, y_reqs := {0}\<rparr>) = Alive" "y_status sys_ready = Alive" for cs
    by (simp_all add: sys_ready_def sys_start_def)
  have 1: "http_step (\<lambda>_. Cmd flash_line) (\<lambda>_. True) cfg_ex (HFirst 0 ''/api/command'' ''POST'' False False) sys_ready = Some ?s1"
    by (simp add: http_step_def access_first_def sys_ready_def sys_start_def)
  have 2: "http_step (\<lambda>_. Cmd flash_line) (\<lambda>_. True) cfg_ex (HCall 0 env_ok ''x'' []) ?s1 = Some ?s2"
    by (simp add: http_step_def access_handler_def handle_command_def sys_ready_def sys_start_def ConnectionState_new_def)
  have "\<not> bypass_lock flash_line"
    by (simp add: bypass_lock_def find_char_from_def flash_line_def substr_def)
  then have "http_lock flash_line NONE = (True, HTTP)" by (rule http_lock_granted) simp
  then have 3: "http_step (\<lambda>_. Cmd flash_line) (\<lambda>_. True) cfg_ex (HCall 0 env_ok [] []) ?s2 = Some sys_flashing"
    using flash_line_process [of _ cfg_ex]
    by (simp add: http_step_def access_handler_def handle_command_def sys_ready_def sys_flashing_def sys_start_def
        command_response_def send_json_def daemon_new_def cfg_ex_def Config_default_def cmd_env_def)
  show ?thesis
    unfolding flash_calls_def
    by (rule run_http [OF alive(2) 1], rule run_http [OF alive(1) 2], rule run_http [OF alive(1) 3], rule runs_Nil)
qed

lemma flashing_aborts:
  "\<exists>t. main_steps cfg_ex main_env_ex 14 (sys_flashing\<lparr>y_proc := (setup_signals proc_ex)\<lparr>pr_running := False\<rparr>\<rparr>) = Some t
    \<and> y_status t = Aborted"
  unfolding sys_flashing_def sys_ready_def sys_start_def
  by (simp add: eval_nat_numeral main_step_defs http_stop_def is_running_def close_if_open_def cfg_ex_def daemon_new_def FlashOp_new_def)

theorem unpolled_flash_aborts_witness:
  "\<exists>before ls (t :: sys). sys_run (\<lambda>_. Cmd flash_line) (\<lambda>_. True) cfg_ex (sys_start proc_ex fs_empty) before sys_flashing
    \<and> runs (unasked_step (\<lambda>_. Cmd flash_line) (\<lambda>_. True) cfg_ex) sys_flashing (Signal SIGTERM # ls) t
    \<and> y_status t = Aborted \<and> y_status t \<noteq> Exited 0 \<and> f_worker (d_flash (y_d t)) \<noteq> NotJoinable"
proof -
  let ?run = "sys_run (\<lambda>_. Cmd flash_line) (\<lambda>_. True) cfg_ex"
  let ?s = "sys_flashing\<lparr>y_proc := (setup_signals proc_ex)\<lparr>pr_running := False\<rparr>\<rparr>" and ?ls = "replicate 14 (Main main_env_ex)"
  obtain t where t: "main_steps cfg_ex main_env_ex 14 ?s = Some t" "y_status t = Aborted"
    using flashing_aborts by blast
  have "deliver SIGTERM (y_proc sys_flashing) = Some ((setup_signals proc_ex)\<lparr>pr_running := False\<rparr>)"
    by (simp add: deliver_def sys_flashing_def sys_ready_def setup_signals_def signal_handler_def)
  moreover have alive: "y_status sys_flashing = Alive" by (simp add: sys_flashing_def sys_ready_def sys_start_def)
  ultimately have "sys_step (\<lambda>_. Cmd flash_line) (\<lambda>_. True) cfg_ex sys_flashing (Signal SIGTERM) ?s"
    using by_signal by blast
  then have r: "?run sys_flashing (Signal SIGTERM # ?ls) t"
    using runs_Cons [where step = "sys_step (\<lambda>_. Cmd flash_line) (\<lambda>_. True) cfg_ex"] main_steps_run [OF t(1)] by blast
  have unasked: "runs (unasked_step (\<lambda>_. Cmd flash_line) (\<lambda>_. True) cfg_ex) sys_flashing (Signal SIGTERM # ?ls) t"
    by (rule runs_mono [OF r]) (auto simp: unasked_step_def)
  have "f_worker (d_flash (y_d sys_flashing)) \<noteq> NotJoinable" "y_http_wait sys_flashing = None" "\<forall>w. y_reader sys_flashing \<noteq> RWait w"
    by (simp_all add: sys_flashing_def sys_ready_def sys_start_def)
  from unpolled_flash_aborts [OF alive this unasked] t(2) unasked runs_append [OF sys_ready_reachable flash_calls_run]
  show ?thesis by blast
qed

section \<open>The last statements of the reader\<close>

fun is_reader :: "sys_label \<Rightarrow> bool" where
  "is_reader (Reader e) \<longleftrightarrow> True"
| "is_reader l \<longleftrightarrow> False"

text \<open>From the call of \<open>stop_reader\<close> that cleared the flag on, the flag stays cleared.\<close>

definition told_to_stop :: "sys \<Rightarrow> bool" where
  "told_to_stop s \<longleftrightarrow> sys_wf s \<and> \<not> y_reader_running s
     \<and> y_main s \<notin> {MSignals, MSerialStart, MReaderStart, MHttpStart, MWait, MHttpStop}"

definition statements_left :: "sys \<Rightarrow> nat" where
  "statements_left s = (if y_status s = Alive then reader_rank (y_reader s) else 0)"

lemma told_to_stop_main:
  assumes "main_step cfg e s = Some t" "told_to_stop s"
  shows "told_to_stop t \<and> (y_reader t = y_reader s \<or> y_reader t = NoThread)"
proof -
  have "sys_wf t" using sys_wf_main [OF assms(1)] assms(2) by (simp add: told_to_stop_def)
  then show ?thesis
    using assms
    by (cases "y_main s"; cases "y_main t")
       (auto simp: told_to_stop_def main_step_defs http_stop_def split: if_splits elim: after_stop.elims)
qed

lemma told_to_stop_step:
  assumes "sys_step parse dumpable cfg s l t" "told_to_stop s"
  shows "told_to_stop t"
proof -
  have "sys_wf t" using sys_wf_step [OF assms(1)] assms(2) by (simp add: told_to_stop_def)
  with assms(1) show ?thesis
  proof cases
    case (by_main e)
    with told_to_stop_main assms(2) show ?thesis by blast
  next
    case (by_reader e)
    with \<open>sys_wf t\<close> assms(2) reader_step_frame [OF by_reader(3)] show ?thesis
      by (simp add: told_to_stop_def same_main_def)
  next
    case (by_http c)
    with \<open>sys_wf t\<close> assms(2) http_step_frame [OF by_http(3)] show ?thesis
      by (simp add: told_to_stop_def same_main_def)
  qed (use assms(2) in \<open>simp_all add: told_to_stop_def\<close>)
qed

lemma statements_left_step:
  assumes "sys_step parse dumpable cfg s l t" "told_to_stop s"
  shows "(is_reader l \<longrightarrow> statements_left t < statements_left s) \<and> (\<not> is_reader l \<longrightarrow> statements_left t \<le> statements_left s)"
  using assms(1)
proof cases
  case (by_main e)
  with told_to_stop_main [OF by_main(3) assms(2)] show ?thesis by (auto simp: statements_left_def)
next
  case (by_reader e)
  have "y_reader s \<noteq> NoThread \<and> y_reader s \<noteq> RDone" using reader_step_frame [OF by_reader(3)] by simp
  then have "0 < reader_rank (y_reader s)" by (cases "y_reader s") simp_all
  moreover have "\<not> y_reader_running s" using assms(2) by (simp add: told_to_stop_def)
  ultimately show ?thesis
    using by_reader reader_rank_step [OF by_reader(3)] by (auto simp: statements_left_def)
next
  case (by_http c)
  with http_step_frame [OF by_http(3)] show ?thesis by (simp add: statements_left_def)
qed (use assms(2) in \<open>simp_all add: statements_left_def\<close>)

interpretation last_statements: bounded_labels "sys_step parse dumpable cfg" told_to_stop is_reader statements_left
    for parse dumpable cfg
  by unfold_locales (use told_to_stop_step statements_left_step in blast)+

text \<open>
  C35: the reader stops. From the moment \<open>stop_reader\<close> has cleared \<open>reader_running_\<close>, in every run of
  the whole daemon, the reader thread executes at most seven more statements of its loop (so at most
  one more command), whatever arrives on the line, and when it has none left \<open>join\<close> returns.
\<close>

theorem reader_stops:
  assumes "sys_run parse dumpable cfg (sys_start p fs) before s" "fs_wf fs" "pr_handled p = []"
    and "y_main s = MStopReaderClose k"
    and "sys_run parse dumpable cfg s ls t"
  shows "length (filter is_reader ls) \<le> 7
    \<and> (y_status t = Alive \<and> y_main t = MStopReaderJoin k \<and> reader_rank (y_reader t) = 0 \<longrightarrow> main_step cfg e t \<noteq> None)"
proof -
  have wf: "sys_wf s" by (rule sys_wf_reachable [OF assms(1-3)])
  then have "told_to_stop s"
    using assms(4) by (auto simp: told_to_stop_def sys_wf_def reader_stopping_def)
  then have "length (filter is_reader ls) \<le> statements_left s"
    using last_statements.counted_bound [OF assms(5)] by simp
  then have "length (filter is_reader ls) \<le> 7"
    using reader_rank_le [of "y_reader s"] by (auto simp: statements_left_def split: if_splits)
  then show ?thesis
    by (cases "y_reader t") (auto simp: main_step_defs)
qed

text \<open>With a serial port: the reader is started, SIGTERM arrives, \<open>main\<close> gets to \<open>stop_reader\<close>.\<close>

definition cfg_serial_ex :: Config where
  "cfg_serial_ex = cfg_ex\<lparr>cfg_serial_device := ''/dev/ttyS1''\<rparr>"

definition sys_serial :: sys where
  "sys_serial = (sys_start proc_ex fs_empty)\<lparr>y_main := MWait, y_http := True, y_proc := setup_signals proc_ex,
     y_port := SerialPort_new\<lparr>sp_device := ''/dev/ttyS1'', sp_port := True\<rparr>, y_reader_running := True, y_reader := RTest\<rparr>"

definition sys_serial_stopping :: sys where
  "sys_serial_stopping = sys_serial\<lparr>y_main := MStopReaderClose FromMain, y_http := False,
     y_proc := (setup_signals proc_ex)\<lparr>pr_running := False\<rparr>, y_reader_running := False\<rparr>"

lemma sys_serial_reachable:
  "sys_run parse dumpable cfg_serial_ex (sys_start proc_ex fs_empty)
     [Main main_env_ex, Main main_env_ex, Main main_env_ex, Main main_env_ex] sys_serial"
proof -
  let ?s = "sys_start proc_ex fs_empty" and ?p = "setup_signals proc_ex"
  let ?port = "SerialPort_new\<lparr>sp_device := ''/dev/ttyS1'', sp_port := True\<rparr>"
  have 1: "main_step cfg_serial_ex main_env_ex ?s = Some (?s\<lparr>y_proc := ?p, y_main := MSerialStart\<rparr>)"
    by (simp add: main_step_defs sys_start_def)
  have 2: "main_step cfg_serial_ex main_env_ex (?s\<lparr>y_proc := ?p, y_main := MSerialStart\<rparr>)
      = Some (?s\<lparr>y_proc := ?p, y_main := MReaderStart, y_port := ?port\<rparr>)"
    by (simp add: main_step_defs sys_start_def cfg_serial_ex_def use_serial_def daemon_start_def open_port_def
        port_is_open_def SerialPort_new_def main_env_ex_def reader_env_ex_def)
  have 3: "main_step cfg_serial_ex main_env_ex (?s\<lparr>y_proc := ?p, y_main := MReaderStart, y_port := ?port\<rparr>)
      = Some (?s\<lparr>y_proc := ?p, y_main := MHttpStart, y_port := ?port, y_reader_running := True, y_reader := RTest\<rparr>)"
    by (simp add: main_step_defs sys_start_def cfg_serial_ex_def use_serial_def start_reader_def)
  have 4: "main_step cfg_serial_ex main_env_ex
      (?s\<lparr>y_proc := ?p, y_main := MHttpStart, y_port := ?port, y_reader_running := True, y_reader := RTest\<rparr>) = Some sys_serial"
    by (simp add: main_step_defs main_env_ex_def sys_serial_def)
  show ?thesis
    by (rule run_main [OF _ 1], simp add: sys_start_def, rule run_main [OF _ 2], simp add: sys_start_def,
        rule run_main [OF _ 3], simp add: sys_start_def, rule run_main [OF _ 4], simp add: sys_start_def, rule runs_Nil)
qed

lemma serial_run_ex:
  "main_steps cfg_serial_ex main_env_ex 3 (sys_serial\<lparr>y_proc := (setup_signals proc_ex)\<lparr>pr_running := False\<rparr>\<rparr>)
     = Some sys_serial_stopping"
  "reader_step cfg_serial_ex reader_env_ex sys_serial_stopping = Some (sys_serial_stopping\<lparr>y_reader := RDone\<rparr>)"
  by (simp add: eval_nat_numeral sys_start_def sys_serial_def sys_serial_stopping_def main_step_defs http_stop_def is_running_def)
     (simp add: reader_step_def sys_serial_stopping_def sys_serial_def)

theorem reader_stops_witness:
  "\<exists>(s :: sys) (t :: sys) ls. y_main s = MStopReaderClose FromMain \<and> y_reader t = RDone \<and> filter is_reader ls = ls \<and> length ls = 1
    \<and> length (filter is_reader ls) \<le> 7
    \<and> (y_status t = Alive \<and> y_main t = MStopReaderJoin FromMain \<and> reader_rank (y_reader t) = 0
        \<longrightarrow> main_step cfg_serial_ex main_env_ex t \<noteq> None)"
proof -
  let ?step = "sys_step (\<lambda>_. NoCmd) (\<lambda>_. True) cfg_serial_ex"
  let ?p = "(setup_signals proc_ex)\<lparr>pr_running := False\<rparr>"
  have alive: "y_status sys_serial = Alive" "y_status sys_serial_stopping = Alive"
    by (simp_all add: sys_serial_def sys_serial_stopping_def sys_start_def)
  have "deliver SIGTERM (y_proc sys_serial) = Some ?p"
    by (simp add: deliver_def sys_serial_def setup_signals_def signal_handler_def)
  then have "?step sys_serial (Signal SIGTERM) (sys_serial\<lparr>y_proc := ?p\<rparr>)" by (rule by_signal [OF alive(1)])
  from runs_append [OF sys_serial_reachable runs_Cons [where step = ?step, OF this main_steps_run [OF serial_run_ex(1)]]]
  obtain before where r: "runs ?step (sys_start proc_ex fs_empty) before sys_serial_stopping" by blast
  have one: "runs ?step sys_serial_stopping [Reader reader_env_ex] (sys_serial_stopping\<lparr>y_reader := RDone\<rparr>)"
    using runs_Cons [where step = ?step, OF by_reader [OF alive(2) serial_run_ex(2)] runs_Nil] .
  have pc: "y_main sys_serial_stopping = MStopReaderClose FromMain" by (simp add: sys_serial_stopping_def)
  from reader_stops [OF r _ _ pc one, of main_env_ex] show ?thesis
    using pc by (intro exI [of _ sys_serial_stopping] exI [of _ "sys_serial_stopping\<lparr>y_reader := RDone\<rparr>"]
        exI [of _ "[Reader reader_env_ex]"]) (simp add: proc_ex_def)
qed

section \<open>The end of the main thread\<close>

fun is_main :: "sys_label \<Rightarrow> bool" where
  "is_main (Main e) \<longleftrightarrow> True"
| "is_main l \<longleftrightarrow> False"

definition main_left :: "sys \<Rightarrow> nat" where
  "main_left s = (if y_status s = Alive then main_rank (y_main s) else 0)"

lemma stopped_step:
  assumes "sys_step parse dumpable cfg s l t" "\<not> is_running (y_proc s)"
  shows "\<not> is_running (y_proc t)"
  using assms(1)
proof cases
  case (by_main e)
  with assms(2) main_step_running [OF by_main(3)] show ?thesis by (simp add: is_running_def)
next
  case (by_reader e)
  with assms(2) reader_step_frame [OF by_reader(3)] show ?thesis by (simp add: same_main_def)
next
  case (by_http c)
  with assms(2) http_step_frame [OF by_http(3)] show ?thesis by (simp add: same_main_def)
next
  case (by_signal sig p)
  with assms(2) deliver_frame [OF by_signal(4)] show ?thesis by (auto simp: is_running_def)
qed (use assms(2) in simp_all)

lemma main_left_step:
  assumes "sys_step parse dumpable cfg s l t" "\<not> is_running (y_proc s)"
  shows "(is_main l \<longrightarrow> main_left t < main_left s) \<and> (\<not> is_main l \<longrightarrow> main_left t \<le> main_left s)"
  using assms(1)
proof cases
  case (by_main e)
  with main_step_rank [OF by_main(3) assms(2) by_main(2)] main_rank_pos [of "y_main s"] show ?thesis
    by (auto simp: main_left_def)
next
  case (by_reader e)
  with reader_step_frame [OF by_reader(3)] show ?thesis by (simp add: main_left_def same_main_def)
next
  case (by_http c)
  with http_step_frame [OF by_http(3)] show ?thesis by (simp add: main_left_def same_main_def)
qed (simp_all add: main_left_def)

interpretation main_statements: bounded_labels "sys_step parse dumpable cfg" "\<lambda>s. \<not> is_running (y_proc s)" is_main main_left
    for parse dumpable cfg
  by unfold_locales (use stopped_step main_left_step in blast)+

text \<open>
  C36: once a signal has cleared \<open>g_running\<close>, the main thread never goes round again: in every run of the
  whole daemon, with whatever requests, lines, signals and flash jobs in between, it executes at most
  twenty more statements from its waiting loop on (24 from the start of \<open>main\<close>), each of them nearer
  to the end, and when it has none left the process has ended.
\<close>

theorem main_ends:
  assumes "sys_run parse dumpable cfg s ls t" "\<not> is_running (y_proc s)"
  shows "length (filter is_main ls) + main_left t \<le> 24
    \<and> (y_main s = MWait \<longrightarrow> length (filter is_main ls) \<le> 20) \<and> (main_left t = 0 \<longrightarrow> y_status t \<noteq> Alive)"
proof -
  have "length (filter is_main ls) + main_left t \<le> main_left s"
    by (rule main_statements.counted_bound [OF assms])
  moreover have "main_left s \<le> 24" "y_main s = MWait \<longrightarrow> main_left s \<le> 20"
    using main_rank_le by (auto simp: main_left_def)
  moreover have "main_left t = 0 \<longrightarrow> y_status t \<noteq> Alive"
    using main_rank_pos [of "y_main t"] by (auto simp: main_left_def)
  ultimately show ?thesis by linarith
qed

text \<open>After the signal, the ready daemon of theory \<open>Lifecycle_Props\<close> ends in fourteen.\<close>

theorem main_ends_witness:
  "\<exists>ls (t :: sys). y_status t = Exited 0 \<and> length (filter is_main ls) = 14 \<and> length (filter is_main ls) + main_left t \<le> 24
    \<and> sys_run (\<lambda>_. NoCmd) (\<lambda>_. True) cfg_ex sys_stopped ls t"
proof -
  obtain t where t: "main_steps cfg_ex main_env_ex 14 sys_stopped = Some t" "y_status t = Exited 0"
    using sys_stopped_exits by blast
  let ?ls = "replicate 14 (Main main_env_ex)"
  have r: "sys_run (\<lambda>_. NoCmd) (\<lambda>_. True) cfg_ex sys_stopped ?ls t" by (rule main_steps_run [OF t(1)])
  have "\<not> is_running (y_proc sys_stopped)" by (simp add: sys_stopped_def is_running_def)
  from main_ends [OF r this] r t(2) show ?thesis by (intro exI [of _ ?ls] exI [of _ t]) simp
qed

section \<open>The reader's statements are one iteration of its loop\<close>

text \<open>The reader alone.\<close>

fun reader_steps :: "Config \<Rightarrow> reader_env \<Rightarrow> nat \<Rightarrow> sys \<Rightarrow> sys option" where
  "reader_steps cfg e 0 s = Some s"
| "reader_steps cfg e (Suc n) s =
     (if y_status s \<noteq> Alive then None else case reader_step cfg e s of Some t \<Rightarrow> reader_steps cfg e n t | None \<Rightarrow> None)"

text \<open>What an iteration leaves the daemon in, from the turn it took.\<close>

fun after_turn :: "turn \<Rightarrow> SerialPort \<Rightarrow> sys \<Rightarrow> sys" where
  "after_turn Nothing p s = s\<lparr>y_port := p\<rparr>"
| "after_turn (Turn (Writes rs d) out) p s = s\<lparr>y_d := d, y_wire := y_wire s @ out\<rparr>"
| "after_turn (Turn (SerialJoins w d) out) p s = s\<lparr>y_d := d, y_reader := RWait w\<rparr>"
| "after_turn (Turn SerialDies out) p s = s\<lparr>y_status := Aborted\<rparr>"

text \<open>Which statements a turn takes, and the state before the last of them.\<close>

lemma reader_first_steps:
  assumes "y_status s = Alive" "y_reader_running s" "y_reader s = RTest"
    and "daemon_readLine 500 (y_port s) (re_events e) = Some (ok, line, evs)"
  shows "reader_steps cfg e (Suc (Suc n)) s = reader_steps cfg e n (s\<lparr>y_reader := (if ok then RGot line else RFailed)\<rparr>)"
  using assms by (simp add: reader_step_def)

lemma reader_open_steps:
  assumes "y_status s = Alive" "y_reader_running s" "y_reader s = RFailed"
    and "\<not> port_is_open (y_port s)" "open_port (re_port e) (cfg_serial_device cfg) (y_port s) = Some (opened, p)"
  shows "reader_steps cfg e 2 s = Some (s\<lparr>y_port := p, y_reader := RTest\<rparr>)"
  using assms by (simp add: eval_nat_numeral reader_step_def)

lemma reader_turn_steps:
  assumes "y_status s = Alive" "y_reader s = RGot line" "port_is_open (y_port s)"
    and "serial_turn (cmd_env (re_env e) s) cfg line (y_d s) = res"
    and "out = (case res of Writes rs _ \<Rightarrow> concat (map (\<lambda>r. snd (daemon_writeLine (re_write e) (y_port s) r)) rs) | _ \<Rightarrow> [])"
  shows "\<exists>n. reader_steps cfg e n s = Some (after_turn (Turn res out) (y_port s) (s\<lparr>y_reader := RTest\<rparr>))
    \<or> res = SerialDies \<and> (\<exists>r d. reader_steps cfg e n s = Some (s\<lparr>y_reader := r, y_d := d, y_status := Aborted\<rparr>))"
proof -
  obtain got owner where acq: "try_acquire SERIAL (d_owner (y_d s)) = (got, owner)" by fastforce
  have kept: "\<not> got \<Longrightarrow> owner = d_owner (y_d s)"
    using acq by (auto simp: try_acquire_def split: if_splits)
  let ?d = "(y_d s)\<lparr>d_owner := owner\<rparr>"
  have env: "cmd_env (re_env e) (s\<lparr>y_d := d, y_reader := r\<rparr>) = cmd_env (re_env e) s" for d r
    by (simp add: cmd_env_def)
  show ?thesis
  proof (cases "\<not> got \<and> owner \<noteq> SERIAL")
    case True
    then have "res = Writes [''BUSY''] ?d" using assms(4) acq by (simp add: serial_turn_def)
    with True assms kept acq have "reader_steps cfg e 3 s = Some (after_turn (Turn res out) (y_port s) (s\<lparr>y_reader := RTest\<rparr>))"
      by (simp add: eval_nat_numeral reader_step_def send_line_def)
    then show ?thesis by blast
  next
    case False
    let ?n = "if got then 1 else 2"
    have pre: "reader_steps cfg e (?n + m) s = reader_steps cfg e m (s\<lparr>y_d := ?d, y_reader := RHandle line\<rparr>)" for m
      using False assms(1,2) acq kept by (cases got) (simp_all add: eval_nat_numeral reader_step_def)
    have turn: "res = (case process (cmd_env (re_env e) s) cfg line SERIAL ?d of
        Replies response d \<Rightarrow> Writes (if response \<noteq> [] then [response] else []) d
      | Joins w d \<Rightarrow> SerialJoins w d | Dies \<Rightarrow> SerialDies)"
      using False assms(4) acq by (auto simp: serial_turn_def)
    show ?thesis
    proof (cases "process (cmd_env (re_env e) s) cfg line SERIAL ?d")
      case (Replies response d)
      then have "reader_steps cfg e (?n + 2) s = Some (after_turn (Turn res out) (y_port s) (s\<lparr>y_reader := RTest\<rparr>))"
        unfolding pre using turn assms(1,5) env by (simp add: eval_nat_numeral reader_step_def send_line_def)
      then show ?thesis by blast
    next
      case (Joins w d)
      then have "reader_steps cfg e (?n + 1) s = Some (after_turn (Turn res out) (y_port s) (s\<lparr>y_reader := RTest\<rparr>))"
        unfolding pre using turn assms(1,5) env by (simp add: reader_step_def)
      then show ?thesis by blast
    next
      case Dies
      then have "reader_steps cfg e (?n + 1) s = Some (s\<lparr>y_reader := RHandle line, y_d := ?d, y_status := Aborted\<rparr>)"
        unfolding pre using turn assms(1,5) env by (simp add: reader_step_def)
      moreover have "res = SerialDies" using turn Dies by simp
      ultimately show ?thesis by blast
    qed
  qed
qed

text \<open>The iteration without a line: the port is opened again, if it is closed.\<close>

lemma reader_failed_iteration:
  assumes "y_status s = Alive" "y_reader_running s" "y_reader s = RTest"
    and "daemon_readLine 500 (y_port s) (re_events e) = Some (False, line', evs'')"
    and "port_readLine 500 (y_port s) (re_events e) = Some (False, line, evs')"
    and "reader_iteration env (re_port e) wr cfg (y_port s) (y_d s) (re_events e) = Some (p, what, evs)"
  shows "what = Nothing \<and> reader_steps cfg e 4 s = Some (after_turn what p s)"
proof -
  have first: "reader_steps cfg e 4 s = reader_steps cfg e 2 (s\<lparr>y_reader := RFailed\<rparr>)"
    using reader_first_steps [OF assms(1-4), of cfg 2] by (simp add: eval_nat_numeral)
  have same: "s\<lparr>y_port := q, y_reader := RTest\<rparr> = s\<lparr>y_port := q\<rparr>" for q using assms(3) by simp
  show ?thesis
  proof (cases "port_is_open (y_port s)")
    case True
    then have "p = y_port s" "what = Nothing" using assms(5,6) by (auto simp: reader_iteration_def)
    moreover have "reader_steps cfg e 2 (s\<lparr>y_reader := RFailed\<rparr>) = Some s"
      using assms(1-3) True by (simp add: eval_nat_numeral reader_step_def)
    ultimately show ?thesis using first by simp
  next
    case False
    then obtain opened where "open_port (re_port e) (cfg_serial_device cfg) (y_port s) = Some (opened, p)" "what = Nothing"
      using assms(5,6) by (auto simp: reader_iteration_def)
    with reader_open_steps [of "s\<lparr>y_reader := RFailed\<rparr>" e cfg opened p] assms(1,2) False first same show ?thesis by simp
  qed
qed

text \<open>The iteration with a line.\<close>

lemma reader_line_iteration:
  assumes "y_status s = Alive" "y_reader_running s" "y_reader s = RTest"
    and d: "daemon_readLine 500 (y_port s) (re_events e) = Some (True, line, evs')"
    and "reader_iteration (cmd_env (re_env e) s) (re_port e) (re_write e) cfg (y_port s) (y_d s) (re_events e) = Some (p, what, evs)"
  shows "\<exists>n t. reader_steps cfg e n s = Some t
    \<and> (t = after_turn what p s \<or> (\<exists>out. what = Turn SerialDies out) \<and> y_status t = Aborted)"
proof -
  let ?s = "s\<lparr>y_reader := RGot line\<rparr>"
  have opened: "port_is_open (y_port s)" and read: "port_readLine 500 (y_port s) (re_events e) = Some (True, line, evs')"
    using d by (auto simp: daemon_readLine_def split: if_splits)
  have env: "cmd_env (re_env e) ?s = cmd_env (re_env e) s" by (simp add: cmd_env_def)
  obtain res out where turn: "what = Turn res out" "p = y_port s" "serial_turn (cmd_env (re_env e) s) cfg line (y_d s) = res"
    and out: "out = (case res of Writes rs _ \<Rightarrow> concat (map (\<lambda>r. snd (daemon_writeLine (re_write e) (y_port s) r)) rs) | _ \<Rightarrow> [])"
    using assms(5) read by (auto simp: reader_iteration_def Let_def)
  have "\<exists>n. reader_steps cfg e n ?s = Some (after_turn (Turn res out) (y_port ?s) (?s\<lparr>y_reader := RTest\<rparr>))
      \<or> res = SerialDies \<and> (\<exists>r d. reader_steps cfg e n ?s = Some (?s\<lparr>y_reader := r, y_d := d, y_status := Aborted\<rparr>))"
    by (rule reader_turn_steps) (use assms(1) opened turn(3) env out in \<open>simp_all split: serial_result.split\<close>)
  moreover have "?s\<lparr>y_reader := RTest\<rparr> = s" "y_port ?s = y_port s" using assms(3) by simp_all
  ultimately obtain n where "reader_steps cfg e (Suc (Suc n)) s = Some (after_turn what p s)
      \<or> res = SerialDies \<and> (\<exists>r d. reader_steps cfg e (Suc (Suc n)) s = Some (?s\<lparr>y_reader := r, y_d := d, y_status := Aborted\<rparr>))"
    using reader_first_steps [OF assms(1-3) d, of cfg] turn(1,2) by auto
  with turn(1) show ?thesis by fastforce
qed

text \<open>
  The statements of the reader thread, executed without another thread in between, are the loop
  iteration of theory \<open>SerialPort\<close>: from the loop test of a running reader, whatever the line delivers,
  the same turn is taken, the same bytes are sent, and the thread is back at the test (or waits for
  the flash worker, or has ended the process) with the same port and the same daemon.
\<close>

theorem reader_statements_are_iteration:
  assumes "y_status s = Alive" "y_reader_running s" "y_reader s = RTest"
    and "reader_iteration (cmd_env (re_env e) s) (re_port e) (re_write e) cfg (y_port s) (y_d s) (re_events e) = Some (p, what, evs)"
  shows "\<exists>n t. reader_steps cfg e n s = Some t
    \<and> (t = after_turn what p s \<or> (\<exists>out. what = Turn SerialDies out) \<and> y_status t = Aborted)"
proof -
  obtain ok line evs' where read: "port_readLine 500 (y_port s) (re_events e) = Some (ok, line, evs')"
    using assms(4) by (fastforce simp: reader_iteration_def split: option.splits)
  then have dread: "daemon_readLine 500 (y_port s) (re_events e) = Some (ok, line, evs')
      \<or> \<not> ok \<and> daemon_readLine 500 (y_port s) (re_events e) = Some (False, [], re_events e)"
    by (auto simp: daemon_readLine_def port_readLine_def)
  show ?thesis
  proof (cases ok)
    case False
    with dread obtain line' evs'' where "daemon_readLine 500 (y_port s) (re_events e) = Some (False, line', evs'')" by auto
    from reader_failed_iteration [OF assms(1-3) this _ assms(4)] read False
    have "what = Nothing \<and> reader_steps cfg e 4 s = Some (after_turn what p s)" by simp
    then show ?thesis by blast
  next
    case True
    with dread have "daemon_readLine 500 (y_port s) (re_events e) = Some (True, line, evs')" by auto
    then show ?thesis by (rule reader_line_iteration [OF assms(1-3) _ assms(4)])
  qed
qed

theorem reader_statements_are_iteration_witness:
  "\<exists>n t. reader_steps cfg_serial_ex reader_env_ex n sys_serial = Some t
    \<and> (t = after_turn Nothing (y_port sys_serial) sys_serial \<or> (\<exists>out. Nothing = Turn SerialDies out) \<and> y_status t = Aborted)"
proof (rule reader_statements_are_iteration)
  show "reader_iteration (cmd_env (re_env reader_env_ex) sys_serial) (re_port reader_env_ex) (re_write reader_env_ex) cfg_serial_ex
      (y_port sys_serial) (y_d sys_serial) (re_events reader_env_ex) = Some (y_port sys_serial, Nothing, [(500, NoData)])"
    by (simp add: reader_iteration_def port_readLine_def port_is_open_def reader_env_ex_def sys_serial_def)
qed (simp_all add: sys_serial_def sys_start_def)

end
