(* ===== verification/Lifecycle_Conns.thy ===== *)
theory Lifecycle_Conns
  imports Lifecycle_Runs
begin

text \<open>
  What the whole daemon keeps of the requests that have ended.
\<close>

section \<open>Connection states are never given back\<close>

text \<open>The connection states a step creates.\<close>

fun created :: "Config \<Rightarrow> sys_label \<Rightarrow> sys \<Rightarrow> ConnectionState list" where
  "created cfg (Http (HFirst n url meth debug multipart)) s =
     (case access_first debug multipart cfg url meth (d_owner (y_d s)) of Accepts c \<Rightarrow> [c] | _ \<Rightarrow> [])"
| "created cfg l s = []"

text \<open>What the steps of the other threads leave alone.\<close>

lemma main_step_conns: "main_step cfg e s = Some t \<Longrightarrow> y_conns t = y_conns s \<and> y_reqs t = y_reqs s"
  by (cases "y_main s") (auto simp: main_step_defs http_stop_def start_reader_def split: if_splits)

lemma reader_step_conns: "reader_step cfg e s = Some t \<Longrightarrow> y_conns t = y_conns s \<and> y_reqs t = y_reqs s"
  by (cases "y_reader s") (auto simp: reader_step_def send_line_def split: if_splits outcome.splits prod.splits)

text \<open>The number of objects on the heap, and the object of a request that has ended.\<close>

definition conns_grow :: "nat \<Rightarrow> sys \<Rightarrow> sys \<Rightarrow> bool" where
  "conns_grow k s t \<longleftrightarrow> finite (dom (y_conns t)) \<and> card (dom (y_conns t)) = card (dom (y_conns s)) + k"

definition ended_with :: "nat \<Rightarrow> ConnectionState \<Rightarrow> sys \<Rightarrow> bool" where
  "ended_with n c s \<longleftrightarrow> y_conns s n = Some c \<and> n \<notin> y_reqs s"

lemma card_insert_dom: "finite (dom m) \<Longrightarrow> m n = None \<Longrightarrow> card (dom (m(n \<mapsto> c))) = Suc (card (dom m))"
  by (simp add: domIff)

lemma card_update_dom: "m n = Some c \<Longrightarrow> dom (m(n \<mapsto> c')) = dom m"
  by auto

lemma http_step_conns:
  assumes "http_step parse dumpable cfg c s = Some t" "finite (dom (y_conns s))"
  shows "conns_grow (length (created cfg (Http c) s)) s t"
proof (cases c)
  case (HFirst n url meth debug multipart)
  have "finite (dom ((y_conns s)(n \<mapsto> c)))" for c using assms(2) by simp
  then show ?thesis
    using HFirst assms card_insert_dom [OF assms(2), of n]
    by (auto simp: http_step_def conns_grow_def split: if_splits first_call.splits simp del: dom_fun_upd)
next
  case (HCall n env upload_data parts)
  with assms show ?thesis
    by (auto simp: http_step_def conns_grow_def card_update_dom split: if_splits option.splits access_result.splits
        simp del: dom_fun_upd)
qed (use assms in \<open>auto simp: http_step_def conns_grow_def split: if_splits option.splits http_result.splits\<close>)

lemma sys_step_conns:
  assumes "sys_step parse dumpable cfg s l t" "finite (dom (y_conns s))"
  shows "conns_grow (length (created cfg l s)) s t"
  using assms(1)
proof cases
  case (by_main e)
  with main_step_conns [OF by_main(3)] assms(2) show ?thesis by (simp add: conns_grow_def)
next
  case (by_reader e)
  with reader_step_conns [OF by_reader(3)] assms(2) show ?thesis by (simp add: conns_grow_def)
next
  case (by_http c)
  with http_step_conns [OF by_http(3) assms(2)] show ?thesis by simp
qed (use assms(2) in \<open>simp_all add: conns_grow_def\<close>)

lemma traces_conns:
  "traces (sys_step parse dumpable cfg) (created cfg) s ls es t \<Longrightarrow> finite (dom (y_conns s)) \<Longrightarrow> conns_grow (length es) s t"
proof (induction rule: traces.induct)
  case (traces_Nil s)
  then show ?case by (simp add: conns_grow_def)
next
  case (traces_Cons s l t ls es u)
  from sys_step_conns [OF traces_Cons.hyps(1) traces_Cons.prems] traces_Cons.IH show ?case
    by (auto simp: conns_grow_def)
qed

lemma ended_with_step:
  assumes "sys_step parse dumpable cfg s l t" "ended_with n c s"
  shows "ended_with n c t"
  using assms(1)
proof cases
  case (by_main e)
  with main_step_conns [OF by_main(3)] assms(2) show ?thesis by (simp add: ended_with_def)
next
  case (by_reader e)
  with reader_step_conns [OF by_reader(3)] assms(2) show ?thesis by (simp add: ended_with_def)
next
  case (by_http call)
  with assms(2) show ?thesis
    by (cases call) (auto simp: http_step_def ended_with_def
        split: if_splits first_call.splits option.splits access_result.splits http_result.splits)
qed (use assms(2) in \<open>simp_all add: ended_with_def\<close>)

interpretation ended_request: step_invariant "sys_step parse dumpable cfg" "ended_with n c" for parse dumpable cfg n c
  by unfold_locales (rule ended_with_step)

text \<open>
  Connection states are never given back. In every run of the daemon, the objects allocated by
  \<open>accessHandler\<close> are all still on the heap; and the object of a request whose client disconnects
  stays as it is, whatever happens later: an upload that was cut off keeps its stream, and its
  temporary file.
\<close>

theorem connection_states_leak:
  assumes "traces (sys_step parse dumpable cfg) (created cfg) (sys_start p fs) before es s"
    and "sys_step parse dumpable cfg s (Http (HGone n)) t" "y_conns s n = Some c"
    and "sys_run parse dumpable cfg t ls u"
  shows "card (dom (y_conns s)) = length es \<and> d_fs (y_d t) = d_fs (y_d s) \<and> y_conns u n = Some c"
proof -
  have "finite (dom (y_conns (sys_start p fs)))" by (simp add: sys_start_def)
  from traces_conns [OF assms(1) this] have s: "card (dom (y_conns s)) = length es"
    by (simp add: conns_grow_def sys_start_def)
  have t: "t = s\<lparr>y_reqs := y_reqs s - {n}\<rparr>"
    using assms(2) by (auto elim!: sys_stepE simp: http_step_def split: if_splits)
  have "ended_with n c u"
    by (rule ended_request.inv_runs [OF assms(4)]) (simp add: t ended_with_def assms(3))
  then show ?thesis using s by (simp add: t ended_with_def)
qed

text \<open>The first piece of an upload arrives, and the client disconnects.\<close>

definition part_ex :: part where
  "part_ex = \<lparr>p_key = Some ''firmware'', p_filename = Some ''a'', p_data = [1]\<rparr>"

lemma upload_begun:
  obtains c d f where "sys_run (\<lambda>_. NoCmd) (\<lambda>_. True) cfg_ex sys_ready
      [Http (HFirst 0 ''/api/upload'' ''POST'' False True), Http (HCall 0 env_ok ''x'' [part_ex])]
      (sys_ready\<lparr>y_d := d, y_conns := [0 \<mapsto> c], y_reqs := {0}\<rparr>)"
    "c_upload_file c = Some f"
proof -
  let ?step = "http_step (\<lambda>_. NoCmd) (\<lambda>_. True) cfg_ex"
  let ?c = "ConnectionState_new\<lparr>c_upload_dir := cfg_upload_dir cfg_ex, c_type := RT_UPLOAD, c_pp := True\<rparr>"
  let ?s = "sys_ready\<lparr>y_conns := [0 \<mapsto> ?c], y_reqs := {0}\<rparr>"
  have alive: "y_status ?s = Alive" "y_status sys_ready = Alive" by (simp_all add: sys_ready_def sys_start_def)
  have 1: "?step (HFirst 0 ''/api/upload'' ''POST'' False True) sys_ready = Some ?s"
    by (simp add: http_step_def access_first_def sys_ready_def sys_start_def)
  obtain f fs where o: "fopen_wb io_all_ok fs_empty (cfg_upload_dir cfg_ex @ ''/'' @ dec_str_int 0 @ ''_'' @ ''a'') = (Some f, fs)"
    using fopen_wb_ok [of io_all_ok] by fastforce
  have v: "validate_filename ''a''" by (simp add: validate_filename_def is_alnum_def)
  obtain c d g where "access_handler (\<lambda>_. NoCmd) (\<lambda>_. True) (cmd_env env_ok ?s) cfg_ex ''x'' [part_ex] ?c (daemon_new fs_empty) = Yes c d"
      "c_upload_file c = Some g"
    using o v by (simp add: access_handler_def handle_upload_def post_field_def part_ex_def cmd_env_def env_ok_def
        daemon_new_def ConnectionState_new_def Let_def)
  moreover from this(1) have 2: "?step (HCall 0 env_ok ''x'' [part_ex]) ?s = Some (sys_ready\<lparr>y_d := d, y_conns := [0 \<mapsto> c], y_reqs := {0}\<rparr>)"
    by (simp add: http_step_def sys_ready_def sys_start_def)
  ultimately show ?thesis
    by (intro that) (rule run_http [OF alive(2) 1], rule run_http [OF alive(1) 2], rule runs_Nil)
qed

theorem connection_states_leak_witness:
  "\<exists>(s :: sys) t c f. sys_step (\<lambda>_. NoCmd) (\<lambda>_. True) cfg_ex s (Http (HGone 0)) t
    \<and> d_fs (y_d t) = d_fs (y_d s) \<and> y_conns t 0 = Some c \<and> c_upload_file c = Some f"
proof -
  let ?step = "sys_step (\<lambda>_. NoCmd) (\<lambda>_. True) cfg_ex"
  obtain c d f where r: "sys_run (\<lambda>_. NoCmd) (\<lambda>_. True) cfg_ex sys_ready
      [Http (HFirst 0 ''/api/upload'' ''POST'' False True), Http (HCall 0 env_ok ''x'' [part_ex])]
      (sys_ready\<lparr>y_d := d, y_conns := [0 \<mapsto> c], y_reqs := {0}\<rparr>)" and f: "c_upload_file c = Some f"
    by (rule upload_begun)
  let ?s = "sys_ready\<lparr>y_d := d, y_conns := [0 \<mapsto> c], y_reqs := {0}\<rparr>"
  obtain es ls where tr: "traces ?step (created cfg_ex) (sys_start proc_ex fs_empty) ls es ?s"
    using runs_traces [OF runs_append [OF sys_ready_reachable r]] by blast
  have "http_step (\<lambda>_. NoCmd) (\<lambda>_. True) cfg_ex (HGone 0) ?s = Some (?s\<lparr>y_reqs := y_reqs ?s - {0}\<rparr>)"
    by (simp add: http_step_def sys_ready_def sys_start_def)
  then have g: "?step ?s (Http (HGone 0)) (?s\<lparr>y_reqs := y_reqs ?s - {0}\<rparr>)"
    by (rule by_http [rotated]) (simp add: sys_ready_def sys_start_def)
  have "y_conns ?s 0 = Some c" by simp
  from connection_states_leak [OF tr g this runs_Nil] g f show ?thesis by blast
qed

end
