(* ===== verification/Lifecycle_Lock.thy ===== *)
theory Lifecycle_Lock
  imports Lifecycle_Runs
begin

text \<open>
  The session lock in the whole daemon: what the serial reader can do while HTTP owns it, and what an
  HTTP command can do while the serial side owns it.
\<close>

section \<open>HTTP owns the lock\<close>

text \<open>The reader is past the lock with a line.\<close>

fun serial_at_work :: "reader_pc \<Rightarrow> bool" where
  "serial_at_work (RHandle line) \<longleftrightarrow> True"
| "serial_at_work (RWait w) \<longleftrightarrow> True"
| "serial_at_work r \<longleftrightarrow> False"

text \<open>A step after which HTTP owns the lock.\<close>

definition http_held_step ::
    "(string \<Rightarrow> json_request) \<Rightarrow> (string \<Rightarrow> bool) \<Rightarrow> Config \<Rightarrow> sys \<Rightarrow> sys_label \<Rightarrow> sys \<Rightarrow> bool" where
  "http_held_step parse dumpable cfg s l t \<longleftrightarrow> sys_step parse dumpable cfg s l t \<and> d_owner (y_d t) = HTTP"

definition serial_locked_out :: "sys \<Rightarrow> bool" where
  "serial_locked_out s \<longleftrightarrow> d_owner (y_d s) = HTTP \<and> \<not> serial_at_work (y_reader s)"

text \<open>Between two states, a line was sent, or its beginning when the write fell short, or nothing.\<close>

definition may_send :: "string \<Rightarrow> sys \<Rightarrow> sys \<Rightarrow> bool" where
  "may_send line s t \<longleftrightarrow> (\<exists>k. y_wire t = y_wire s @ take k (line @ [CR, LF]))"

lemma may_send_line: "may_send line s (send_line w line s)"
  using exI [of "\<lambda>k. [] = take k (line @ [CR, LF])" 0]
  by (auto simp: may_send_def send_line_def daemon_writeLine_def port_writeLine_def Let_def)

lemma may_send_nothing: "y_wire t = y_wire s \<Longrightarrow> may_send line s t"
  unfolding may_send_def by (intro exI [of _ 0]) simp

lemma may_send_cong: "y_wire t = y_wire u \<Longrightarrow> may_send line s t = may_send line s u"
  by (simp add: may_send_def)

lemma locked_out_reader:
  assumes "reader_step cfg e s = Some t" "serial_locked_out s"
  shows "serial_locked_out t \<and> y_d t = y_d s \<and> y_status t = y_status s
    \<and> (may_send ''BUSY'' s t \<or> (\<exists>answer. y_reader s = RWrite answer \<and> may_send answer s t))"
proof -
  have w: "may_send line s ((send_line w line s)\<lparr>y_reader := r\<rparr>)" for w line r
    using may_send_line [of line s w] by (simp add: may_send_def)
  show ?thesis
    using assms w
    by (cases "y_reader s")
       (auto simp: reader_step_def serial_locked_out_def owner_ops may_send_nothing
         split: if_splits outcome.splits prod.splits, simp_all add: send_line_def)
qed

lemma locked_out_step:
  assumes "http_held_step parse dumpable cfg s l t" "serial_locked_out s"
  shows "serial_locked_out t"
proof -
  have held: "d_owner (y_d t) = HTTP" and st: "sys_step parse dumpable cfg s l t"
    using assms(1) by (simp_all add: http_held_step_def)
  from st show ?thesis
  proof cases
    case (by_main e)
    have "y_reader t = y_reader s \<or> y_reader t \<in> {RTest, NoThread}"
      using by_main(3) by (cases "y_main s") (auto simp: main_step_defs http_stop_def start_reader_def split: if_splits)
    with held assms(2) show ?thesis by (auto simp: serial_locked_out_def)
  next
    case (by_reader e)
    with locked_out_reader [OF by_reader(3) assms(2)] show ?thesis by simp
  next
    case (by_http c)
    with held assms(2) http_step_frame [OF by_http(3)] show ?thesis by (simp add: serial_locked_out_def)
  qed (use held assms(2) in \<open>simp_all add: serial_locked_out_def\<close>)
qed

interpretation lock_out: step_invariant "http_held_step parse dumpable cfg" serial_locked_out for parse dumpable cfg
  by unfold_locales (rule locked_out_step)

text \<open>
  C27: while HTTP owns the session lock a serial reader that is not already inside a command changes
  nothing (a reader that is inside one when a forced release hands the lock to HTTP is not covered: it
  goes on). From any state in which HTTP owns it and the reader is not inside a command, through any run in which HTTP keeps it (requests,
  lines, signals, a flash job and the shutdown interleaved), a step of the reader leaves the daemon
  as it is: upload, flash operation, lock and files; and all it sends is \<open>BUSY\<close> (or an answer it
  still had to write), or the beginning of it when the write falls short.
\<close>

theorem http_owner_excludes_reader:
  assumes "runs (http_held_step parse dumpable cfg) s ls t" "d_owner (y_d s) = HTTP" "\<not> serial_at_work (y_reader s)"
    and "sys_step parse dumpable cfg t (Reader e) u"
  shows "y_d u = y_d t \<and> \<not> serial_at_work (y_reader u)
    \<and> (may_send ''BUSY'' t u \<or> (\<exists>answer. y_reader t = RWrite answer \<and> may_send answer t u))"
proof -
  have "serial_locked_out t"
    using lock_out.inv_runs [OF assms(1)] assms(2,3) by (simp add: serial_locked_out_def)
  moreover have "reader_step cfg e t = Some u" using assms(4) by (auto elim: sys_step_readerE)
  ultimately show ?thesis using locked_out_reader unfolding serial_locked_out_def by blast
qed

text \<open>A line arrives while HTTP owns the lock; the third statement answers it.\<close>

theorem http_owner_excludes_reader_witness:
  "\<exists>s t u. y_reader s = RGot ''AT+FORCERESET'' \<and> d_owner (y_d s) = HTTP
    \<and> runs (http_held_step (\<lambda>_. NoCmd) (\<lambda>_. True) cfg_serial_ex) s [Reader reader_env_ex, Reader reader_env_ex] t
    \<and> y_d u = y_d t \<and> \<not> serial_at_work (y_reader u)
    \<and> (may_send ''BUSY'' t u \<or> (\<exists>answer. y_reader t = RWrite answer \<and> may_send answer t u))"
proof -
  let ?step = "http_held_step (\<lambda>_. NoCmd) (\<lambda>_. True) cfg_serial_ex"
  let ?s = "sys_serial\<lparr>y_d := (y_d sys_serial)\<lparr>d_owner := HTTP\<rparr>, y_reader := RGot ''AT+FORCERESET''\<rparr>"
  let ?t = "?s\<lparr>y_reader := RBusy\<rparr>"
  have alive: "y_status (?s\<lparr>y_reader := r\<rparr>) = Alive" "y_status ?s = Alive" for r by (simp_all add: sys_serial_def sys_start_def)
  have 1: "?step ?s (Reader reader_env_ex) (?s\<lparr>y_reader := ROwner ''AT+FORCERESET''\<rparr>)"
    using by_reader [OF alive(2)] by (simp add: http_held_step_def reader_step_def owner_ops)
  have 2: "?step (?s\<lparr>y_reader := ROwner ''AT+FORCERESET''\<rparr>) (Reader reader_env_ex) ?t"
    using by_reader [OF alive(1), of cfg_serial_ex reader_env_ex "ROwner ''AT+FORCERESET''"] by (simp add: http_held_step_def reader_step_def)
  have r: "runs ?step ?s [Reader reader_env_ex, Reader reader_env_ex] ?t"
    by (rule runs_Cons [where step = ?step, OF 1], rule runs_Cons [where step = ?step, OF 2], rule runs_Nil)
  let ?u = "(send_line (re_write reader_env_ex) ''BUSY'' ?t)\<lparr>y_reader := RTest\<rparr>"
  have "sys_step (\<lambda>_. NoCmd) (\<lambda>_. True) cfg_serial_ex ?t (Reader reader_env_ex) ?u"
    by (rule by_reader [OF alive(1)]) (simp add: reader_step_def)
  from http_owner_excludes_reader [OF r _ _ this] r show ?thesis
    by - (rule exI [of _ ?s], rule exI [of _ ?t], rule exI [of _ ?u], auto)
qed

section \<open>The serial side owns the lock\<close>

text \<open>A command that bypasses the lock is a reset: it returns, and changes at most the owner.\<close>

lemma bypass_process:
  assumes "bypass_lock cmd"
  shows "\<exists>r owner. process env cfg cmd HTTP d = Replies r (d\<lparr>d_owner := owner\<rparr>) \<and> (owner = d_owner d \<or> owner = NONE)"
proof -
  obtain act arg where a: "at_request cmd = Inr (act, arg)" "act = ''RESET'' \<or> act = ''FORCERESET''"
    using bypass_only_resets [OF assms] by blast
  have "\<exists>r owner. run_action env cfg HTTP act arg d = Replies r (d\<lparr>d_owner := owner\<rparr>) \<and> (owner = d_owner d \<or> owner = NONE)"
    using a(2)
  proof
    assume [simp]: "act = ''RESET''"
    obtain r owner where h: "handle_reset HTTP (d_owner d) = (r, owner)" by fastforce
    then have "owner = d_owner d \<or> owner = NONE" by (auto simp: handle_reset_def release_def split: if_splits)
    with h show ?thesis by (auto simp: run_action_simps with_owner_def)
  next
    assume [simp]: "act = ''FORCERESET''"
    show ?thesis by (auto simp: run_action_simps with_owner_def handle_forcereset_def force_release_def)
  qed
  then show ?thesis using a(1) by (simp add: process_def)
qed

text \<open>What a call of a handler leaves alone when the serial side owns the lock.\<close>

definition http_kept :: "daemon \<Rightarrow> daemon \<Rightarrow> bool" where
  "http_kept d d' \<longleftrightarrow> d_upload d' = d_upload d \<and> d_flash d' = d_flash d \<and> d_owner d' \<in> {SERIAL, NONE}"

lemma command_kept:
  assumes "handle_command parse dumpable env cfg upload_data body d = res" "d_owner d = SERIAL"
  shows "(\<exists>body'. res = More body' d) \<or> (\<exists>code json d'. res = Response code json d' \<and> http_kept d d' \<and> d_fs d' = d_fs d) \<or> res = HttpDies"
proof (cases "upload_data \<noteq> [] \<or> body = []")
  case True
  with assms(1) show ?thesis by (auto simp: handle_command_def split: if_splits)
next
  case False
  have kept: "http_kept d d" "http_kept d (d\<lparr>d_owner := NONE\<rparr>)" using assms(2) by (simp_all add: http_kept_def)
  show ?thesis
  proof (cases "parse body")
    case (Cmd cmd)
    show ?thesis
    proof (cases "bypass_lock cmd")
      case True
      obtain r owner where "process env cfg cmd HTTP d = Replies r (d\<lparr>d_owner := owner\<rparr>)" "owner = d_owner d \<or> owner = NONE"
        using bypass_process [OF True] by blast
      with assms(1) False Cmd True kept show ?thesis
        by (auto simp: handle_command_def http_lock_def command_response_def send_json_def split: if_splits)
    next
      case not_bypass: False
      have same: "d\<lparr>d_owner := SERIAL\<rparr> = d" using assms(2) by simp
      with assms False Cmd http_lock_denied [OF not_bypass] kept show ?thesis
        by (auto simp: handle_command_def send_json_def same split: if_splits)
    qed
  qed (use assms(1) False kept in \<open>auto simp: handle_command_def send_json_def split: if_splits\<close>)
qed

text \<open>A call of the access handler on a request it knows, by the type of the request.\<close>

lemma called_kept:
  assumes h: "http_step parse dumpable cfg (HCall n env data parts) s = Some t"
    and c: "y_conns s n = Some c" and own: "d_owner (y_d s) = SERIAL"
  shows "http_kept (y_d s) (y_d t) \<and> (d_fs (y_d t) = d_fs (y_d s) \<or> c_type c = RT_UPLOAD)"
proof (cases "c_type c")
  case RT_UPLOAD
  with h c own show ?thesis
    by (auto simp: http_step_def access_handler_def http_kept_def split: if_splits access_result.splits upload_result.splits)
next
  case RT_COMMAND
  let ?res = "handle_command parse dumpable (cmd_env env s) cfg data (c_cmd_body c) (y_d s)"
  have "(\<exists>body'. ?res = More body' (y_d s))
      \<or> (\<exists>code json d'. ?res = Response code json d' \<and> http_kept (y_d s) d' \<and> d_fs d' = d_fs (y_d s)) \<or> ?res = HttpDies"
    by (rule command_kept [OF refl own])
  then show ?thesis
    using h c RT_COMMAND own by (auto simp: http_step_def access_handler_def http_kept_def split: if_splits)
qed (use h c own in \<open>auto simp: http_step_def access_handler_def handle_http_status_def handle_http_reset_def
    send_json_def force_release_def http_kept_def split: if_splits\<close>)

text \<open>
  C28: while the serial side owns the session lock, a request over HTTP changes nothing of its work. A
  call of the HTTP thread leaves the upload session alone, and the flash operation too, unless it is
  the end of a wait for the worker that began before; the files change only for \<open>POST /api/upload\<close>
  (which does not ask for the lock), and the lock only by being freed (reset or forced reset).
\<close>

theorem serial_owner_excludes_http:
  assumes "sys_step parse dumpable cfg s (Http call) t" "d_owner (y_d s) = SERIAL"
  shows "d_upload (y_d t) = d_upload (y_d s) \<and> (call = HJoined \<or> d_flash (y_d t) = d_flash (y_d s))
    \<and> d_owner (y_d t) \<in> {SERIAL, NONE}
    \<and> (d_fs (y_d t) = d_fs (y_d s) \<or> (\<exists>n env data parts c. call = HCall n env data parts \<and> y_conns s n = Some c \<and> c_type c = RT_UPLOAD))"
proof -
  have h: "http_step parse dumpable cfg call s = Some t" using assms(1) by (auto elim: sys_stepE)
  show ?thesis
  proof (cases call)
    case (HFirst n url meth debug multipart)
    with h assms(2) show ?thesis
      by (auto simp: http_step_def access_first_def owner_ops Let_def split: if_splits)
  next
    case (HCall n env data parts)
    with h obtain c where c: "y_conns s n = Some c" by (auto simp: http_step_def split: if_splits option.splits)
    from called_kept [OF h [unfolded HCall] c assms(2)] HCall c show ?thesis by (auto simp: http_kept_def)
  next
    case HJoined
    have "d_upload d' = d_upload d \<and> d_fs d' = d_fs d \<and> d_owner d' = d_owner d" if "process_joined w d = (r, d')" for w d r d'
      using that by (auto simp: process_joined_def split: prod.splits)
    with h HJoined assms(2) show ?thesis
      by (auto simp: http_step_def http_joined_def command_response_def send_json_def
          split: if_splits option.splits http_result.splits prod.splits)
  next
    case (HGone n)
    with h assms(2) show ?thesis by (auto simp: http_step_def split: if_splits option.splits)
  qed
qed

theorem serial_owner_excludes_http_witness:
  "\<exists>s t. d_owner (y_d s) = SERIAL \<and> sys_step (\<lambda>_. NoCmd) (\<lambda>_. True) cfg_ex s (Http (HCall 0 env_ok [] [])) t
    \<and> d_upload (y_d t) = d_upload (y_d s) \<and> d_flash (y_d t) = d_flash (y_d s)
    \<and> d_owner (y_d t) \<in> {SERIAL, NONE} \<and> d_fs (y_d t) = d_fs (y_d s)"
proof -
  let ?s = "sys_ready\<lparr>y_d := (daemon_new fs_empty)\<lparr>d_owner := SERIAL\<rparr>, y_conns := [0 \<mapsto> ConnectionState_new\<lparr>c_type := RT_RESET\<rparr>], y_reqs := {0}\<rparr>"
  let ?t = "?s\<lparr>y_d := (daemon_new fs_empty)\<lparr>d_owner := NONE\<rparr>, y_reqs := {}\<rparr>"
  have "http_step (\<lambda>_. NoCmd) (\<lambda>_. True) cfg_ex (HCall 0 env_ok [] []) ?s
      = Some ?t"
    by (simp add: http_step_def access_handler_def handle_http_reset_def force_release_def sys_ready_def sys_start_def)
  then have st: "sys_step (\<lambda>_. NoCmd) (\<lambda>_. True) cfg_ex ?s (Http (HCall 0 env_ok [] [])) ?t"
    by (rule by_http [rotated]) (simp add: sys_ready_def sys_start_def)
  have "d_owner (y_d ?s) = SERIAL" by simp
  from serial_owner_excludes_http [OF st this] st show ?thesis
    by - (rule exI [of _ ?s], rule exI [of _ ?t], auto)
qed

end
