(* ===== verification/Conformance_Md5.thy ===== *)
theory Conformance_Md5
  imports Md5
begin

text \<open>
  The MD5 tests of \<open>test/test_checksum.cpp\<close> on the model: the vectors of RFC 1321 (two of them messages
  of two blocks) and the ways to feed the data. For each vector the words of the padded blocks and the
  registers after each block are given, and the digest follows.
\<close>

section \<open>The vectors\<close>

text \<open>A message of one block: the padded block, its words, and the registers after it.\<close>

lemma padded_nth:
  assumes "length x + k = 56"
  shows "(x @ replicate k 0 @ y) ! i = (if i < length x then x ! i else if i < 56 then 0 else y ! (i - 56))"
  by (auto simp: nth_append assms) (use assms in simp_all)

lemma rfc_md5_one_block:
  assumes "rfc_pad m = x @ replicate k 0 @ y" "length x + k = 56" "length y = 8"
    and "rfc_block (0x67452301, 0xEFCDAB89, 0x98BADCFE, 0x10325476) (x @ replicate k 0 @ y) = regs"
  shows "rfc_md5 m = regs_bytes regs"
  using assms by (simp add: rfc_md5_code rfc_blocks.simps)

lemma rfc_md5_empty: "rfc_md5 [] = [0xd4, 0x1d, 0x8c, 0xd9, 0x8f, 0x00, 0xb2, 0x04, 0xe9, 0x80, 0x09, 0x98, 0xec, 0xf8, 0x42, 0x7e]"
proof -
  let ?block = "[0x80] @ replicate 55 0 @ [0, 0, 0, 0, 0, 0, 0, 0] :: byte list"
  have words: "md5_words ?block = [0x80, 0, 0, 0, 0, 0, 0, 0, 0, 0, 0, 0, 0, 0, 0, 0]"
    unfolding md5_words_def md5_word_def upt_round1 by (simp add: padded_nth del: append.simps)
  have "rfc_block (0x67452301, 0xEFCDAB89, 0x98BADCFE, 0x10325476) ?block
      = (0xD98C1DD4, 0x04B2008F, 0x980980E9, 0x7E42F8EC)"
    unfolding rfc_block_code words upt_64 fold_append comp_apply md5_upts
    by (simp add: rfc_steps_eval md5_ops)
  then show ?thesis
    using rfc_md5_one_block [of "[]" "[0x80]" 55 "[0, 0, 0, 0, 0, 0, 0, 0]"]
    by (simp add: rfc_pad_code le_bytes64_def upt_rec regs_bytes_def le_bytes32_def)
qed

lemma rfc_md5_abc:
  "rfc_md5 (bytes_of ''abc'') =
     [0x90, 0x01, 0x50, 0x98, 0x3c, 0xd2, 0x4f, 0xb0, 0xd6, 0x96, 0x3f, 0x7d, 0x28, 0xe1, 0x7f, 0x72]"
proof -
  let ?block = "[0x61, 0x62, 0x63, 0x80] @ replicate 52 0 @ [24, 0, 0, 0, 0, 0, 0, 0] :: byte list"
  have words: "md5_words ?block = [0x80636261, 0, 0, 0, 0, 0, 0, 0, 0, 0, 0, 0, 0, 0, 24, 0]"
    unfolding md5_words_def md5_word_def upt_round1 by (simp add: padded_nth del: append.simps)
  have "rfc_block (0x67452301, 0xEFCDAB89, 0x98BADCFE, 0x10325476) ?block
      = (0x98500190, 0xB04FD23C, 0x7D3F96D6, 0x727FE128)"
    unfolding rfc_block_code words upt_64 fold_append comp_apply md5_upts
    by (simp add: rfc_steps_eval md5_ops)
  then show ?thesis
    using rfc_md5_one_block [of "bytes_of ''abc''" "[0x61, 0x62, 0x63, 0x80]" 52 "[24, 0, 0, 0, 0, 0, 0, 0]"]
    by (simp add: rfc_pad_code bytes_of_def byte_of_char_def le_bytes64_def upt_rec regs_bytes_def le_bytes32_def)
qed

lemma rfc_md5_hello:
  "rfc_md5 (bytes_of ''hello world'')
     = [0x5e, 0xb6, 0x3b, 0xbb, 0xe0, 0x1e, 0xee, 0xd0, 0x93, 0xcb, 0x22, 0xbb, 0x8f, 0x5a, 0xcd, 0xc3]"
proof -
  let ?x = "[0x68, 0x65, 0x6c, 0x6c, 0x6f, 0x20, 0x77, 0x6f, 0x72, 0x6c, 0x64, 0x80] :: byte list"
  let ?block = "?x @ replicate 44 0 @ [88, 0, 0, 0, 0, 0, 0, 0] :: byte list"
  have words: "md5_words ?block = [0x6c6c6568, 0x6f77206f, 0x80646c72, 0, 0, 0, 0, 0, 0, 0, 0, 0, 0, 0, 88, 0]"
    unfolding md5_words_def md5_word_def upt_round1 by (simp add: padded_nth del: append.simps)
  have "rfc_block (0x67452301, 0xEFCDAB89, 0x98BADCFE, 0x10325476) ?block
      = (0xBB3BB65E, 0xD0EE1EE0, 0xBB22CB93, 0xC3CD5A8F)"
    unfolding rfc_block_code words upt_64 fold_append comp_apply md5_upts
    by (simp add: rfc_steps_eval md5_ops)
  then show ?thesis
    using rfc_md5_one_block [of "bytes_of ''hello world''" ?x 44 "[88, 0, 0, 0, 0, 0, 0, 0]"]
    by (simp add: rfc_pad_code bytes_of_def byte_of_char_def le_bytes64_def upt_rec regs_bytes_def le_bytes32_def)
qed

text \<open>A message of two blocks.\<close>

lemma rfc_md5_two_blocks:
  assumes "rfc_pad m = x @ y" "length x = 64" "length y = 64"
    and "rfc_block (0x67452301, 0xEFCDAB89, 0x98BADCFE, 0x10325476) x = r" "rfc_block r y = regs"
  shows "rfc_md5 m = regs_bytes regs"
  using assms by (simp add: rfc_md5_code rfc_blocks.simps)

lemma rfc_pad_62: "length m = 62 \<Longrightarrow> rfc_pad m = (m @ [0x80, 0]) @ replicate 56 0 @ le_bytes64 496"
proof -
  assume "length m = 62"
  moreover have "replicate 57 (0 :: byte) = 0 # replicate 56 0" by (simp flip: replicate_Suc)
  ultimately show ?thesis by (simp add: rfc_pad_code)
qed

lemma rfc_pad_80:
  "length x = 64 \<Longrightarrow> length y = 16 \<Longrightarrow> rfc_pad (x @ y) = x @ (y @ [0x80]) @ replicate 39 0 @ le_bytes64 640"
  by (simp add: rfc_pad_code)

lemma rfc_md5_a: "rfc_md5 (bytes_of ''a'') =
     [0x0c, 0xc1, 0x75, 0xb9, 0xc0, 0xf1, 0xb6, 0xa8, 0x31, 0xc3, 0x99, 0xe2, 0x69, 0x77, 0x26, 0x61]"
proof -
  let ?x = "[0x61, 0x80] :: byte list" and ?y = "[8, 0, 0, 0, 0, 0, 0, 0] :: byte list"
  let ?block = "?x @ replicate 54 0 @ ?y"
  have words: "md5_words ?block = [0x00008061, 0, 0, 0, 0, 0, 0, 0, 0, 0, 0, 0, 0, 0, 8, 0]"
    unfolding md5_words_def md5_word_def upt_round1 by (simp add: padded_nth del: append.simps)
  have "rfc_block (0x67452301, 0xEFCDAB89, 0x98BADCFE, 0x10325476) ?block
      = (0xB975C10C, 0xA8B6F1C0, 0xE299C331, 0x61267769)"
    unfolding rfc_block_code words upt_64 fold_append comp_apply md5_upts
    by (simp add: rfc_steps_eval md5_ops)
  then show ?thesis
    using rfc_md5_one_block [of "bytes_of ''a''" ?x 54 ?y]
    by (simp add: rfc_pad_code bytes_of_def byte_of_char_def le_bytes64_def upt_rec regs_bytes_def le_bytes32_def)
qed

lemma rfc_md5_message_digest: "rfc_md5 (bytes_of ''message digest'') =
     [0xf9, 0x6b, 0x69, 0x7d, 0x7c, 0xb7, 0x93, 0x8d, 0x52, 0x5a, 0x2f, 0x31, 0xaa, 0xf1, 0x61, 0xd0]"
proof -
  let ?x = "[0x6d, 0x65, 0x73, 0x73, 0x61, 0x67, 0x65, 0x20, 0x64, 0x69, 0x67, 0x65, 0x73, 0x74, 0x80] :: byte list" and ?y = "[112, 0, 0, 0, 0, 0, 0, 0] :: byte list"
  let ?block = "?x @ replicate 41 0 @ ?y"
  have words: "md5_words ?block = [0x7373656d, 0x20656761, 0x65676964, 0x00807473, 0, 0, 0, 0, 0, 0, 0, 0, 0, 0, 112, 0]"
    unfolding md5_words_def md5_word_def upt_round1 by (simp add: padded_nth del: append.simps)
  have "rfc_block (0x67452301, 0xEFCDAB89, 0x98BADCFE, 0x10325476) ?block
      = (0x7D696BF9, 0x8D93B77C, 0x312F5A52, 0xD061F1AA)"
    unfolding rfc_block_code words upt_64 fold_append comp_apply md5_upts
    by (simp add: rfc_steps_eval md5_ops)
  then show ?thesis
    using rfc_md5_one_block [of "bytes_of ''message digest''" ?x 41 ?y]
    by (simp add: rfc_pad_code bytes_of_def byte_of_char_def le_bytes64_def upt_rec regs_bytes_def le_bytes32_def)
qed

lemma rfc_md5_alphabet: "rfc_md5 (bytes_of ''abcdefghijklmnopqrstuvwxyz'') =
     [0xc3, 0xfc, 0xd3, 0xd7, 0x61, 0x92, 0xe4, 0x00, 0x7d, 0xfb, 0x49, 0x6c, 0xca, 0x67, 0xe1, 0x3b]"
proof -
  let ?x = "[0x61, 0x62, 0x63, 0x64, 0x65, 0x66, 0x67, 0x68, 0x69, 0x6a, 0x6b, 0x6c, 0x6d, 0x6e, 0x6f, 0x70, 0x71, 0x72, 0x73, 0x74, 0x75, 0x76, 0x77, 0x78, 0x79, 0x7a, 0x80] :: byte list" and ?y = "[208, 0, 0, 0, 0, 0, 0, 0] :: byte list"
  let ?block = "?x @ replicate 29 0 @ ?y"
  have words: "md5_words ?block = [0x64636261, 0x68676665, 0x6c6b6a69, 0x706f6e6d, 0x74737271, 0x78777675, 0x00807a79, 0, 0, 0, 0, 0, 0, 0, 208, 0]"
    unfolding md5_words_def md5_word_def upt_round1 by (simp add: padded_nth del: append.simps)
  have "rfc_block (0x67452301, 0xEFCDAB89, 0x98BADCFE, 0x10325476) ?block
      = (0xD7D3FCC3, 0x00E49261, 0x6C49FB7D, 0x3BE167CA)"
    unfolding rfc_block_code words upt_64 fold_append comp_apply md5_upts
    by (simp add: rfc_steps_eval md5_ops)
  then show ?thesis
    using rfc_md5_one_block [of "bytes_of ''abcdefghijklmnopqrstuvwxyz''" ?x 29 ?y]
    by (simp add: rfc_pad_code bytes_of_def byte_of_char_def le_bytes64_def upt_rec regs_bytes_def le_bytes32_def)
qed

lemma rfc_md5_alphanumeric: "rfc_md5 (bytes_of ''ABCDEFGHIJKLMNOPQRSTUVWXYZabcdefghijklmnopqrstuvwxyz0123456789'') =
     [0xd1, 0x74, 0xab, 0x98, 0xd2, 0x77, 0xd9, 0xf5, 0xa5, 0x61, 0x1c, 0x2c, 0x9f, 0x41, 0x9d, 0x9f]"
proof -
  let ?first = "[0x41, 0x42, 0x43, 0x44, 0x45, 0x46, 0x47, 0x48, 0x49, 0x4a, 0x4b, 0x4c, 0x4d, 0x4e, 0x4f, 0x50, 0x51, 0x52, 0x53, 0x54, 0x55, 0x56, 0x57, 0x58, 0x59, 0x5a, 0x61, 0x62, 0x63, 0x64, 0x65, 0x66, 0x67, 0x68, 0x69, 0x6a, 0x6b, 0x6c, 0x6d, 0x6e, 0x6f, 0x70, 0x71, 0x72, 0x73, 0x74, 0x75, 0x76, 0x77, 0x78, 0x79, 0x7a, 0x30, 0x31, 0x32, 0x33, 0x34, 0x35, 0x36, 0x37, 0x38, 0x39, 0x80, 0x00] :: byte list"
  let ?x = "[] :: byte list" and ?y = "[240, 1, 0, 0, 0, 0, 0, 0] :: byte list"
  let ?second = "?x @ replicate 56 0 @ ?y"
  have words: "md5_words ?first = [0x44434241, 0x48474645, 0x4c4b4a49, 0x504f4e4d, 0x54535251, 0x58575655, 0x62615a59, 0x66656463, 0x6a696867, 0x6e6d6c6b, 0x7271706f, 0x76757473, 0x7a797877, 0x33323130, 0x37363534, 0x00803938]"
      "md5_words ?second = [0, 0, 0, 0, 0, 0, 0, 0, 0, 0, 0, 0, 0, 0, 0x000001f0, 0]"
    unfolding md5_words_def md5_word_def upt_round1 by (simp, simp add: padded_nth del: append.simps)
  have 1: "rfc_block (0x67452301, 0xEFCDAB89, 0x98BADCFE, 0x10325476) ?first
      = (0x83FD320B, 0xDEFBE5CF, 0xA9B1642F, 0xFA6F932A)"
    unfolding rfc_block_code words upt_64 fold_append comp_apply md5_upts
    by (simp add: rfc_steps_eval md5_ops)
  have 2: "rfc_block (0x83FD320B, 0xDEFBE5CF, 0xA9B1642F, 0xFA6F932A) ?second
      = (0x98AB74D1, 0xF5D977D2, 0x2C1C61A5, 0x9F9D419F)"
    unfolding rfc_block_code words upt_64 fold_append comp_apply md5_upts
    by (simp add: rfc_steps_eval md5_ops)
  have "rfc_pad (bytes_of ''ABCDEFGHIJKLMNOPQRSTUVWXYZabcdefghijklmnopqrstuvwxyz0123456789'') = ?first @ ?second"
    using rfc_pad_62 [of "[0x41, 0x42, 0x43, 0x44, 0x45, 0x46, 0x47, 0x48, 0x49, 0x4a, 0x4b, 0x4c, 0x4d, 0x4e, 0x4f, 0x50, 0x51, 0x52, 0x53, 0x54, 0x55, 0x56, 0x57, 0x58, 0x59, 0x5a, 0x61, 0x62, 0x63, 0x64, 0x65, 0x66, 0x67, 0x68, 0x69, 0x6a, 0x6b, 0x6c, 0x6d, 0x6e, 0x6f, 0x70, 0x71, 0x72, 0x73, 0x74, 0x75, 0x76, 0x77, 0x78, 0x79, 0x7a, 0x30, 0x31, 0x32, 0x33, 0x34, 0x35, 0x36, 0x37, 0x38, 0x39]"] by (simp add: bytes_of_def byte_of_char_def le_bytes64_def upt_rec)
  then show ?thesis
    using rfc_md5_two_blocks [OF _ _ _ 1 2] by (simp add: regs_bytes_def le_bytes32_def)
qed

lemma rfc_md5_digits: "rfc_md5 (bytes_of ''12345678901234567890123456789012345678901234567890123456789012345678901234567890'') =
     [0x57, 0xed, 0xf4, 0xa2, 0x2b, 0xe3, 0xc9, 0x55, 0xac, 0x49, 0xda, 0x2e, 0x21, 0x07, 0xb6, 0x7a]"
proof -
  let ?first = "[0x31, 0x32, 0x33, 0x34, 0x35, 0x36, 0x37, 0x38, 0x39, 0x30, 0x31, 0x32, 0x33, 0x34, 0x35, 0x36, 0x37, 0x38, 0x39, 0x30, 0x31, 0x32, 0x33, 0x34, 0x35, 0x36, 0x37, 0x38, 0x39, 0x30, 0x31, 0x32, 0x33, 0x34, 0x35, 0x36, 0x37, 0x38, 0x39, 0x30, 0x31, 0x32, 0x33, 0x34, 0x35, 0x36, 0x37, 0x38, 0x39, 0x30, 0x31, 0x32, 0x33, 0x34, 0x35, 0x36, 0x37, 0x38, 0x39, 0x30, 0x31, 0x32, 0x33, 0x34] :: byte list"
  let ?x = "[0x35, 0x36, 0x37, 0x38, 0x39, 0x30, 0x31, 0x32, 0x33, 0x34, 0x35, 0x36, 0x37, 0x38, 0x39, 0x30, 0x80] :: byte list" and ?y = "[128, 2, 0, 0, 0, 0, 0, 0] :: byte list"
  let ?second = "?x @ replicate 39 0 @ ?y"
  have words: "md5_words ?first = [0x34333231, 0x38373635, 0x32313039, 0x36353433, 0x30393837, 0x34333231, 0x38373635, 0x32313039, 0x36353433, 0x30393837, 0x34333231, 0x38373635, 0x32313039, 0x36353433, 0x30393837, 0x34333231]"
      "md5_words ?second = [0x38373635, 0x32313039, 0x36353433, 0x30393837, 128, 0, 0, 0, 0, 0, 0, 0, 0, 0, 0x00000280, 0]"
    unfolding md5_words_def md5_word_def upt_round1 by (simp, simp add: padded_nth del: append.simps)
  have 1: "rfc_block (0x67452301, 0xEFCDAB89, 0x98BADCFE, 0x10325476) ?first
      = (0xC88D8BEC, 0xA4A0DC8B, 0xE9EDEF99, 0xB0D18D1D)"
    unfolding rfc_block_code words upt_64 fold_append comp_apply md5_upts
    by (simp add: rfc_steps_eval md5_ops)
  have 2: "rfc_block (0xC88D8BEC, 0xA4A0DC8B, 0xE9EDEF99, 0xB0D18D1D) ?second
      = (0xA2F4ED57, 0x55C9E32B, 0x2EDA49AC, 0x7AB60721)"
    unfolding rfc_block_code words upt_64 fold_append comp_apply md5_upts
    by (simp add: rfc_steps_eval md5_ops)
  have "rfc_pad (bytes_of ''12345678901234567890123456789012345678901234567890123456789012345678901234567890'') = ?first @ ?second"
    using rfc_pad_80 [of "[0x31, 0x32, 0x33, 0x34, 0x35, 0x36, 0x37, 0x38, 0x39, 0x30, 0x31, 0x32, 0x33, 0x34, 0x35, 0x36, 0x37, 0x38, 0x39, 0x30, 0x31, 0x32, 0x33, 0x34, 0x35, 0x36, 0x37, 0x38, 0x39, 0x30, 0x31, 0x32, 0x33, 0x34, 0x35, 0x36, 0x37, 0x38, 0x39, 0x30, 0x31, 0x32, 0x33, 0x34, 0x35, 0x36, 0x37, 0x38, 0x39, 0x30, 0x31, 0x32, 0x33, 0x34, 0x35, 0x36, 0x37, 0x38, 0x39, 0x30, 0x31, 0x32, 0x33, 0x34]" "[0x35, 0x36, 0x37, 0x38, 0x39, 0x30, 0x31, 0x32, 0x33, 0x34, 0x35, 0x36, 0x37, 0x38, 0x39, 0x30]"] by (simp add: bytes_of_def byte_of_char_def le_bytes64_def upt_rec)
  then show ?thesis
    using rfc_md5_two_blocks [OF _ _ _ 1 2] by (simp add: regs_bytes_def le_bytes32_def)
qed

section \<open>The tests\<close>

lemmas hex_text = fmt_02x_def hex_char_lower_def char_of_def bit_0

text \<open>The tests call \<open>hex()\<close> of a context; \<open>md5_compute\<close> is the same by definition.\<close>

lemma md5_empty_string: "md5_compute [] = ''d41d8cd98f00b204e9800998ecf8427e''"
  by (simp add: md5_compute_def MD5_hex_def MD5_finalize_rfc rfc_md5_empty hex_text)

lemma md5_abc: "md5_compute (bytes_of ''abc'') = ''900150983cd24fb0d6963f7d28e17f72''"
  by (simp add: md5_compute_def MD5_hex_def MD5_finalize_rfc rfc_md5_abc hex_text)

lemma md5_hello_world: "md5_compute (bytes_of ''hello world'') = ''5eb63bbbe01eeed093cb22bb8f5acdc3''"
  by (simp add: md5_compute_def MD5_hex_def MD5_finalize_rfc rfc_md5_hello hex_text)

lemma md5_incremental_matches_single:
  "MD5_hex (foldl MD5_update MD5_new (map (\<lambda>b. [b]) data)) = MD5_hex (MD5_update MD5_new data)"
  using md5_chunking [of "map (\<lambda>b. [b]) data"] by (simp add: md5_compute_def)

lemma md5_chunked_matches_single:
  "concat chunks = data \<Longrightarrow> MD5_hex (foldl MD5_update MD5_new chunks) = MD5_hex (MD5_update MD5_new data)"
  using md5_chunking [of chunks] by (simp add: md5_compute_def)

lemma md5_reset_works: "MD5_hex (MD5_update (MD5_reset c) data) = MD5_hex (MD5_update MD5_new data)"
  by (simp add: MD5_reset_new)

lemma md5_a: "md5_compute (bytes_of ''a'')
    = ''0cc175b9c0f1b6a831c399e269772661''"
  by (simp add: md5_compute_def MD5_hex_def MD5_finalize_rfc rfc_md5_a hex_text)

lemma md5_message_digest: "md5_compute (bytes_of ''message digest'')
    = ''f96b697d7cb7938d525a2f31aaf161d0''"
  by (simp add: md5_compute_def MD5_hex_def MD5_finalize_rfc rfc_md5_message_digest hex_text)

lemma md5_alphabet: "md5_compute (bytes_of ''abcdefghijklmnopqrstuvwxyz'')
    = ''c3fcd3d76192e4007dfb496cca67e13b''"
  by (simp add: md5_compute_def MD5_hex_def MD5_finalize_rfc rfc_md5_alphabet hex_text)

lemma md5_alphanumeric: "md5_compute (bytes_of ''ABCDEFGHIJKLMNOPQRSTUVWXYZabcdefghijklmnopqrstuvwxyz0123456789'')
    = ''d174ab98d277d9f5a5611c2c9f419d9f''"
  by (simp add: md5_compute_def MD5_hex_def MD5_finalize_rfc rfc_md5_alphanumeric hex_text)

lemma md5_numeric_with_special: "md5_compute (bytes_of ''12345678901234567890123456789012345678901234567890123456789012345678901234567890'')
    = ''57edf4a22be3c955ac49da2e2107b67a''"
  by (simp add: md5_compute_def MD5_hex_def MD5_finalize_rfc rfc_md5_digits hex_text)

lemma md5_convenience_function: "md5_compute (bytes_of ''abc'') = ''900150983cd24fb0d6963f7d28e17f72''"
  by (rule md5_abc)

end
