(* ===== verification/Conformance.thy ===== *)
theory Conformance
  imports AtUpload Conformance_Md5
begin

text \<open>
  The unit tests of the repository (\<open>test/test_checksum.cpp\<close>, \<open>test/test_at_command.cpp\<close>) on the model
  (those of MD5 are in theory \<open>Conformance_Md5\<close>, those of the logger in \<open>Conformance_Logger\<close>):
  each lemma has the name of its test and states what the test asserts, evaluated by the kernel. What
  the tests leave to the machine (uptime, version texts) is in \<open>test_env\<close>.
\<close>

section \<open>CRC16\<close>

lemma crc16_empty: "crc16_compute [] = 0xFFFF"
  by (simp add: crc16_eval)

lemma crc16_single_byte_0x00: "crc16_compute [0x00] = 0xE1F0"
  by (simp add: crc16_eval)

lemma crc16_single_byte_0xFF: "crc16_compute [0xFF] = 0xFF00"
  by (simp add: crc16_eval)

lemma crc16_known_string_123456789:
  "fmt_04X (crc16_compute (bytes_of ''123456789'')) = ''29B1''"
proof -
  have "bytes_of ''123456789'' = [0x31, 0x32, 0x33, 0x34, 0x35, 0x36, 0x37, 0x38, 0x39]"
    by (simp add: bytes_of_def byte_of_char_def)
  then have "crc16_compute (bytes_of ''123456789'') = 0x29B1"
    by (simp add: crc16_eval)
  then show ?thesis
    by (simp add: fmt_04X_def hex_char_upper_def char_of_def bit_0)
qed

lemma crc16_incremental_matches_single:
  "CRC16_digest (foldl CRC16_update CRC16_new (map (\<lambda>b. [b]) data)) = CRC16_digest (CRC16_update CRC16_new data)"
proof -
  have "crc_reg (foldl CRC16_update c (map (\<lambda>b. [b]) data)) = foldl crc16_byte (crc_reg c) data" for c
    by (induction data arbitrary: c) (simp_all add: CRC16_update_def)
  then show ?thesis by (simp add: CRC16_digest_def CRC16_update_def)
qed

lemma crc16_reset_works:
  "CRC16_digest (CRC16_update (CRC16_reset (CRC16_update CRC16_new data)) data) = CRC16_digest (CRC16_update CRC16_new data)"
  by (simp add: CRC16_digest_def CRC16_update_def CRC16_reset_def CRC16_new_def)

lemma crc16_hex_format: "CRC16_hex (CRC16_update CRC16_new (bytes_of ''123456789'')) = ''29B1''"
  using crc16_known_string_123456789 by (simp add: CRC16_hex_def crc16_compute_def CRC16_digest_def)

lemma crc16_convenience_function: "crc16_compute [0x31, 0x32, 0x33, 0x34, 0x35, 0x36, 0x37, 0x38, 0x39] = 0x29B1"
  by (simp add: crc16_eval)

section \<open>Commands\<close>

definition test_config :: Config where
  "test_config = Config_default\<lparr>cfg_serial_device := [], cfg_upload_dir := ''/tmp/test_at_upload'', cfg_foreground := True\<rparr>"

definition test_env :: env where
  "test_env = env_ok\<lparr>e_serial_open := False\<rparr>"

text \<open>The daemon of a test, with the lock acquired by a side (or by nobody).\<close>

definition test_daemon :: "Owner \<Rightarrow> daemon" where
  "test_daemon w = (daemon_new fs_empty)\<lparr>d_owner := snd (try_acquire w NONE)\<rparr>"

text \<open>
  A line is answered by a text that passes the test's assertions, and leaves a daemon that does;
  \<open>str_contains\<close> is \<open>resp.find(part) != npos\<close>.
\<close>

definition responds :: "string \<Rightarrow> Owner \<Rightarrow> daemon \<Rightarrow> (string \<Rightarrow> bool) \<Rightarrow> (daemon \<Rightarrow> bool) \<Rightarrow> bool" where
  "responds line caller d good after =
     (case process test_env test_config line caller d of Replies resp d' \<Rightarrow> good resp \<and> after d' | _ \<Rightarrow> False)"

lemma responds_request:
  assumes "at_request line = Inr (action, arg)"
  shows "responds line caller d good after =
     (case run_action test_env test_config caller action arg d of Replies resp d' \<Rightarrow> good resp \<and> after d' | _ \<Rightarrow> False)"
  by (simp add: responds_def process_def assms)

lemmas test_defs = test_env_def env_ok_def test_config_def Config_default_def test_daemon_def daemon_new_def owner_ops

lemma test_requests:
  "at_request ''AT+STATUS'' = Inr (''STATUS'', [])"
  "at_request ''AT+HELP'' = Inr (''HELP'', [])"
  "at_request ''AT+RESET'' = Inr (''RESET'', [])"
  "at_request ''AT+FORCERESET'' = Inr (''FORCERESET'', [])"
  "at_request ''AT+FLASH'' = Inr (''FLASH'', [])"
  "at_request ''AT+BOGUS'' = Inr (''BOGUS'', [])"
  "at_request ''AT+VERSION'' = Inr (''VERSION'', [])"
  "at_request ''AT+REBOOT'' = Inr (''REBOOT'', [])"
  "at_request ''AT+VERIFY'' = Inr (''VERIFY'', [])"
  "at_request ''AT+EXEC=whoami'' = Inr (''EXEC'', ''whoami'')"
  "at_request ''AT+VERIFY=nonexistent.bin'' = Inr (''VERIFY'', ''nonexistent.bin'')"
  "at_request ''AT+VERIFY=../../etc/passwd'' = Inr (''VERIFY'', ''../../etc/passwd'')"
  "at_request ''AT+VERIFY=test_verify.bin'' = Inr (''VERIFY'', ''test_verify.bin'')"
  using at_request_plain [of "''STATUS''"]
    at_request_plain [of "''HELP''"]
    at_request_plain [of "''RESET''"]
    at_request_plain [of "''FORCERESET''"]
    at_request_plain [of "''FLASH''"]
    at_request_plain [of "''BOGUS''"]
    at_request_plain [of "''VERSION''"]
    at_request_plain [of "''REBOOT''"]
    at_request_plain [of "''VERIFY''"]
    at_request_join [of "''EXEC''" "''whoami''" "[]"]
    at_request_join [of "''VERIFY''" "''nonexistent.bin''" "[]"]
    at_request_join [of "''VERIFY''" "''../../etc/passwd''" "[]"]
    at_request_join [of "''VERIFY''" "''test_verify.bin''" "[]"]
  by (simp_all add: to_upper_def)

lemma at_status_returns_ok:
  "responds ''AT+STATUS'' HTTP (test_daemon NONE)
     (\<lambda>r. take 2 r = ''OK'' \<and> str_contains ''serial=closed'' r \<and> str_contains ''device=none'' r) (\<lambda>_. True)"
  by (simp add: responds_request [OF test_requests(1)] run_action_def handle_status_def test_defs use_serial_def dec_str_int_def dec_str.simps [of 0])

lemma at_status_shows_busy:
  "responds ''AT+STATUS'' HTTP (test_daemon HTTP) (str_contains ''busy=yes'') (\<lambda>_. True)"
  by (simp add: responds_request [OF test_requests(1)] run_action_def handle_status_def test_defs use_serial_def dec_str_int_def dec_str.simps [of 0])

lemma at_help_lists_all_commands:
  "responds ''AT+HELP'' HTTP (test_daemon NONE)
     (\<lambda>r. \<forall>c \<in> {''AT+STATUS'', ''AT+RESET'', ''AT+FORCERESET'', ''AT+FLASH'', ''AT+EXEC'', ''AT+PREUPLOAD'', ''AT+UPLOAD'',
        ''AT+UPLOADDONE'', ''AT+UPLOADCANCEL''}. str_contains c r) (\<lambda>_. True)"
  by (simp add: responds_request [OF test_requests(2)] run_action_def handle_help_def dash_def)

lemma at_reset_releases_lock:
  "is_busy (d_owner (test_daemon HTTP))"
  "responds ''AT+RESET'' HTTP (test_daemon HTTP) (\<lambda>r. r = ''OK'') (\<lambda>d. \<not> is_busy (d_owner d))"
  by (simp_all add: responds_request [OF test_requests(3)] run_action_def handle_reset_def with_owner_def test_defs)

lemma at_reset_wrong_owner_fails:
  "responds ''AT+RESET'' SERIAL (test_daemon HTTP) (str_contains ''ERROR'') (\<lambda>d. is_busy (d_owner d))"
  by (simp add: responds_request [OF test_requests(3)] run_action_def handle_reset_def with_owner_def test_defs)

lemma at_forcereset_always_works:
  "responds ''AT+FORCERESET'' SERIAL (test_daemon HTTP) (\<lambda>r. r = ''OK'') (\<lambda>d. \<not> is_busy (d_owner d))"
  by (simp add: responds_request [OF test_requests(4)] run_action_def handle_forcereset_def with_owner_def test_defs)

lemma at_flash_no_args_fails:
  "responds ''AT+FLASH'' HTTP (test_daemon NONE) (\<lambda>r. str_contains ''ERROR'' r \<and> str_contains ''requires <file>'' r) (\<lambda>_. True)"
  by (simp add: responds_request [OF test_requests(5)] run_action_def handle_flash_def with_flash_def flash_fields_def test_defs FlashOp_new_def)

lemma at_exec_disabled_by_default:
  "responds ''AT+EXEC=whoami'' HTTP (test_daemon NONE) (\<lambda>r. str_contains ''disabled'' r \<and> str_contains ''ALLOW_RCE'' r) (\<lambda>_. True)"
  by (simp add: responds_request [OF test_requests(10)] run_action_def handle_exec_def test_defs)

lemma at_unknown_command:
  "responds ''AT+BOGUS'' HTTP (test_daemon NONE) (\<lambda>r. str_contains ''ERROR'' r \<and> str_contains ''unknown'' r) (\<lambda>_. True)"
  by (simp add: responds_request [OF test_requests(6)] run_action_def)

lemma at_not_at_command:
  "responds ''HELLO'' HTTP (test_daemon NONE) (\<lambda>r. str_contains ''ERROR'' r \<and> str_contains ''must start with AT'' r) (\<lambda>_. True)"
  by (simp add: responds_def process_def at_request_def at_trim_def trim_right_def)

lemma at_command_session_lock_flow:
  "is_busy (d_owner (test_daemon HTTP))"
  "responds ''AT+STATUS'' HTTP (test_daemon HTTP) (\<lambda>r. take 2 r = ''OK'') (\<lambda>d. d = test_daemon HTTP)"
  "\<not> fst (try_acquire SERIAL (d_owner (test_daemon HTTP)))"
  "responds ''AT+RESET'' HTTP (test_daemon HTTP) (\<lambda>r. r = ''OK'') (\<lambda>d. \<not> is_busy (d_owner d) \<and> fst (try_acquire SERIAL (d_owner d)))"
  by (simp_all add: responds_request [OF test_requests(1)] responds_request [OF test_requests(3)] run_action_def handle_status_def handle_reset_def with_owner_def test_defs)

lemma at_version_returns_ok:
  "responds ''AT+VERSION'' HTTP (test_daemon NONE)
     (\<lambda>r. take 2 r = ''OK'' \<and> str_contains ''daemon='' r \<and> str_contains ''arch='' r \<and> str_contains ''build='' r) (\<lambda>_. True)"
  by (simp add: responds_request [OF test_requests(7)] run_action_def handle_version_def test_defs)

lemma at_reboot_enabled_by_default:
  "responds ''AT+REBOOT'' HTTP (test_daemon NONE) (\<lambda>r. str_contains ''ERROR'' r \<or> take 2 r = ''OK'') (\<lambda>_. True)"
  by (simp add: responds_request [OF test_requests(8)] run_action_def handle_reboot_def test_defs)

lemma at_verify_no_args:
  "responds ''AT+VERIFY'' HTTP (test_daemon NONE) (\<lambda>r. str_contains ''ERROR'' r \<and> str_contains ''requires'' r) (\<lambda>_. True)"
  by (simp add: responds_request [OF test_requests(9)] run_action_def handle_verify_def test_defs)

lemma at_verify_file_not_found:
  "responds ''AT+VERIFY=nonexistent.bin'' HTTP (test_daemon NONE)
     (\<lambda>r. str_contains ''ERROR'' r \<and> str_contains ''cannot open'' r) (\<lambda>_. True)"
  by (simp add: responds_request [OF test_requests(11)] run_action_def handle_verify_def test_defs fopen_rb_def fs_lookup_def fs_empty_def)

lemma at_verify_path_traversal_rejected:
  "responds ''AT+VERIFY=../../etc/passwd'' HTTP (test_daemon NONE)
     (\<lambda>r. str_contains ''ERROR'' r \<and> str_contains ''invalid'' r) (\<lambda>_. True)"
  by (simp add: responds_request [OF test_requests(12)] run_action_def handle_verify_def test_defs)

lemma at_verify_computes_md5:
  assumes "fs_lookup fs ''/tmp/test_at_upload/test_verify.bin'' = Some (bytes_of ''hello world'')"
  shows "responds ''AT+VERIFY=test_verify.bin'' HTTP ((test_daemon NONE)\<lparr>d_fs := fs\<rparr>)
    (\<lambda>r. take 2 r = ''OK'' \<and> str_contains ''5eb63bbbe01eeed093cb22bb8f5acdc3'' r \<and> str_contains ''11'' r) (\<lambda>d. d_fs d = fs)"
proof -
  have "length (bytes_of ''hello world'') = 11" by (simp add: bytes_of_def)
  moreover have "dec_str 11 = ''11''" by (simp add: dec_str.simps [of 11] dec_str.simps [of "Suc 0"] digit_char_def char_of_def bit_0)
  ultimately have "handle_verify (e_io test_env) test_config ''test_verify.bin'' fs = ''OK 5eb63bbbe01eeed093cb22bb8f5acdc3 11''"
    using verify_digest [of "''test_verify.bin''"] assms
    by (simp add: test_defs fopen_rb_def md5_hello_world)
  then show ?thesis by (simp add: responds_request [OF test_requests(13)] run_action_def test_daemon_def daemon_new_def)
qed

end
