(* ===== verification/Conformance_Logger.thy ===== *)
theory Conformance_Logger
  imports Logger
begin

text \<open>
  The unit tests of the logger (\<open>test/test_logger.cpp\<close>) on the model: each lemma has the name of its
  test and states what the test asserts of the log file, which is computed from the calls the test
  makes. The level a test leaves set is seen by the tests after it, since the logger is one object: a
  test that sets none runs at DEBUG, as the order of the file makes it. That \<open>Logger::instance()\<close>
  always is the same object is how the model has it: the state is one record.
\<close>

section \<open>The log file of a test\<close>

definition TEST_LOG :: string where
  "TEST_LOG = ''/tmp/test_rk_flashd.log''"

definition test_time :: log_time where
  "test_time = \<lparr>tm_year = 125, tm_mon = 0, tm_mday = 2, tm_hour = 3, tm_min = 4, tm_sec = 5, tv_usec = 678901\<rparr>"

definition test_call :: "LogLevel \<Rightarrow> string \<Rightarrow> int \<Rightarrow> string \<Rightarrow> log_call" where
  "test_call l file line msg =
     \<lparr>lc_io = io_all_ok, lc_time = test_time, lc_level = l, lc_file = file, lc_line = line, lc_text = msg\<rparr>"

text \<open>The tests call \<open>log\<close> itself, which is the macro for a text that fits the macro's buffer.\<close>

lemma log_call_log:
  "length (lc_text c) < 1024 \<Longrightarrow>
    log_call c w = Logger_log (lc_io c) (lc_time c) (lc_level c) (lc_file c) (lc_line c) (lc_text c) w"
  by (simp add: log_call_def LOG_def snprintf_id)

text \<open>What \<open>setup\<close> leaves, and one round of \<open>init\<close>, \<open>set_level\<close>, the calls and \<open>shutdown\<close>.\<close>

definition log_setup :: log_world where
  "log_setup = \<lparr>lw_logger = Logger_new, lw_fs = fs_empty, lw_stderr = []\<rparr>"

definition log_round :: "LogLevel \<Rightarrow> log_call list \<Rightarrow> log_world \<Rightarrow> log_world" where
  "log_round level cs w =
     Logger_shutdown io_all_ok (fold log_call cs (Logger_set_level level (Logger_init io_all_ok [] TEST_LOG w)))"

definition log_content :: "log_world \<Rightarrow> string \<Rightarrow> bool" where
  "log_content w s \<longleftrightarrow> fs_lookup (lw_fs w) TEST_LOG = Some (bytes_of s)"

definition logged :: "LogLevel \<Rightarrow> log_call list \<Rightarrow> string" where
  "logged level cs = concat (map call_entry (filter (\<lambda>c. level \<le> lc_level c) cs))"

text \<open>The file is inode 0 of the store and holds \<open>s\<close>.\<close>

definition log_stored :: "string \<Rightarrow> log_world \<Rightarrow> bool" where
  "log_stored s w \<longleftrightarrow> fs_names (lw_fs w) TEST_LOG = Some 0 \<and> fs_inodes (lw_fs w) 0 = bytes_of s"

lemma c_str_TEST_LOG [simp]: "c_str TEST_LOG = TEST_LOG"
  by (simp add: TEST_LOG_def c_str_def)

lemma TEST_LOG_ne [simp]: "TEST_LOG \<noteq> []"
  by (simp add: TEST_LOG_def)

lemma log_stored_content: "log_stored s w \<Longrightarrow> log_content w s"
  by (simp add: log_stored_def log_content_def fs_lookup_def)

lemma log_round_open:
  assumes "log_at 0 w1" "log_stored s w1" "w1 = Logger_init io_all_ok [] TEST_LOG w" "list_all call_fits cs"
  shows "log_stored (s @ logged level cs) (log_round level cs w)"
proof -
  let ?w = "Logger_set_level level w1"
  have at: "log_at 0 ?w" and level: "lg_level (lw_logger ?w) = level" and fs: "lw_fs ?w = lw_fs w1"
    using assms(1) by (simp_all add: Logger_set_level_def log_at_def)
  note run = log_calls_file [OF at assms(4), unfolded level fs]
  have "lw_fs (log_round level cs w) = lw_fs (fold log_call cs ?w)"
    using run unfolding log_round_def assms(3) [symmetric]
    by (simp add: Logger_shutdown_def log_at_def fflush_a_def Let_def)
  with run assms(2) show ?thesis
    by (simp add: log_stored_def logged_def bytes_of_def)
qed

lemma log_round_first:
  assumes "list_all call_fits cs"
  shows "log_stored (logged level cs) (log_round level cs log_setup)"
proof -
  have "log_at 0 (Logger_init io_all_ok [] TEST_LOG log_setup)" "log_stored [] (Logger_init io_all_ok [] TEST_LOG log_setup)"
    by (simp_all add: Logger_init_def fopen_a_def fopen_wb_def log_setup_def fs_empty_def log_at_def log_stored_def bytes_of_def)
  from log_round_open [OF this refl assms, of level] show ?thesis by simp
qed

lemma log_round_again:
  assumes "log_stored s w" "list_all call_fits cs"
  shows "log_stored (s @ logged level cs) (log_round level cs w)"
proof -
  have "log_at 0 (Logger_init io_all_ok [] TEST_LOG w)" "log_stored s (Logger_init io_all_ok [] TEST_LOG w)"
    using assms(1) by (simp_all add: Logger_init_def fopen_a_def log_at_def log_stored_def)
  from log_round_open [OF this refl assms(2)] show ?thesis .
qed

section \<open>The text of an entry\<close>

lemma dec_str_small:
  "dec_str 0 = ''0''" "dec_str 1 = ''1''" "dec_str (Suc 0) = ''1''" "dec_str 2 = ''2''" "dec_str 3 = ''3''"
  "dec_str 4 = ''4''" "dec_str 5 = ''5''" "dec_str 6 = ''6''" "dec_str 7 = ''7''" "dec_str 8 = ''8''"
  "dec_str 9 = ''9''" "dec_str 42 = ''42''" "dec_str 100 = ''100''" "dec_str 678 = ''678''" "dec_str 2025 = ''2025''"
  "dec_str 156 = ''156''" "dec_str 157 = ''157''" "dec_str 158 = ''158''" "dec_str 159 = ''159''"
  "dec_str 127 = ''127''" "dec_str 128 = ''128''" "dec_str 129 = ''129''" "dec_str 130 = ''130''"
  by (simp_all add: dec_str.simps digit_char_def char_of_def bit_0 bit_iff_odd)

lemma test_timestamp: "timestamp test_time = ''2025-01-02 03:04:05.678''"
  by (simp add: timestamp_def test_time_def fmt_0d_def dec_str_small snprintf_def Let_def)

lemma short_file_plain: "CHR ''/'' \<notin> set f \<Longrightarrow> short_file f = f"
  by (simp add: short_file_def rfind_char_None [THEN iffD2])

lemma short_file_path: "CHR ''/'' \<notin> set f \<Longrightarrow> short_file (d @ CHR ''/'' # f) = f"
  by (simp add: short_file_def)

lemma test_entry:
  "call_entry (test_call l file line msg) =
     ''[2025-01-02 03:04:05.678] ['' @ level_str l @ ''] ('' @ short_file file @ '':'' @ dec_str_int line @ '') '' @ msg @ [CHR 0x0A]"
  by (simp add: call_entry_def entry_def test_call_def test_timestamp)

lemma test_call_fits:
  "length msg < 1024 \<Longrightarrow> CHR 0x00 \<notin> set msg \<Longrightarrow> length (short_file file) + length (dec_str_int line) \<le> 900
    \<Longrightarrow> call_fits (test_call l file line msg)"
  by (simp add: call_fits_def test_call_def)

lemmas test_log_simps =
  logged_def test_entry test_call_fits short_file_plain dec_str_int_def dec_str_small level_order

lemma test_call_level [simp]: "lc_level (test_call l file line msg) = l"
  by (simp add: test_call_def)

text \<open>The count of the test framework: from the end of one occurrence to the next.\<close>

fun count_occurrences :: "string \<Rightarrow> string \<Rightarrow> nat" where
  "count_occurrences needle [] = 0"
| "count_occurrences needle (c # s) =
     (if take (length needle) (c # s) = needle then Suc (count_occurrences needle (drop (length needle - 1) s))
      else count_occurrences needle s)"


section \<open>The tests\<close>

text \<open>What one round writes, as text, decides the assertions.\<close>

lemma log_test:
  assumes "list_all call_fits cs" "logged level cs = s" "good s"
  shows "\<exists>s. log_content (log_round level cs log_setup) s \<and> good s"
  using log_stored_content [OF log_round_first [OF assms(1)], of level] assms(2,3) by blast

lemma init_with_file_creates_file:
  "\<exists>s. log_content (log_round DEBUG [test_call INFO ''test.cpp'' 42 ''hello from test''] log_setup) s
    \<and> str_contains ''hello from test'' s \<and> str_contains ''[INFO ]'' s \<and> str_contains ''test.cpp:42'' s"
  by (rule log_test [OF _ refl]) (simp_all add: test_log_simps)

lemma log_level_in_timestamp_format:
  "\<exists>s. log_content (log_round DEBUG
      [test_call DEBUG ''t.cpp'' 1 ''msg-debug'', test_call INFO ''t.cpp'' 2 ''msg-info'',
       test_call WARN ''t.cpp'' 3 ''msg-warn'', test_call ERROR ''t.cpp'' 4 ''msg-error''] log_setup) s
    \<and> str_contains ''[DEBUG]'' s \<and> str_contains ''[INFO ]'' s \<and> str_contains ''[WARN ]'' s \<and> str_contains ''[ERROR]'' s"
  by (rule log_test [OF _ refl]) (simp_all add: test_log_simps)

lemma set_level_filters_messages:
  "\<exists>s. log_content (log_round WARN
      [test_call DEBUG ''t.cpp'' 1 ''should-not-appear-debug'', test_call INFO ''t.cpp'' 2 ''should-not-appear-info'',
       test_call WARN ''t.cpp'' 3 ''should-appear-warn'', test_call ERROR ''t.cpp'' 4 ''should-appear-error''] log_setup) s
    \<and> \<not> str_contains ''should-not-appear-debug'' s \<and> \<not> str_contains ''should-not-appear-info'' s
    \<and> str_contains ''should-appear-warn'' s \<and> str_contains ''should-appear-error'' s"
  by (rule log_test [OF _ refl]) (simp_all add: test_log_simps)

lemma set_level_debug_all_passes:
  "\<exists>s. log_content (log_round DEBUG
      [test_call DEBUG ''t.cpp'' 1 ''debug-msg'', test_call INFO ''t.cpp'' 2 ''info-msg'',
       test_call WARN ''t.cpp'' 3 ''warn-msg'', test_call ERROR ''t.cpp'' 4 ''error-msg''] log_setup) s
    \<and> count_occurrences ''-msg'' s = 4"
  by (rule log_test [OF _ refl]) (simp_all add: test_log_simps)

lemma set_level_error_only:
  "\<exists>s. log_content (log_round ERROR
      [test_call DEBUG ''t.cpp'' 1 ''nope-debug'', test_call INFO ''t.cpp'' 2 ''nope-info'',
       test_call WARN ''t.cpp'' 3 ''nope-warn'', test_call ERROR ''t.cpp'' 4 ''yes-error''] log_setup) s
    \<and> \<not> str_contains ''nope-debug'' s \<and> \<not> str_contains ''nope-info'' s \<and> \<not> str_contains ''nope-warn'' s
    \<and> str_contains ''yes-error'' s"
  by (rule log_test [OF _ refl]) (simp_all add: test_log_simps)

text \<open>The expanded formats of the macros' test, at its lines.\<close>

lemma log_macros_work:
  "\<exists>s. log_content (log_round DEBUG
      [test_call DEBUG ''test_logger.cpp'' 127 ''macro debug 1'', test_call INFO ''test_logger.cpp'' 128 ''macro info hi'',
       test_call WARN ''test_logger.cpp'' 129 ''macro warn 3'', test_call ERROR ''test_logger.cpp'' 130 ''macro error 4''] log_setup) s
    \<and> str_contains ''macro debug 1'' s \<and> str_contains ''macro info hi'' s \<and> str_contains ''macro warn 3'' s
    \<and> str_contains ''macro error 4'' s"
  by (rule log_test [OF _ refl]) (simp_all add: test_log_simps)

lemma timestamp_format_is_correct:
  "\<exists>s. log_content (log_round DEBUG [test_call INFO ''t.cpp'' 1 ''ts-test''] log_setup) s
    \<and> str_contains ''[20'' s \<and> str_contains ''] [INFO ]'' s \<and> str_contains ''(t.cpp:1)'' s"
  by (rule log_test [OF _ refl]) (simp_all add: test_log_simps)

lemma file_path_shortening:
  "\<exists>s. log_content (log_round DEBUG [test_call INFO ''/home/user/project/src/main.cpp'' 100 ''path-test''] log_setup) s
    \<and> str_contains ''main.cpp:100'' s \<and> \<not> str_contains ''/home/user'' s"
proof -
  have "short_file ''/home/user/project/src/main.cpp'' = ''main.cpp''"
    using short_file_path [of "''main.cpp''" "''/home/user/project/src''"] by simp
  then show ?thesis by (intro log_test [OF _ refl]) (simp_all add: test_log_simps)
qed

lemma shutdown_closes_file_gracefully:
  "\<exists>s. log_content (log_round DEBUG [test_call INFO ''t.cpp'' 1 ''before-shutdown''] log_setup) s
    \<and> str_contains ''before-shutdown'' s"
  by (rule log_test [OF _ refl]) (simp_all add: test_log_simps)

lemma reinit_after_shutdown_works:
  "\<exists>s. log_content (log_round DEBUG [test_call INFO ''t.cpp'' 2 ''cycle-2'']
      (log_round DEBUG [test_call INFO ''t.cpp'' 1 ''cycle-1''] log_setup)) s
    \<and> str_contains ''cycle-1'' s \<and> str_contains ''cycle-2'' s"
proof -
  let ?c1 = "[test_call INFO ''t.cpp'' 1 ''cycle-1'']" and ?c2 = "[test_call INFO ''t.cpp'' 2 ''cycle-2'']"
  have fits: "list_all call_fits ?c1" "list_all call_fits ?c2" by (simp_all add: test_log_simps)
  have "log_content (log_round DEBUG ?c2 (log_round DEBUG ?c1 log_setup)) (logged DEBUG ?c1 @ logged DEBUG ?c2)"
    by (rule log_stored_content [OF log_round_again [OF log_round_first [OF fits(1)] fits(2)]])
  moreover have "str_contains ''cycle-1'' (logged DEBUG ?c1 @ logged DEBUG ?c2)"
    "str_contains ''cycle-2'' (logged DEBUG ?c1 @ logged DEBUG ?c2)"
    by (simp_all add: test_log_simps)
  ultimately show ?thesis by blast
qed

lemma str_contains_within:
  "str_contains p (a @ (b1 @ b2 @ b3 @ b4 @ b5 @ b6 @ b7 @ p @ c) @ d)"
  unfolding str_contains_iff by (intro exI [of _ "a @ b1 @ b2 @ b3 @ b4 @ b5 @ b6 @ b7"] exI [of _ "c @ d"]) simp

lemma multiple_messages_appended:
  "\<exists>s. log_content (log_round DEBUG
      (map (\<lambda>i. test_call INFO ''t.cpp'' (int i) (''line-'' @ dec_str i)) [0..<10]) log_setup) s
    \<and> (\<forall>i < 10. str_contains (''line-'' @ dec_str i) s)"
proof (rule log_test [OF _ refl])
  let ?cs = "map (\<lambda>i. test_call INFO ''t.cpp'' (int i) (''line-'' @ dec_str i)) [0..<10]"
  have digits: "length (dec_str i) = 1 \<and> CHR 0x00 \<notin> set (dec_str i)" if "i < 10" for i
  proof
    show "length (dec_str i) = 1" using that by (simp add: dec_str.simps [of i])
    show "CHR 0x00 \<notin> set (dec_str i)" using dec_str_digits [of "CHR 0x00" i] by (auto simp: is_digit_def)
  qed
  then show "list_all call_fits ?cs"
    by (auto simp: list_all_iff dec_str_int_def short_file_plain intro!: test_call_fits)
  show "\<forall>i < 10. str_contains (''line-'' @ dec_str i) (logged DEBUG ?cs)"
  proof (intro allI impI)
    fix i :: nat assume "i < 10"
    let ?e = "\<lambda>i. call_entry (test_call INFO ''t.cpp'' (int i) (''line-'' @ dec_str i))"
    from \<open>i < 10\<close> have "logged DEBUG ?cs = concat (map ?e [0..<i]) @ ?e i @ concat (map ?e [Suc i..<10])"
      using upt_add_eq_append [of 0 i "10 - i"] upt_conv_Cons [of i 10] by (simp add: logged_def comp_def)
    then show "str_contains (''line-'' @ dec_str i) (logged DEBUG ?cs)"
      by (simp only: test_entry str_contains_within)
  qed
qed

end
