(* ===== verification/Spec2Isabelle.thy ===== *)
theory Spec2Isabelle
  imports AtUpload HttpUpload_Props Upload_Clash Upload_Race Status_Race Flash_Race Startup Lifecycle_Conns Lifecycle_Lock Conformance Conformance_Logger
begin

text \<open>
  A model of \<open>rk_firmware_flashd\<close>, a daemon for Rockchip boards that receives firmware over HTTP or a
  serial line, checks it and starts the flash scripts.

  The program. \<open>src/main.cpp\<close> reads the command line, becomes a daemon, opens the log and the serial
  port and starts two threads: the serial reader (\<open>src/serial_daemon.cpp\<close>) and the HTTP server
  (\<open>src/http_server.cpp\<close>, on libmicrohttpd); it then waits for SIGTERM or SIGINT and takes everything
  down again. Both threads hand command lines to one kind of processor (\<open>src/at_command.cpp\<close>), whose
  handlers (\<open>src/at_handler/\<close>) act on an upload session, a flash job and files. A global lock with an
  owner decides which side may issue commands. HTTP also takes whole files by multipart upload
  (\<open>src/http_handler/handler_upload.cpp\<close>).

  Which theory models what.

  \<^item> \<open>Prelude\<close>: characters, searching and cutting strings, \<open>strtoul\<close>, \<open>printf\<close> and \<open>sscanf\<close> as far as
    the program uses them, with the lemmas about them that the other theories share.
  \<^item> \<open>Digest\<close>: the contract of a digest fed piece by piece (a locale). \<open>Crc16\<close>, \<open>Md5Block\<close>, \<open>Md5\<close>:
    \<open>include/checksum.h\<close>, words at their width, loops as in the source, the 64 MD5 steps written out;
    proved equal to polynomial long division and to RFC 1321, and interpreted as digests.
  \<^item> \<open>Files\<close>: names, inodes, streams, and the C library calls on them; the locale of staged writing
    (write under a temporary name, close, rename).
  \<^item> \<open>Config\<close>, \<open>ConfigParse\<close>: \<open>include/config.h\<close> and \<open>parse_args\<close> of \<open>src/config.cpp\<close>.
  \<^item> \<open>Upload\<close>: \<open>src/at_handler/handler_upload.cpp\<close>, one definition per handler; \<open>Upload_Inv\<close>: its
    invariant and the abstract session a client sees; \<open>Upload_Run\<close>: runs of arbitrary commands;
    \<open>Upload_Props\<close>: its properties; \<open>Upload_Store\<close>: what the upload directory holds. \<open>Machine\<close> has the
    locales of invariants and refinements these are instances of.
  \<^item> \<open>Lock\<close>: the lock of \<open>src/serial_daemon.cpp\<close> and its contract (a locale). \<open>Session\<close>: every
    interleaving of the two threads at the lock, as a step relation. \<open>Lock_Spec\<close>: the atomic lock that
    relation implements.
  \<^item> \<open>Upload_Steps\<close>: the upload handlers statement by statement on the one \<open>UploadState\<close>, with closed and
    null streams; \<open>Upload_Race\<close>: both threads executing them as the lock lets them, and the atomic
    component that is, as long as nobody force-releases the lock.
  \<^item> \<open>Flash\<close>, \<open>Flash_Props\<close>: \<open>src/at_handler/handler_flash.cpp\<close>, the worker thread statement by
    statement beside the command thread, as a step relation. \<open>Flash_Steps\<close>: its handlers statement by
    statement on the one \<open>FlashOp\<close>; \<open>Flash_Threads\<close>: two command threads and the worker executing them
    as the lock lets them, with the invariant; \<open>Flash_Linear\<close>: the commands of that system are atomic;
    \<open>Flash_Race\<close>: the accesses that conflict, and what a forced release adds.
  \<^item> \<open>AtParse\<close>: the text of a command. \<open>Handlers\<close>: the remaining handlers. \<open>AtCommand\<close>: the dispatcher
    and the state of all that commands work on. \<open>AtUpload\<close>: the upload protocol as lines of text.
  \<^item> \<open>HttpCommand\<close>: \<open>/api/command\<close>, \<open>/api/reset\<close>, \<open>/api/status\<close> and one turn of the serial reader.
    \<open>Status_Race\<close>: what \<open>/api/status\<close> answers while the reader runs between its loads of the owner.
    \<open>HttpUpload\<close>, \<open>HttpUpload_Props\<close>: the multipart upload and the routing. \<open>Upload_Clash\<close>: both kinds
    of upload on one directory.
  \<^item> \<open>SerialPort\<close>: \<open>src/serial_port.cpp\<close> and one iteration of the reader loop.
  \<^item> \<open>Logger\<close>: \<open>src/logger.cpp\<close> and the macros of \<open>include/logger.h\<close>. \<open>Dirs\<close>: the directory tree,
    \<open>mkdir_p\<close> and the path resolution of \<open>src/main.cpp\<close>. \<open>Daemonize\<close>: \<open>src/daemon.cpp\<close>. \<open>Startup\<close>:
    \<open>main\<close> up to the signal handlers, and \<open>print_usage\<close>.
  \<^item> \<open>Transition\<close>: runs of labelled steps, the states a run visits, and the locales of invariants, of
    progress to a goal, of bounded labels and of refinement by traces of events. \<open>Lifecycle\<close>: the rest
    of \<open>main\<close>, the reader thread, the HTTP server's thread, the flash worker and the signals as one step
    relation, each thread a statement at a time.
    \<open>Daemon_Inv\<close>: what every command and request keeps of the state. \<open>Lifecycle_Inv\<close>: the invariant of
    the whole process; \<open>Lifecycle_Props\<close>, \<open>Lifecycle_Runs\<close>: progress, shutdown and exit;
    \<open>Lifecycle_Lock\<close>: what one side can do while the other owns the lock; \<open>Lifecycle_Conns\<close>: requests
    that end, and clients that disconnect.
  \<^item> \<open>Conformance\<close>, \<open>Conformance_Md5\<close>, \<open>Conformance_Logger\<close>: the unit tests of \<open>test/\<close> for the checksums,
    the commands and the logger, evaluated on the model.

  How state and errors are represented. The function-local statics and members of the source are
  records (\<open>UploadState\<close>, \<open>FlashOp\<close>, \<open>ConnectionState\<close>, \<open>MD5\<close>, \<open>CRC16\<close>, \<open>Config\<close>, \<open>SerialPort\<close>,
  \<open>Logger\<close>), gathered in \<open>daemon\<close> and, with the threads and the process, in \<open>sys\<close>; an operation takes
  them and returns them updated with its reply. Replies are the source's texts; the early returns are
  the branches of a definition, in the source's order. What the operating system, libserialport and
  libmicrohttpd decide are arguments: \<open>io\<close> for files, \<open>env\<close> for a command, \<open>daemon_env\<close> for the forks,
  labels of the step relations for threads, event lists for reads. The JSON library is the arguments
  \<open>parse\<close> and \<open>dumpable\<close>. Calls that wait or end the process have results of their own (\<open>Joins\<close>,
  \<open>Dies\<close>, \<open>Terminated\<close>), a thread that waits has no step, and an operation that may not return is an
  option.

  What is shown. Digests: equal to their standards, for every way of cutting the data. Upload: the
  handlers refine an abstract session, OK means the announced data is stored as long as no write falls
  short (and what OK hides when one does), nothing outside the directory is touched, damaged frames are
  rejected. Lock and threads: mutual exclusion in every interleaving without a forced release, and where
  forced releases break it; the lock refines an atomic one, and the handlers
  executed statement by statement by two threads refine atomic commands, so that what is shown of
  sequences of commands (in particular that no file of the upload directory is half written) holds of
  two threads. Flash: the reply of each poll, and exactly when a submission ends the process; as long as
  nobody force-releases the lock, polls and submissions of two threads take effect at one point, and
  only members shared with the worker are accessed at the same time. HTTP:
  which requests are refused, what an upload stores, what is kept of a request that ended. Process: the
  PID file, the descriptors and the log of the daemon; in every interleaving some thread can go on, a
  SIGTERM can always be followed by the end, the main thread executes at most twenty statements after
  it, the reader stops within seven, and a regular exit leaves no thread, port, lock or (if it may be
  removed) PID file behind. Where the code does not do what it means to, a theorem says what it does instead.

  Bounds. Sizes and counters have the widths of the source (64 bit sizes, 32 bit frame lengths);
  the properties about whole uploads ask for data shorter than \<open>2^64\<close> bytes in frames shorter than
  \<open>2^32\<close>, where nothing wraps. There is no fuel: every loop is structural or has a measure, except
  reading a line, which follows the list of events it is given, and the threads, which are step
  relations.

  What is not modelled: where in a command log messages are written (the logger itself is modelled,
  the start's messages too), the effect of the flash scripts and of \<open>AT+EXEC\<close> on files, what
  the hardware does to data that two threads access at once (a command is one step in \<open>Lifecycle\<close>; in
  \<open>Upload_Race\<close> and \<open>Flash_Threads\<close> a step is a statement, executed in some order, and \<open>Flash_Race\<close> says
  which accesses conflict), the bytes of HTTP messages, symbolic links, and the memory the
  program allocates, except for the connection states.
\<close>

section \<open>Across the components\<close>

text \<open>The announcement opens a session with nothing received.\<close>

lemma begin_session:
  assumes idle: "\<not> u_active (d_upload d)" "u_file (d_upload d) = None" "md5_wf (u_md5_ctx (d_upload d))"
    and create: "\<forall>p. io_create (e_io env) p"
    and name: "safe_filename name" "CHR '','' \<notin> set name" "last name \<notin> {CHR 0x0D, CHR 0x0A, CHR '' ''}"
    and data: "data \<noteq> []" "length data < 2 ^ 64"
  obtains d1 where
    "process env cfg (''AT+PREUPLOAD='' @ client_begin name (length data) (md5_compute data)) caller d = Replies ''OK READY'' d1"
    "upload_inv cfg (d_upload d1, d_fs d1)"
    "session_of (d_upload d1, d_fs d1) = Receiving name (length data) (md5_compute data) []"
proof -
  let ?n = "length data" and ?md5 = "md5_compute data"
  have ok: "client_ok (Begin name ?n ?md5)"
    using name data by (simp add: md5_text_compute)
  obtain f fs1 where h: "handle_preupload (e_io env) cfg (client_begin name ?n ?md5) (d_upload d, d_fs d) =
       (''OK READY'', (d_upload d)\<lparr>u_active := True, u_filename := name, u_tmp_path := upload_tmp_path cfg name,
          u_expected_size := of_nat ?n, u_received := 0, u_frame_count := 0,
          u_file := Some f, u_expected_md5 := ?md5, u_md5_ctx := MD5_new\<rparr>, fs1)" (is "_ = (_, ?u1, _)")
    and f: "st_buf f = []"
    by (rule preupload_begin [OF ok idle(1) create])
  let ?d1 = "d\<lparr>d_upload := ?u1, d_fs := fs1\<rparr>"
  have p1: "process env cfg (''AT+PREUPLOAD='' @ client_begin name ?n ?md5) caller d = Replies ''OK READY'' ?d1"
    using process_begin [OF md5_text_compute, of env cfg name ?n data caller d]
    by (simp only: h with_upload_def split_conv)
  have "upload_inv cfg (d_upload d, d_fs d)" using idle by (rule upload_inv_closed)
  then have inv1: "upload_inv cfg (d_upload ?d1, d_fs ?d1)"
    using upload_inv_preupload [of cfg "d_upload d" "d_fs d" "e_io env" "client_begin name ?n ?md5"] h by simp
  have "unat (of_nat ?n :: 64 word) = ?n" using data(2) by (simp add: unat_of_nat)
  then have "session_of (d_upload ?d1, d_fs ?d1) = Receiving name ?n ?md5 []" using f by simp
  with p1 inv1 show ?thesis by (rule that)
qed

text \<open>
  C17: the protocol as a client speaks it. From any daemon without an upload in progress, whoever
  sends the lines: announce, frames cut as the client likes, finish, verify. The replies are READY,
  the running totals, the final OK with name, size and MD5, and from \<open>AT+VERIFY\<close> the same MD5 and
  size read back from the stored file, which holds exactly the data.
\<close>

theorem upload_then_verify_lines:
  assumes idle: "\<not> u_active (d_upload d)" "u_file (d_upload d) = None" "md5_wf (u_md5_ctx (d_upload d))"
    and env: "io_writes_ok (e_io env)" "\<forall>p. io_create (e_io env) p" "\<forall>p. io_open (e_io env) p"
      "\<forall>p q. io_rename (e_io env) p q"
    and name: "safe_filename name" "CHR '','' \<notin> set name"
      "last name \<notin> {CHR 0x0D, CHR 0x0A, CHR '' ''}"
    and data: "concat frames = data" "data \<noteq> []" "length data < 2 ^ 64" "\<forall>bs\<in>set frames. length bs < 2 ^ 32"
  shows "\<exists>d'. run_lines env cfg caller (upload_lines name frames @ [''AT+VERIFY='' @ name]) d
      = Some (''OK READY'' # frame_acks 0 frames
          @ [''OK '' @ name @ '' '' @ dec_str (length data) @ '' '' @ md5_compute data,
             ''OK '' @ md5_compute data @ '' '' @ dec_str (length data)], d')
    \<and> fs_lookup (d_fs d') (cfg_upload_dir cfg @ ''/'' @ name) = Some data"
proof -
  let ?n = "length data" and ?md5 = "md5_compute data"
  obtain d1 where p1: "process env cfg (''AT+PREUPLOAD='' @ client_begin name ?n ?md5) caller d = Replies ''OK READY'' d1"
    and inv1: "upload_inv cfg (d_upload d1, d_fs d1)"
    and ses1: "session_of (d_upload d1, d_fs d1) = Receiving name ?n ?md5 []"
    by (rule begin_session [OF idle env(2) name data(2,3)])
  obtain d2 where r2: "run_lines env cfg caller (map (\<lambda>bs. ''AT+UPLOAD='' @ client_frame bs) frames) d1
      = Some (frame_acks 0 frames, d2)"
    and inv2: "upload_inv cfg (d_upload d2, d_fs d2)"
    and ses2: "session_of (d_upload d2, d_fs d2) = Receiving name ?n ?md5 data"
    using run_frames [OF inv1 ses1 env(1), of frames caller] data by auto
  obtain u3 fs3 where d3: "handle_uploaddone (e_io env) cfg (d_upload d2, d_fs d2) =
       (''OK '' @ name @ '' '' @ dec_str ?n @ '' '' @ ?md5, u3, fs3)"
    and look: "fs_lookup fs3 (cfg_upload_dir cfg @ ''/'' @ name) = Some data"
    by (rule finish_complete [OF inv2 env(1,4) ses2 refl data(3)])
  have name': "name \<noteq> []" "\<not> str_contains ''..'' name" using name(1) by (simp_all add: safe_filename_def)
  have "fopen_rb (e_io env) fs3 (cfg_upload_dir cfg @ ''/'' @ name) = Some data"
    using look env(3) by (simp add: fopen_rb_def)
  then have v: "handle_verify (e_io env) cfg name fs3 = ''OK '' @ ?md5 @ '' '' @ dec_str ?n"
    using verify_digest [OF name'] data(3) by (simp add: unat_of_nat)
  have "run_lines env cfg caller [''AT+UPLOADDONE'', ''AT+VERIFY='' @ name] d2 =
      Some ([''OK '' @ name @ '' '' @ dec_str ?n @ '' '' @ ?md5, ''OK '' @ ?md5 @ '' '' @ dec_str ?n],
        d2\<lparr>d_upload := u3, d_fs := fs3\<rparr>)"
    using process_done [of env cfg caller d2] process_verify [of name env cfg caller] name(3) d3 v
    by (simp add: with_upload_def)
  then show ?thesis
    using look by (simp add: upload_lines_def run_lines_append p1 [simplified] r2 [simplified] data(1))
qed

theorem upload_then_verify_lines_witness:
  "\<exists>d'. run_lines env_ok Config_default SERIAL
        (upload_lines ''fw.bin'' [[1, 2], [3]] @ [''AT+VERIFY='' @ ''fw.bin'']) (daemon_new fs_empty)
      = Some (''OK READY'' # frame_acks 0 [[1, 2], [3 :: byte]]
          @ [''OK '' @ ''fw.bin'' @ '' '' @ dec_str (length [1, 2, 3 :: byte]) @ '' '' @ md5_compute [1, 2, 3],
             ''OK '' @ md5_compute [1, 2, 3] @ '' '' @ dec_str (length [1, 2, 3 :: byte])], d')
    \<and> fs_lookup (d_fs d') (cfg_upload_dir Config_default @ ''/'' @ ''fw.bin'') = Some [1, 2, 3]"
  by (rule upload_then_verify_lines)
     (simp_all add: daemon_new_def UploadState_new_def env_ok_def safe_filename_def)

text \<open>The start in the foreground, without a log file: nothing but the two messages.\<close>

lemma foreground_start:
  "\<exists>w'. main_start (start_env_ex 0) ''flashd'' [''--foreground''] world_ex = Runs cfg_ex w'
    \<and> w_proc w' = proc_ex \<and> lw_fs (w_log w') = fs_empty"
proof -
  have args: "parse_args [''--foreground''] Config_default = Inr cfg_ex" by (simp add: cfg_ex_def)
  have cfg: "\<not> cfg_help cfg_ex" "cfg_foreground cfg_ex" "cfg_log_file cfg_ex = []"
      "resolve_paths r cfg_ex = cfg_ex" "default_log_file cfg_ex = cfg_ex" for r
    by (simp_all add: cfg_ex_def Config_default_def resolve_paths_def resolve_path_def default_log_file_def)
  have log: "lg_file (lw_logger v) = None \<Longrightarrow> lw_fs (LOG io t l f n s v) = lw_fs v \<and> lg_file (lw_logger (LOG io t l f n s v)) = None"
    for io t l f n s v by (simp add: LOG_def Logger_log_def Let_def)
  have start: "lg_file (lw_logger (w_log w)) = None \<Longrightarrow> lw_fs (w_log (start_logging e cfg_ex w)) = lw_fs (w_log w)" for e w
    by (simp add: start_logging_def log_info_def Logger_init_def cfg log Let_def)
  show ?thesis
    by (simp add: main_start_def args cfg start world_ex_def Logger_new_def complain_def Let_def
        del: parse_args.simps split: prod.splits)
qed

text \<open>
  C11: a whole life, from the command line to the exit. Whenever the start went on and, after any
  commands, requests and signals in any interleaving, \<open>main\<close> has returned (with 0, or 1 if the HTTP
  server could not be started): the reader was joined, the HTTP server is stopped, the flash worker
  was joined, the serial port is closed, the session lock is free, and the PID file named on the
  command line is gone (if the system lets the daemon remove it), unless the daemon ran in the
  foreground.
\<close>

theorem daemon_life:
  assumes start: "main_start e program args w = Runs cfg w'"
    and before: "fs_wf (lw_fs (w_log w))" "pr_handled (w_proc w) = []"
    and run: "sys_run parse dumpable cfg (sys_start (w_proc w') (lw_fs (w_log w'))) ls s"
    and exit: "y_status s = Exited c"
  shows "\<exists>given. parse_args args Config_default = Inr given \<and> (c = 0 \<or> c = 1)
    \<and> y_reader s = NoThread \<and> \<not> y_http s \<and> f_worker (d_flash (y_d s)) = NotJoinable
    \<and> \<not> port_is_open (y_port s) \<and> d_owner (y_d s) = NONE
    \<and> (list_all (removes_pid_file cfg ''/'') ls \<longrightarrow>
        cfg_foreground given \<or> fs_lookup (d_fs (y_d s)) (from_cwd ''/'' (cfg_pid_file given)) = None)"
proof -
  obtain given where g: "parse_args args Config_default = Inr given"
    and cfg: "cfg = default_log_file (resolve_paths (realpath_dot e (w_proc w)) given)"
    and p: "pr_cwd (w_proc w') = (if cfg_foreground given then pr_cwd (w_proc w) else ''/'')"
      "pr_handled (w_proc w') = []" "fs_wf (lw_fs (w_log w'))"
    using main_start_state [OF start] before by auto
  show ?thesis
    using clean_exit [OF run p(3,2) exit] g p(1) by (auto simp: cfg config_kept split: if_splits)
qed

theorem daemon_life_witness:
  "\<exists>(s :: sys) given. parse_args [''--foreground''] Config_default = Inr given \<and> y_status s = Exited 0
    \<and> y_reader s = NoThread \<and> \<not> y_http s \<and> \<not> port_is_open (y_port s) \<and> d_owner (y_d s) = NONE"
proof -
  obtain w' where r: "main_start (start_env_ex 0) ''flashd'' [''--foreground''] world_ex = Runs cfg_ex w'"
    and w': "w_proc w' = proc_ex" "lw_fs (w_log w') = fs_empty"
    using foreground_start by blast
  obtain ls t where "sys_run (\<lambda>_. NoCmd) (\<lambda>_. True) cfg_ex (sys_start proc_ex fs_empty) ls t" "y_status t = Exited 0"
    using sys_exit_reachable by blast
  with daemon_life [OF r _ _ _ this(2), of "\<lambda>_. NoCmd" "\<lambda>_. True" ls] show ?thesis
    by (auto simp: w' world_ex_def proc_ex_def)
qed

end
